(* ===== verification/Prelude.thy ===== *)
theory Prelude imports Main "HOL-Library.Sublist" "HOL-Library.Monad_Syntax" "HOL-Library.AList" begin

text \<open>
  Shared base of the development: the fact collections the component theories fill, the type
  names they share, and generic lemmas on lists, options and association lists.

  A C function is modelled as a HOL function into the option monad when the C can run into
  undefined behaviour (a write outside an array, a read of an array that holds no terminator):
  \<open>None\<close> is "the C standard gives this execution no result", \<open>Some\<close> carries the result.
  The error codes of the program itself (\<open>-1\<close>, \<open>0\<close>, null pointers) are ordinary values
  of the result, so each early return of the source is a branch of the model.
\<close>

named_theorems buf_simps \<open>contents and sizes of char arrays after a write\<close>
named_theorems scan_simps \<open>evaluation of the scanning functions of the C library\<close>
named_theorems fs_simps \<open>file system contents after a system call\<close>
named_theorems frame_simps \<open>what an operation leaves unchanged\<close>

section \<open>Options\<close>

lemma bind_Some_iff: "(f \<bind> g) = Some y \<longleftrightarrow> (\<exists>x. f = Some x \<and> g x = Some y)"
  by (cases f) auto

text \<open>
  Every defined result of \<open>m\<close> satisfies \<open>Q\<close>. The equations push the property through binds and
  branches and leave one goal per path, with the intermediate results as equations.
\<close>

named_theorems run_simps \<open>pushing a property through a program in the option monad\<close>

definition run_ok :: "'a option \<Rightarrow> ('a \<Rightarrow> bool) \<Rightarrow> bool" where
  "run_ok m Q \<longleftrightarrow> (\<forall>x. m = Some x \<longrightarrow> Q x)"

lemma run_okI: "m = Some x \<Longrightarrow> run_ok m Q \<Longrightarrow> Q x"
  by (simp add: run_ok_def)

lemma run_ok_simps [run_simps]:
  "run_ok None Q \<longleftrightarrow> True"
  "run_ok (Some x) Q \<longleftrightarrow> Q x"
  "run_ok (m \<bind> f) Q \<longleftrightarrow> (\<forall>x. m = Some x \<longrightarrow> run_ok (f x) Q)"
  "run_ok (if b then m1 else m2) Q \<longleftrightarrow> (b \<longrightarrow> run_ok m1 Q) \<and> (\<not> b \<longrightarrow> run_ok m2 Q)"
  "run_ok (case p of (a, b) \<Rightarrow> k a b) Q \<longleftrightarrow> (\<forall>a b. p = (a, b) \<longrightarrow> run_ok (k a b) Q)"
  "run_ok (case r of None \<Rightarrow> m1 | Some y \<Rightarrow> h y) Q \<longleftrightarrow>
     (r = None \<longrightarrow> run_ok m1 Q) \<and> (\<forall>y. r = Some y \<longrightarrow> run_ok (h y) Q)"
  by (auto simp: run_ok_def bind_Some_iff split: prod.splits option.splits if_splits)

section \<open>Lists\<close>

lemma takeWhile_id: "(\<And>x. x \<in> set xs \<Longrightarrow> P x) \<Longrightarrow> takeWhile P xs = xs"
  by (simp add: takeWhile_eq_all_conv)

lemma takeWhile_stop: "(\<And>x. x \<in> set xs \<Longrightarrow> P x) \<Longrightarrow> \<not> P y \<Longrightarrow> takeWhile P (xs @ y # ys) = xs"
  by (induction xs) auto

lemma dropWhile_stop:
  "(\<And>x. x \<in> set xs \<Longrightarrow> P x) \<Longrightarrow> \<not> P y \<Longrightarrow> dropWhile P (xs @ y # ys) = y # ys"
  by (induction xs) auto

lemma takeWhile_neq_stop [simp]: "x \<notin> set a \<Longrightarrow> takeWhile (\<lambda>c. c \<noteq> x) (a @ x # r) = a"
  by (induction a) auto

lemma dropWhile_neq_stop [simp]: "x \<notin> set a \<Longrightarrow> dropWhile (\<lambda>c. c \<noteq> x) (a @ x # r) = x # r"
  by (induction a) auto

lemma set_take_no: "x \<notin> set xs \<Longrightarrow> x \<notin> set (take n xs)"
  by (meson in_set_takeD)

lemma prefix_delimited:
  "q \<notin> set k \<Longrightarrow> q \<notin> set b \<Longrightarrow> prefix (k @ [q]) (b @ q # r) \<longleftrightarrow> k = b"
proof (induction k arbitrary: b)
  case Nil
  then show ?case by (cases b) auto
next
  case (Cons x k)
  then show ?case by (cases b) auto
qed

lemma prefix_split:
  "q \<notin> set k \<Longrightarrow> q \<notin> set b \<Longrightarrow> prefix (k @ q # s) (b @ q # r) \<longleftrightarrow> k = b \<and> prefix s r"
proof (induction k arbitrary: b)
  case Nil
  then show ?case by (cases b) auto
next
  case (Cons x k)
  then show ?case by (cases b) auto
qed

lemma sublist_delimited:
  assumes "q \<notin> set a"
  shows "sublist (q # k) (a @ q # r) \<longleftrightarrow> prefix k r \<or> sublist (q # k) r"
  using assms by (induction a) (auto simp: sublist_Cons_right)

lemma sublist_absent: "q \<notin> set a \<Longrightarrow> \<not> sublist (q # k) a"
  by (metis list.set_intros(1) set_mono_sublist subsetD)

section \<open>Association lists\<close>

lemma map_of_filter_key: "map_of (filter (\<lambda>(k, v). P k) al) k = (if P k then map_of al k else None)"
  by (induction al) auto

end
