(* ===== verification/CString.thy ===== *)
theory CString imports Prelude "HOL-Library.Word" begin

text \<open>
  The part of the C library's string handling that the program uses: char arrays of a declared
  size, the \<open>str*\<close> functions, \<open>snprintf\<close> truncation, \<open>sscanf\<close> with the directives the
  source writes (white space, literal characters, \<open>%[^c]\<close>, \<open>%d\<close>), \<open>fgets\<close>, \<open>strtok\<close>
  and the decimal and hexadecimal conversions.

  A char array is the list of its bytes (\<open>buf\<close>), so its size is the list's length and bytes
  that were never written are simply the bytes the list holds. A C string is the \<open>string\<close>
  before the first terminator. A write that does not fit gives \<open>None\<close>.
\<close>

section \<open>Char arrays\<close>

type_synonym buf = "char list"

abbreviation NUL :: char where "NUL \<equiv> CHR 0x00"
abbreviation LF :: char where "LF \<equiv> CHR 0x0A"
abbreviation CR :: char where "CR \<equiv> CHR 0x0D"
abbreviation TAB :: char where "TAB \<equiv> CHR 0x09"
abbreviation DQ :: char where "DQ \<equiv> CHR 0x22"

definition no_nul :: "string \<Rightarrow> bool" where
  "no_nul s \<longleftrightarrow> NUL \<notin> set s"

text \<open>The C string an array holds; reading an array with no terminator is undefined.\<close>

definition cstr :: "buf \<Rightarrow> string option" where
  "cstr b = (if NUL \<in> set b then Some (takeWhile (\<lambda>c. c \<noteq> NUL) b) else None)"

text \<open>\<open>memset(b, 0, n)\<close>, \<open>= {0}\<close>.\<close>

definition zbuf :: "nat \<Rightarrow> buf" where
  "zbuf n = replicate n NUL"

text \<open>\<open>strncpy(b, s, n)\<close>: at most \<open>n\<close> bytes, padded with zeros, no terminator of its own.\<close>

definition strncpy :: "buf \<Rightarrow> string \<Rightarrow> nat \<Rightarrow> buf option" where
  "strncpy b s n = (if n \<le> length b then Some (take n (s @ replicate n NUL) @ drop n b) else None)"

text \<open>\<open>strncpy(b, s, sizeof(b) - 1)\<close>, the form the source uses on arrays; it always fits.\<close>

definition strncpy_sz :: "buf \<Rightarrow> string \<Rightarrow> buf" where
  "strncpy_sz b s = take (length b - 1) (s @ replicate (length b - 1) NUL) @ drop (length b - 1) b"

definition strcpy :: "buf \<Rightarrow> string \<Rightarrow> buf option" where
  "strcpy b s = (if length s < length b then Some (s @ NUL # drop (Suc (length s)) b) else None)"

definition strcat :: "buf \<Rightarrow> string \<Rightarrow> buf option" where
  "strcat b s = cstr b \<bind> (\<lambda>d. strcpy b (d @ s))"

text \<open>\<open>snprintf(b, n, ...)\<close> leaves this C string in an array of size \<open>n\<close> when the formatted
  text is \<open>s\<close>.\<close>

definition snprintf :: "nat \<Rightarrow> string \<Rightarrow> string" where
  "snprintf n s = take (n - 1) s"

definition snprintf_buf :: "buf \<Rightarrow> string \<Rightarrow> buf" where
  "snprintf_buf b s =
     (if b = [] then b
      else let t = snprintf (length b) s in t @ NUL # drop (Suc (length t)) b)"

text \<open>An array of size \<open>n\<close> whose last byte is zero: what a zeroed array stays under every
  bounded copy, and what makes each bounded copy readable.\<close>

definition zterm :: "nat \<Rightarrow> buf \<Rightarrow> bool" where
  "zterm n b \<longleftrightarrow> length b = n \<and> 0 < n \<and> last b = NUL"

lemma no_nul_simps [simp]:
  "no_nul []"
  "no_nul (c # s) \<longleftrightarrow> c \<noteq> NUL \<and> no_nul s"
  "no_nul (s @ t) \<longleftrightarrow> no_nul s \<and> no_nul t"
  by (auto simp: no_nul_def)

lemma no_nul_take [simp]: "no_nul s \<Longrightarrow> no_nul (take n s)"
  by (auto simp: no_nul_def dest: in_set_takeD)

lemma cstr_string [buf_simps]: "no_nul s \<Longrightarrow> cstr (s @ NUL # r) = Some s"
  by (auto simp: cstr_def no_nul_def intro!: takeWhile_stop)

lemma cstr_no_nul: "cstr b = Some s \<Longrightarrow> no_nul s"
  by (auto simp: cstr_def no_nul_def split: if_splits dest: set_takeWhileD)

lemma cstr_length: "cstr b = Some s \<Longrightarrow> length s < length b"
proof -
  assume "cstr b = Some s"
  then have "NUL \<in> set b" and s: "s = takeWhile (\<lambda>c. c \<noteq> NUL) b"
    by (auto simp: cstr_def split: if_splits)
  then have "s \<noteq> b" by (metis (mono_tags, lifting) set_takeWhileD)
  then show ?thesis
    unfolding s by (metis length_takeWhile_le nless_le takeWhile_eq_take take_all_iff)
qed

lemma cstr_zbuf [buf_simps]: "0 < n \<Longrightarrow> cstr (zbuf n) = Some []"
  by (cases n) (auto simp: cstr_def zbuf_def)

lemma length_zbuf [buf_simps, simp]: "length (zbuf n) = n"
  by (simp add: zbuf_def)

lemma zterm_zbuf [buf_simps, simp]: "zterm n (zbuf n) \<longleftrightarrow> 0 < n"
  by (auto simp: zterm_def zbuf_def)

lemma zterm_length: "zterm n b \<Longrightarrow> length b = n"
  by (simp add: zterm_def)

lemma zterm_cstr: "zterm n b \<Longrightarrow> \<exists>s. cstr b = Some s"
  by (auto simp: zterm_def cstr_def dest: last_in_set)

lemma length_strncpy_sz [buf_simps, simp]: "length (strncpy_sz b s) = length b"
  by (simp add: strncpy_sz_def)

lemma strncpy_sz_eq: "0 < length b \<Longrightarrow> strncpy b s (length b - 1) = Some (strncpy_sz b s)"
  by (simp add: strncpy_def strncpy_sz_def)

lemma zterm_split: "zterm n b \<Longrightarrow> drop (n - 1) b = [NUL]"
  by (cases b rule: rev_cases) (auto simp: zterm_def)

lemma zterm_strncpy_sz [buf_simps]:
  assumes "zterm n b"
  shows "zterm n (strncpy_sz b s)"
proof -
  have "last (strncpy_sz b s) = NUL"
    using zterm_split [OF assms] assms by (simp add: zterm_def strncpy_sz_def)
  then show ?thesis using assms by (simp add: zterm_def)
qed

text \<open>A bounded copy into such an array reads back as the truncated string.\<close>

lemma cstr_strncpy_sz [buf_simps]:
  assumes "zterm n b" and "no_nul s"
  shows "cstr (strncpy_sz b s) = Some (take (n - 1) s)"
proof -
  have l: "length b = n" using assms(1) by (rule zterm_length)
  have eq: "strncpy_sz b s = take (n - 1) s @ replicate (n - 1 - length s) NUL @ [NUL]"
    using zterm_split [OF assms(1)] l by (simp add: strncpy_sz_def min_def)
  have "\<exists>r. strncpy_sz b s = take (n - 1) s @ NUL # r"
    unfolding eq by (cases "n - 1 - length s") auto
  then show ?thesis using assms(2) by (auto simp: cstr_string)
qed

text \<open>With any previous content, a copy shorter than the bound is terminated.\<close>

lemma cstr_strncpy_short [buf_simps]:
  assumes "length s + 1 < length b" and "no_nul s"
  shows "cstr (strncpy_sz b s) = Some s"
proof -
  obtain k where k: "length b - 1 - length s = Suc k"
    using assms(1) by (metis Suc_diff_1 add.commute diff_diff_left plus_1_eq_Suc zero_less_diff)
  then have "strncpy_sz b s = s @ NUL # replicate k NUL @ drop (length b - 1) b"
    by (simp add: strncpy_sz_def min_def)
  then show ?thesis using assms(2) by (simp add: cstr_string)
qed

lemma cstr_strcpy: "strcpy b s = Some b' \<Longrightarrow> no_nul s \<Longrightarrow> cstr b' = Some s"
  by (auto simp: strcpy_def cstr_string split: if_splits)

lemma length_strcpy: "strcpy b s = Some b' \<Longrightarrow> length b' = length b"
  by (auto simp: strcpy_def split: if_splits)

lemma strcpy_fits: "length s < length b \<Longrightarrow> \<exists>b'. strcpy b s = Some b'"
  by (simp add: strcpy_def)

lemma length_strcat: "strcat b s = Some b' \<Longrightarrow> length b' = length b"
  by (auto simp: strcat_def bind_Some_iff dest: length_strcpy)

lemma cstr_strcat: "strcat b s = Some b' \<Longrightarrow> cstr b = Some d \<Longrightarrow> no_nul s \<Longrightarrow> cstr b' = Some (d @ s)"
  by (auto simp: strcat_def dest!: cstr_strcpy dest: cstr_no_nul)

lemma snprintf_id: "length s < n \<Longrightarrow> snprintf n s = s"
  by (simp add: snprintf_def)

lemma length_snprintf: "0 < n \<Longrightarrow> length (snprintf n s) < n"
  by (simp add: snprintf_def)

lemma no_nul_snprintf [simp]: "no_nul s \<Longrightarrow> no_nul (snprintf n s)"
  by (simp add: snprintf_def)

lemma cstr_snprintf_buf [buf_simps]:
  "b \<noteq> [] \<Longrightarrow> no_nul s \<Longrightarrow> cstr (snprintf_buf b s) = Some (snprintf (length b) s)"
  by (simp add: snprintf_buf_def Let_def cstr_string)

lemma length_snprintf_buf [buf_simps, simp]: "length (snprintf_buf b s) = length b"
  by (cases b) (auto simp: snprintf_buf_def Let_def snprintf_def)

section \<open>Searching\<close>

definition strchr :: "string \<Rightarrow> char \<Rightarrow> string option" where
  "strchr s c = (case dropWhile (\<lambda>x. x \<noteq> c) s of [] \<Rightarrow> None | x # xs \<Rightarrow> Some (x # xs))"

text \<open>\<open>strrchr\<close> returns the suffix at the last occurrence.\<close>

definition strrchr :: "string \<Rightarrow> char \<Rightarrow> string option" where
  "strrchr s c =
     (if c \<in> set s then Some (c # rev (takeWhile (\<lambda>x. x \<noteq> c) (rev s))) else None)"

text \<open>\<open>strstr\<close> returns the suffix at the first occurrence of the needle.\<close>

fun strstr :: "string \<Rightarrow> string \<Rightarrow> string option" where
  "strstr [] needle = (if needle = [] then Some [] else None)"
| "strstr (c # s) needle = (if prefix needle (c # s) then Some (c # s) else strstr s needle)"

definition contains :: "string \<Rightarrow> string \<Rightarrow> bool" where
  "contains s needle \<longleftrightarrow> strstr s needle \<noteq> None"

lemma contains_sublist: "contains s needle \<longleftrightarrow> sublist needle s"
  unfolding contains_def by (induction s) (auto simp: sublist_Cons_right)

lemma strstr_SomeD: "strstr s needle = Some r \<Longrightarrow> prefix needle r \<and> suffix r s"
  by (induction s) (auto split: if_splits simp: suffix_Cons)

lemma strstr_at_start: "prefix needle s \<Longrightarrow> strstr s needle = Some s"
  by (cases s) auto

lemma strchr_None [simp]: "strchr s c = None \<longleftrightarrow> c \<notin> set s"
  by (induction s) (auto simp: strchr_def)

lemma strchr_append: "c \<notin> set a \<Longrightarrow> strchr (a @ c # r) c = Some (c # r)"
  by (induction a) (auto simp: strchr_def)

text \<open>Whether a quoted word occurs in a text whose quotes delimit known pieces.\<close>

definition quoted :: "string \<Rightarrow> string" where
  "quoted k = DQ # k @ [DQ]"

lemma contains_quoted_cons [scan_simps]:
  "DQ \<notin> set a \<Longrightarrow> DQ \<notin> set b \<Longrightarrow> DQ \<notin> set k \<Longrightarrow>
   contains (a @ DQ # b @ DQ # r) (quoted k) \<longleftrightarrow> k = b \<or> contains (b @ DQ # r) (quoted k)"
  unfolding contains_sublist quoted_def by (subst sublist_delimited) (auto simp: prefix_delimited)

lemma contains_quoted_last [scan_simps]:
  assumes "DQ \<notin> set a" "DQ \<notin> set b" "DQ \<notin> set k"
  shows "\<not> contains (a @ DQ # b) (quoted k)"
proof -
  have "\<not> prefix (k @ [DQ]) b" using assms(2) by (auto simp: prefix_def)
  then show ?thesis
    unfolding contains_sublist quoted_def using assms by (subst sublist_delimited) (auto dest: sublist_absent)
qed

text \<open>A text cut at its quotes: a quoted word occurs in it when it is one of the inner pieces.\<close>

fun join_dq :: "string list \<Rightarrow> string" where
  "join_dq [] = []"
| "join_dq [p] = p"
| "join_dq (p # q # ps) = p @ DQ # join_dq (q # ps)"

lemma contains_join [scan_simps]:
  "\<forall>p \<in> set ps. DQ \<notin> set p \<Longrightarrow> DQ \<notin> set k \<Longrightarrow>
   contains (join_dq ps) (quoted k) \<longleftrightarrow> k \<in> set (butlast (tl ps))"
proof (induction ps rule: join_dq.induct)
  case (3 p q ps)
  show ?case
  proof (cases ps)
    case Nil
    then show ?thesis using 3(2,3) contains_quoted_last [of p q k] by simp
  next
    case (Cons r rs)
    then show ?thesis using 3 contains_quoted_cons [of p q k "join_dq (r # rs)"] by auto
  qed
qed (auto simp: contains_sublist quoted_def sublist_absent)

section \<open>Character classes, decimal and hexadecimal conversions\<close>

definition isspace :: "char \<Rightarrow> bool" where
  "isspace c \<longleftrightarrow> c \<in> {CHR '' '', TAB, LF, CHR 0x0B, CHR 0x0C, CR}"

definition isdigit :: "char \<Rightarrow> bool" where
  "isdigit c \<longleftrightarrow> 48 \<le> (of_char c :: nat) \<and> (of_char c :: nat) \<le> 57"

definition digit_of :: "nat \<Rightarrow> char" where
  "digit_of d = char_of (48 + d)"

definition digit_val :: "char \<Rightarrow> nat" where
  "digit_val c = of_char c - 48"

text \<open>\<open>%d\<close> of a non-negative number.\<close>

fun dec_nat :: "nat \<Rightarrow> string" where
  "dec_nat n = (if n < 10 then [digit_of n] else dec_nat (n div 10) @ [digit_of (n mod 10)])"

declare dec_nat.simps [simp del]

definition dec_int :: "int \<Rightarrow> string" where
  "dec_int i = (if i < 0 then CHR ''-'' # dec_nat (nat (- i)) else dec_nat (nat i))"

definition nat_of_digits :: "string \<Rightarrow> nat" where
  "nat_of_digits s = foldl (\<lambda>a c. 10 * a + digit_val c) 0 s"

lemma digit_of_props:
  assumes "d < 10"
  shows "isdigit (digit_of d)" "digit_val (digit_of d) = d" "of_char (digit_of d) = 48 + d"
  using assms by (simp_all add: isdigit_def digit_of_def digit_val_def)

lemma dec_nat_digits: "c \<in> set (dec_nat n) \<Longrightarrow> isdigit c"
proof (induction n rule: dec_nat.induct)
  case (1 n)
  then show ?case
    by (subst (asm) dec_nat.simps) (auto simp: digit_of_props split: if_splits)
qed

lemma dec_nat_not_Nil [simp]: "dec_nat n \<noteq> []"
  by (subst dec_nat.simps) simp

lemma nat_of_digits_dec_nat: "nat_of_digits (dec_nat n) = n"
proof (induction n rule: dec_nat.induct)
  case (1 n)
  then show ?case
    by (subst dec_nat.simps) (auto simp: nat_of_digits_def digit_of_props)
qed

text \<open>\<open>%0kx\<close> of a number below \<open>16 ^ k\<close>.\<close>

definition hex_digit :: "nat \<Rightarrow> char" where
  "hex_digit d = (if d < 10 then digit_of d else char_of (87 + d))"

fun hex_pad :: "nat \<Rightarrow> nat \<Rightarrow> string" where
  "hex_pad 0 n = []"
| "hex_pad (Suc k) n = hex_pad k (n div 16) @ [hex_digit (n mod 16)]"

lemma of_char_hex_digit: "d < 16 \<Longrightarrow> of_char (hex_digit d) = (if d < 10 then 48 + d else 87 + d)"
  by (simp add: hex_digit_def digit_of_def)

lemma hex_digit_inj: "d < 16 \<Longrightarrow> e < 16 \<Longrightarrow> hex_digit d = hex_digit e \<longleftrightarrow> d = e"
  by (auto dest!: arg_cong [where f = "of_char :: char \<Rightarrow> nat"] simp: of_char_hex_digit split: if_splits)

lemma length_hex_pad [simp]: "length (hex_pad k n) = k"
  by (induction k arbitrary: n) auto

lemma hex_pad_inj: "m < 16 ^ k \<Longrightarrow> n < 16 ^ k \<Longrightarrow> hex_pad k m = hex_pad k n \<longleftrightarrow> m = n"
proof (induction k arbitrary: m n)
  case 0
  then show ?case by simp
next
  case (Suc k)
  then have "m div 16 < 16 ^ k" "n div 16 < 16 ^ k" by (simp_all add: less_mult_imp_div_less mult.commute)
  then have "hex_pad (Suc k) m = hex_pad (Suc k) n \<longleftrightarrow> m div 16 = n div 16 \<and> m mod 16 = n mod 16"
    using Suc.IH by (simp add: hex_digit_inj)
  also have "\<dots> \<longleftrightarrow> m = n" by (metis div_mult_mod_eq)
  finally show ?case .
qed

section \<open>\<open>sscanf\<close>\<close>

datatype directive = Space | Lit char | NotIn char | DecInt

datatype scanned = SStr string | SInt int

fun parse_fmt :: "string \<Rightarrow> directive list" where
  "parse_fmt [] = []"
| "parse_fmt (c # r) =
     (if c = CHR ''%'' then
        (case r of
           [] \<Rightarrow> []
         | d # r1 \<Rightarrow>
             if d = CHR ''d'' then DecInt # parse_fmt r1
             else (case r1 of caret # x # close # r2 \<Rightarrow> NotIn x # parse_fmt r2 | _ \<Rightarrow> []))
      else if isspace c then Space # parse_fmt r
      else Lit c # parse_fmt r)"

text \<open>An optionally signed decimal number after white space; the rest of the input follows.\<close>

definition scan_int :: "string \<Rightarrow> (int \<times> string) option" where
  "scan_int s =
     (let s1 = dropWhile isspace s;
          neg = (case s1 of [] \<Rightarrow> False | c # _ \<Rightarrow> c = CHR ''-'');
          s2 = (case s1 of [] \<Rightarrow> [] | c # r \<Rightarrow> if c = CHR ''-'' \<or> c = CHR ''+'' then r else s1);
          ds = takeWhile isdigit s2
      in if ds = [] then None
         else Some ((if neg then - int (nat_of_digits ds) else int (nat_of_digits ds)),
                    dropWhile isdigit s2))"

text \<open>The conversions that are assigned, in order; scanning stops at the first mismatch.\<close>

fun scan :: "directive list \<Rightarrow> string \<Rightarrow> scanned list" where
  "scan [] s = []"
| "scan (Space # ds) s = scan ds (dropWhile isspace s)"
| "scan (Lit c # ds) s = (case s of [] \<Rightarrow> [] | x # xs \<Rightarrow> if x = c then scan ds xs else [])"
| "scan (NotIn c # ds) s =
     (let t = takeWhile (\<lambda>x. x \<noteq> c) s
      in if t = [] then [] else SStr t # scan ds (dropWhile (\<lambda>x. x \<noteq> c) s))"
| "scan (DecInt # ds) s =
     (case scan_int s of None \<Rightarrow> [] | Some (n, r) \<Rightarrow> SInt n # scan ds r)"

definition sscanf :: "string \<Rightarrow> string \<Rightarrow> scanned list" where
  "sscanf s fmt = scan (parse_fmt fmt) s"

text \<open>
  The assignment of the first conversion: \<open>%[^c]\<close> has no width, so it overflows the array when the
  text is too long; a \<open>%d\<close> whose value does not fit an \<open>int\<close> is undefined; without a
  match the target keeps its bytes.
\<close>

definition scan_str_into :: "scanned list \<Rightarrow> buf \<Rightarrow> buf option" where
  "scan_str_into r b = (case r of SStr t # _ \<Rightarrow> strcpy b t | _ \<Rightarrow> Some b)"

definition fits_int :: "int \<Rightarrow> bool" where
  "fits_int n \<longleftrightarrow> - (2 ^ 31) \<le> n \<and> n < 2 ^ 31"

definition scan_int_into :: "scanned list \<Rightarrow> int \<Rightarrow> int option" where
  "scan_int_into r old =
     (case r of SInt n # _ \<Rightarrow> if fits_int n then Some n else None | _ \<Rightarrow> Some old)"

section \<open>\<open>strtok\<close>\<close>

text \<open>
  One call on the C string at the start pointer (the argument, or the saved pointer when the argument is
  null): the token and the C string the saved pointer designates afterwards.
\<close>

definition strtok :: "string \<Rightarrow> string \<Rightarrow> string option \<times> string" where
  "strtok s delims =
     (let s1 = dropWhile (\<lambda>c. c \<in> set delims) s
      in if s1 = [] then (None, [])
         else (Some (takeWhile (\<lambda>c. c \<notin> set delims) s1),
               drop 1 (dropWhile (\<lambda>c. c \<notin> set delims) s1)))"

section \<open>\<open>fgets\<close>\<close>

text \<open>The successive contents of \<open>line\<close> in \<open>while (fgets(line, n, fp))\<close>: up to and
  including a newline, at most \<open>n - 1\<close> bytes.\<close>

definition line_length :: "string \<Rightarrow> nat" where
  "line_length s = length (takeWhile (\<lambda>c. c \<noteq> LF) s) + (if LF \<in> set s then 1 else 0)"

function fgets_lines :: "nat \<Rightarrow> string \<Rightarrow> string list" where
  "fgets_lines n s =
     (if s = [] \<or> n < 2 then []
      else let k = min (n - 1) (line_length s) in take k s # fgets_lines n (drop k s))"
  by pat_completeness auto

lemma line_length_pos: "s \<noteq> [] \<Longrightarrow> 0 < line_length s"
  by (cases s) (auto simp: line_length_def)

termination fgets_lines
  by (relation "measure (\<lambda>(n, s). length s)") (auto simp: line_length_pos)

declare fgets_lines.simps [simp del]

text \<open>The C string in \<open>line\<close>: the file may hold zero bytes.\<close>

definition c_line :: "string \<Rightarrow> string" where
  "c_line l = takeWhile (\<lambda>c. c \<noteq> NUL) l"

subsection \<open>Facts about the scanning functions\<close>

lemma strtok_Some:
  assumes "strtok s d = (Some t, r)"
  shows "t \<noteq> []" "set t \<subseteq> set s" "set r \<subseteq> set s" "\<And>c. c \<in> set t \<Longrightarrow> c \<notin> set d"
proof -
  define s1 where "s1 = dropWhile (\<lambda>c. c \<in> set d) s"
  have ne: "s1 \<noteq> []" and t: "t = takeWhile (\<lambda>c. c \<notin> set d) s1"
    and r: "r = drop 1 (dropWhile (\<lambda>c. c \<notin> set d) s1)"
    using assms by (auto simp: strtok_def s1_def Let_def split: if_splits)
  have "hd s1 \<notin> set d" using ne hd_dropWhile [of "\<lambda>c. c \<in> set d" s] by (auto simp: s1_def)
  then show "t \<noteq> []" using ne by (cases s1) (auto simp: t)
  have "set s1 \<subseteq> set s" by (auto simp: s1_def dest: set_dropWhileD)
  then show "set t \<subseteq> set s" "set r \<subseteq> set s"
    by (auto simp: t r dest: set_takeWhileD in_set_dropD set_dropWhileD)
  show "\<And>c. c \<in> set t \<Longrightarrow> c \<notin> set d" by (auto simp: t dest: set_takeWhileD)
qed

lemma strtok_simple:
  assumes "t \<noteq> []" "\<And>c. c \<in> set t \<Longrightarrow> c \<notin> set d" "x \<in> set d"
  shows "strtok (t @ x # r) d = (Some t, r)"
proof -
  have "dropWhile (\<lambda>c. c \<in> set d) (t @ x # r) = t @ x # r"
    using assms(1,2) by (cases t) auto
  moreover have "takeWhile (\<lambda>c. c \<notin> set d) (t @ x # r) = t"
    using assms(2,3) by (auto intro: takeWhile_stop)
  moreover have "dropWhile (\<lambda>c. c \<notin> set d) (t @ x # r) = x # r"
    using assms(2,3) by (auto intro: dropWhile_stop)
  ultimately show ?thesis using assms(1) by (simp add: strtok_def Let_def)
qed

lemma strtok_last:
  assumes "t \<noteq> []" "\<And>c. c \<in> set t \<Longrightarrow> c \<notin> set d"
  shows "strtok t d = (Some t, [])"
proof -
  have "dropWhile (\<lambda>c. c \<in> set d) t = t" using assms by (cases t) auto
  moreover have "takeWhile (\<lambda>c. c \<notin> set d) t = t" using assms(2) by (auto simp: takeWhile_eq_all_conv)
  moreover have "dropWhile (\<lambda>c. c \<notin> set d) t = []" using assms(2) by (auto simp: dropWhile_eq_Nil_conv)
  ultimately show ?thesis using assms(1) by (simp add: strtok_def Let_def del: dropWhile_eq_Nil_conv)
qed

lemma strtok_Nil [simp]: "strtok [] d = (None, [])"
  by (simp add: strtok_def)

lemma fgets_lines_Nil [simp]: "fgets_lines n [] = []"
  by (simp add: fgets_lines.simps)

lemma fgets_lines_concat: "2 \<le> n \<Longrightarrow> concat (fgets_lines n s) = s"
proof (induction n s rule: fgets_lines.induct)
  case (1 n s)
  then show ?case by (cases "s = []") (auto simp: fgets_lines.simps [of n s] Let_def)
qed

lemma fgets_lines_bound: "l \<in> set (fgets_lines n s) \<Longrightarrow> length l < n \<and> l \<noteq> []"
proof (induction n s rule: fgets_lines.induct)
  case (1 n s)
  show ?case
  proof (cases "s = [] \<or> n < 2")
    case True
    then show ?thesis using "1.prems" by (simp add: fgets_lines.simps)
  next
    case False
    define k where "k = min (n - 1) (line_length s)"
    have k: "0 < k" "k < n" using False line_length_pos [of s] by (auto simp: k_def)
    from "1.prems" False consider "l = take k s" | "l \<in> set (fgets_lines n (drop k s))"
      by (subst (asm) fgets_lines.simps) (auto simp: k_def Let_def)
    then show ?thesis
    proof cases
      case 1
      then show ?thesis using False k by (simp add: min_def)
    next
      case 2
      then show ?thesis using "1.IH" [OF False k_def] by blast
    qed
  qed
qed

text \<open>A short line that ends in the only newline it holds is read as it is.\<close>

lemma fgets_lines_step [scan_simps]:
  assumes "LF \<notin> set l" and "length l + 2 \<le> n"
  shows "fgets_lines n (l @ LF # r) = (l @ [LF]) # fgets_lines n r"
proof -
  have "line_length (l @ LF # r) = Suc (length l)"
    using assms(1) by (simp add: line_length_def)
  moreover have "take (Suc (length l)) (l @ LF # r) = l @ [LF]" "drop (Suc (length l)) (l @ LF # r) = r"
    by simp_all
  moreover have "min (n - 1) (Suc (length l)) = Suc (length l)" using assms(2) by simp
  ultimately show ?thesis
    using assms(2) by (subst fgets_lines.simps) (simp add: Let_def del: take_append drop_append)
qed

lemma parse_fmt_lits [scan_simps]:
  "\<forall>c \<in> set k. c \<noteq> CHR ''%'' \<and> \<not> isspace c \<Longrightarrow> parse_fmt (k @ r) = map Lit k @ parse_fmt r"
  by (induction k) auto

lemma scan_lits [scan_simps]: "scan (map Lit k @ ds) (k @ s) = scan ds s"
  by (induction k) auto

lemma scan_int_dec_nat:
  assumes "r = [] \<or> \<not> isdigit (hd r)"
  shows "scan_int (dec_nat n @ r) = Some (int n, r)"
proof -
  obtain c cs where d: "dec_nat n = c # cs" by (cases "dec_nat n") auto
  then have "isdigit c" using dec_nat_digits [of c n] by simp
  then have c: "\<not> isspace c" "c \<noteq> CHR ''-''" "c \<noteq> CHR ''+''"
    by (auto simp: isdigit_def isspace_def)
  have "takeWhile isdigit (dec_nat n @ r) = dec_nat n" "dropWhile isdigit (dec_nat n @ r) = r"
    using assms dec_nat_digits [of _ n] by (cases r; auto)+
  then show ?thesis using c d by (simp add: scan_int_def nat_of_digits_dec_nat [of n, unfolded d])
qed

lemma scan_int_dec_int [scan_simps]:
  assumes "r = [] \<or> \<not> isdigit (hd r)"
  shows "scan_int (dec_int n @ r) = Some (n, r)"
proof (cases "n < 0")
  case False
  then show ?thesis using scan_int_dec_nat [OF assms, of "nat n"] by (simp add: dec_int_def)
next
  case True
  let ?m = "nat (- n)"
  have "takeWhile isdigit (dec_nat ?m @ r) = dec_nat ?m" "dropWhile isdigit (dec_nat ?m @ r) = r"
    using assms dec_nat_digits [of _ ?m] by (cases r; auto)+
  then show ?thesis using True
    by (simp add: dec_int_def scan_int_def isspace_def nat_of_digits_dec_nat)
qed

section \<open>Line-oriented records\<close>

text \<open>
  Both metadata files of the program are written as lines \<open>"key": "value"\<close> by one \<open>fprintf\<close>
  each, and read back by a loop that looks for a quoted key in each line and scans the value. The line
  shapes and the two format strings are shared.
\<close>

definition str_line :: "string \<Rightarrow> string \<Rightarrow> string" where
  "str_line k v = ''  \"'' @ k @ ''\": \"'' @ v @ ''\",''"

definition int_line :: "string \<Rightarrow> int \<Rightarrow> string" where
  "int_line k n = ''  \"'' @ k @ ''\": '' @ dec_int n @ '',''"

definition str_fmt :: "string \<Rightarrow> string" where
  "str_fmt k = ''  \"'' @ k @ ''\": \"%[^\"]\"''"

definition int_fmt :: "string \<Rightarrow> string" where
  "int_fmt k = ''  \"'' @ k @ ''\": %d''"

text \<open>The text of a file written line by line.\<close>

definition file_text :: "string list \<Rightarrow> string" where
  "file_text ls = concat (map (\<lambda>l. l @ [LF]) ls)"

text \<open>The reading loop: the body on the C string of each line.\<close>

fun each_line :: "('s \<Rightarrow> string \<Rightarrow> 's option) \<Rightarrow> 's \<Rightarrow> string list \<Rightarrow> 's option" where
  "each_line body s [] = Some s"
| "each_line body s (l # ls) = body s (c_line l) \<bind> (\<lambda>s'. each_line body s' ls)"

lemma each_line_append: "each_line body s (a @ b) = each_line body s a \<bind> (\<lambda>s'. each_line body s' b)"
  by (induction a arbitrary: s) simp_all

lemma each_line_skip: "\<forall>l \<in> set ls. body s (c_line l) = Some s \<Longrightarrow> each_line body s ls = Some s"
  by (induction ls) simp_all

text \<open>A value that survives the file: no quote, newline or terminator.\<close>

definition clean :: "string \<Rightarrow> bool" where
  "clean v \<longleftrightarrow> no_nul v \<and> DQ \<notin> set v \<and> LF \<notin> set v"

text \<open>A key as the source uses them.\<close>

definition plain_key :: "string \<Rightarrow> bool" where
  "plain_key k \<longleftrightarrow> (\<forall>c \<in> set k. c \<noteq> CHR ''%'' \<and> \<not> isspace c \<and> c \<noteq> DQ \<and> c \<noteq> NUL)"

lemma plain_key_facts:
  assumes "plain_key k"
  shows "DQ \<notin> set k" "LF \<notin> set k" "no_nul k" "\<forall>c \<in> set k. c \<noteq> CHR ''%'' \<and> \<not> isspace c"
  using assms by (auto simp: plain_key_def no_nul_def isspace_def)

lemma fgets_lines_file_text:
  "\<forall>l \<in> set ls. LF \<notin> set l \<and> length l + 2 \<le> n \<Longrightarrow> fgets_lines n (file_text ls) = map (\<lambda>l. l @ [LF]) ls"
  by (induction ls) (auto simp: file_text_def fgets_lines_step)

lemma dec_int_chars: "c \<in> set (dec_int n) \<Longrightarrow> isdigit c \<or> c = CHR ''-''"
  by (auto simp: dec_int_def dest: dec_nat_digits split: if_splits)

lemma dec_int_clean [simp]: "no_nul (dec_int n)" "DQ \<notin> set (dec_int n)" "LF \<notin> set (dec_int n)"
  by (auto simp: no_nul_def isdigit_def dest!: dec_int_chars)

text \<open>Which quoted keys a line holds.\<close>

lemma contains_str_line [scan_simps]:
  assumes "plain_key k" "clean v" "DQ \<notin> set q"
  shows "contains (str_line k v @ [LF]) (quoted q) \<longleftrightarrow> q = k \<or> q = '': '' \<or> q = v"
proof -
  have l: "str_line k v @ [LF] = ''  '' @ DQ # k @ DQ # '': '' @ DQ # v @ DQ # '','' @ [LF]"
    by (simp add: str_line_def)
  have q: "DQ \<notin> set ''  ''" "DQ \<notin> set k" "DQ \<notin> set '': ''" "DQ \<notin> set v" "DQ \<notin> set ('','' @ [LF])"
    using assms(2) plain_key_facts(1) [OF assms(1)] by (simp_all add: clean_def)
  show ?thesis
    unfolding l contains_quoted_cons [OF q(1,2) assms(3)] contains_quoted_cons [OF q(2,3) assms(3)]
      contains_quoted_cons [OF q(3,4) assms(3)]
    using contains_quoted_last [OF q(4,5) assms(3)] by blast
qed

lemma contains_int_line [scan_simps]:
  assumes "plain_key k" "DQ \<notin> set q"
  shows "contains (int_line k n @ [LF]) (quoted q) \<longleftrightarrow> q = k"
proof -
  have l: "int_line k n @ [LF] = ''  '' @ DQ # k @ DQ # '': '' @ dec_int n @ '','' @ [LF]"
    by (simp add: int_line_def)
  have q: "DQ \<notin> set ''  ''" "DQ \<notin> set k" "DQ \<notin> set ('': '' @ dec_int n @ '','' @ [LF])"
    using plain_key_facts(1) [OF assms(1)] by simp_all
  show ?thesis
    unfolding l contains_quoted_cons [OF q(1,2) assms(2)]
    using contains_quoted_last [OF q(2,3) assms(2)] by blast
qed

lemma scan_str_line [scan_simps]:
  assumes "plain_key k" "clean v" "v \<noteq> []"
  shows "sscanf (str_line k v @ [LF]) (str_fmt k) = [SStr v]"
proof -
  have p: "parse_fmt (str_fmt k) = [Space, Space, Lit DQ] @ map Lit k @ [Lit DQ, Lit (CHR '':''), Space, Lit DQ, NotIn DQ, Lit DQ]"
    using parse_fmt_lits [OF plain_key_facts(4) [OF assms(1)], of "''\": \"%[^\"]\"''"]
    by (simp add: str_fmt_def isspace_def)
  have "sscanf (str_line k v @ [LF]) (str_fmt k) =
      scan (map Lit k @ [Lit DQ, Lit (CHR '':''), Space, Lit DQ, NotIn DQ, Lit DQ]) (k @ ''\": \"'' @ v @ ''\",'' @ [LF])"
    by (simp add: sscanf_def p str_line_def isspace_def)
  then show ?thesis using assms(2,3) by (simp add: scan_lits isspace_def clean_def Let_def)
qed

lemma scan_int_line [scan_simps]:
  assumes "plain_key k"
  shows "sscanf (int_line k n @ [LF]) (int_fmt k) = [SInt n]"
proof -
  have p: "parse_fmt (int_fmt k) = [Space, Space, Lit DQ] @ map Lit k @ [Lit DQ, Lit (CHR '':''), Space, DecInt]"
    using parse_fmt_lits [OF plain_key_facts(4) [OF assms(1)], of "''\": %d''"]
    by (simp add: int_fmt_def isspace_def)
  obtain c cs where d: "dec_int n = c # cs" by (cases "dec_int n") (auto simp: dec_int_def split: if_splits)
  then have "\<not> isspace c" using dec_int_chars [of c n] by (auto simp: isspace_def isdigit_def)
  then have "sscanf (int_line k n @ [LF]) (int_fmt k) = scan [DecInt] (dec_int n @ '','' @ [LF])"
    by (simp add: sscanf_def p int_line_def isspace_def d scan_lits del: scan.simps(5))
  then show ?thesis using scan_int_dec_int [of "'','' @ [LF]" n] by (simp add: isdigit_def)
qed

lemma c_line_lines:
  "plain_key k \<Longrightarrow> clean v \<Longrightarrow> c_line (str_line k v @ [LF]) = str_line k v @ [LF]"
  "plain_key k \<Longrightarrow> c_line (int_line k n @ [LF]) = int_line k n @ [LF]"
  using plain_key_facts(3) [of k] dec_int_clean(1) [of n]
  by (auto simp: c_line_def str_line_def int_line_def clean_def no_nul_def takeWhile_eq_all_conv)

text \<open>
  The contract of a reading loop: its body looks only for quoted keys of a fixed list, so a line with
  none of them is skipped. Its client may then ignore every line the reader does not know.
\<close>

locale keyed_reader =
  fixes body :: "'s \<Rightarrow> string \<Rightarrow> 's option" and known :: "string list"
  assumes skip: "\<forall>k \<in> set known. \<not> contains l (quoted k) \<Longrightarrow> body s l = Some s"
    and known_plain: "\<forall>k \<in> set known. plain_key k"
begin

lemma skip_str_line:
  assumes "plain_key k" "clean v" "k \<notin> set known" "v \<notin> set known"
  shows "body s (str_line k v @ [LF]) = Some s"
proof (rule skip, rule ballI)
  fix q assume q: "q \<in> set known"
  then have p: "plain_key q" using known_plain by blast
  have "\<not> plain_key '': ''" by (simp add: plain_key_def isspace_def)
  then have "q \<noteq> k" "q \<noteq> '': ''" "q \<noteq> v" using p q assms(3,4) by blast+
  then show "\<not> contains (str_line k v @ [LF]) (quoted q)"
    using contains_str_line [OF assms(1,2) plain_key_facts(1) [OF p]] by blast
qed

lemma skip_int_line:
  assumes "plain_key k" "k \<notin> set known"
  shows "body s (int_line k n @ [LF]) = Some s"
proof (rule skip, rule ballI)
  fix q assume q: "q \<in> set known"
  then have p: "plain_key q" using known_plain by blast
  have "q \<noteq> k" using q assms(2) by blast
  then show "\<not> contains (int_line k n @ [LF]) (quoted q)"
    using contains_int_line [OF assms(1) plain_key_facts(1) [OF p]] by blast
qed

lemma skip_brace: "body s (''{'' @ [LF]) = Some s" "body s (''}'' @ [LF]) = Some s"
proof -
  have "\<not> contains l (quoted k)" if "DQ \<notin> set l" for l k :: string
    unfolding contains_sublist quoted_def using that by (rule sublist_absent)
  then show "body s (''{'' @ [LF]) = Some s" "body s (''}'' @ [LF]) = Some s"
    by (auto intro!: skip)
qed

end

end
