(* ===== verification/OS.thy ===== *)
theory OS imports CString begin

text \<open>
  The operating system as the program sees it through POSIX calls. What the kernel, the shell and the
  other processes decide is a parameter, the record \<open>os\<close>; what the program changes is the
  state, the record \<open>world\<close>: the files it sees, its unreaped children, the signals it sent, and
  how often it asked the clock, the allocator and \<open>clone\<close>.

  Files are an association list from path strings to nodes, in directory order. Paths are compared as
  strings, so the model speaks about paths without symbolic links and \<open>.\<close> or \<open>..\<close> parts.
\<close>

section \<open>State and environment\<close>

datatype node = Dir | File string

datatype errno = EEXIST | ENOENT | EACCES | ENOTEMPTY

type_synonym path = string
type_synonym fs = "(path \<times> node) list"

record os =
  deny :: "path \<Rightarrow> bool" \<comment> \<open>creating, changing or removing this path is refused\<close>
  deny_read :: "path \<Rightarrow> bool" \<comment> \<open>opening this path for reading is refused\<close>
  shell :: "string \<Rightarrow> fs \<Rightarrow> int \<times> fs" \<comment> \<open>what \<open>/bin/sh -c\<close> returns and does to the files\<close>
  pipe :: "string \<Rightarrow> fs \<Rightarrow> string option" \<comment> \<open>what a command run by \<open>popen\<close> prints; \<open>None\<close> when it fails to start\<close>
  clock :: "nat \<Rightarrow> 64 word" \<comment> \<open>what the n-th call of \<open>time\<close> returns\<close>
  alloc :: "nat \<Rightarrow> bool" \<comment> \<open>whether the n-th allocation succeeds\<close>
  spawn :: "nat \<Rightarrow> int" \<comment> \<open>what the n-th call of \<open>clone\<close> returns\<close>
  wait_status :: "int \<Rightarrow> 32 word" \<comment> \<open>the status with which a child ends\<close>
  foreign :: "int \<Rightarrow> bool" \<comment> \<open>a process that is not a child may be signalled\<close>

record world =
  files :: fs
  children :: "int list"
  signals :: "(int \<times> int) list"
  ticks :: nat
  allocs :: nat
  clones :: nat

definition lookup :: "world \<Rightarrow> path \<Rightarrow> node option" where
  "lookup w p = map_of (files w) p"

definition put :: "path \<Rightarrow> node \<Rightarrow> world \<Rightarrow> world" where
  "put p n w = w\<lparr>files := AList.update p n (files w)\<rparr>"

definition del :: "path \<Rightarrow> world \<Rightarrow> world" where
  "del p w = w\<lparr>files := filter (\<lambda>(q, v). q \<noteq> p) (files w)\<rparr>"

lemma lookup_put [fs_simps]: "lookup (put p n w) q = (if q = p then Some n else lookup w q)"
  by (simp add: lookup_def put_def update_conv)

lemma lookup_del [fs_simps]: "lookup (del p w) q = (if q = p then None else lookup w q)"
  by (simp add: lookup_def del_def map_of_filter_key)

lemma put_frame [frame_simps]:
  "children (put p n w) = children w" "signals (put p n w) = signals w" "ticks (put p n w) = ticks w"
  "allocs (put p n w) = allocs w" "clones (put p n w) = clones w"
  by (simp_all add: put_def)

section \<open>Files and directories\<close>

text \<open>The directory part of a path; empty for an entry of the root.\<close>

definition parent :: "path \<Rightarrow> path" where
  "parent p =
     (if CHR ''/'' \<in> set p then rev (drop 1 (dropWhile (\<lambda>c. c \<noteq> CHR ''/'') (rev p))) else ''.'')"

text \<open>The empty path names nothing.\<close>

definition parent_ok :: "world \<Rightarrow> path \<Rightarrow> bool" where
  "parent_ok w p \<longleftrightarrow> p \<noteq> [] \<and> (parent p = [] \<or> parent p = ''.'' \<or> lookup w (parent p) = Some Dir)"

definition under :: "path \<Rightarrow> path \<Rightarrow> bool" where
  "under d p \<longleftrightarrow> p = d \<or> prefix (d @ ''/'') p"

definition access_ok :: "path \<Rightarrow> world \<Rightarrow> bool" where
  "access_ok p w \<longleftrightarrow> lookup w p \<noteq> None"

text \<open>System calls return \<open>None\<close> for success, \<open>Some errno\<close> for failure.\<close>

definition mkdir :: "os \<Rightarrow> path \<Rightarrow> world \<Rightarrow> errno option \<times> world" where
  "mkdir os p w =
     (if lookup w p \<noteq> None then (Some EEXIST, w)
      else if \<not> parent_ok w p then (Some ENOENT, w)
      else if deny os p then (Some EACCES, w)
      else (None, put p Dir w))"

definition rmdir :: "os \<Rightarrow> path \<Rightarrow> world \<Rightarrow> errno option \<times> world" where
  "rmdir os p w =
     (if lookup w p \<noteq> Some Dir then (Some ENOENT, w)
      else if list_ex (\<lambda>(q, n). prefix (p @ ''/'') q) (files w) then (Some ENOTEMPTY, w)
      else if deny os p then (Some EACCES, w)
      else (None, del p w))"

definition unlink :: "os \<Rightarrow> path \<Rightarrow> world \<Rightarrow> errno option \<times> world" where
  "unlink os p w =
     (case lookup w p of
        None \<Rightarrow> (Some ENOENT, w)
      | Some Dir \<Rightarrow> (Some EACCES, w)
      | Some (File s) \<Rightarrow> if deny os p then (Some EACCES, w) else (None, del p w))"

text \<open>\<open>fopen\<close> for writing, the \<open>fprintf\<close> calls and \<open>fclose\<close>, as one step: whether
  the stream opened, and the file with its new text.\<close>

definition may_write :: "os \<Rightarrow> path \<Rightarrow> world \<Rightarrow> bool" where
  "may_write os p w \<longleftrightarrow>
     \<not> deny os p \<and> (case lookup w p of None \<Rightarrow> parent_ok w p | Some Dir \<Rightarrow> False | Some (File s) \<Rightarrow> True)"

definition write_file :: "os \<Rightarrow> path \<Rightarrow> string \<Rightarrow> world \<Rightarrow> bool \<times> world" where
  "write_file os p s w = (if may_write os p w then (True, put p (File s) w) else (False, w))"

definition append_file :: "os \<Rightarrow> path \<Rightarrow> string \<Rightarrow> world \<Rightarrow> bool \<times> world" where
  "append_file os p s w =
     (if may_write os p w
      then (True, put p (File ((case lookup w p of Some (File t) \<Rightarrow> t | _ \<Rightarrow> []) @ s)) w)
      else (False, w))"

text \<open>\<open>fopen\<close> for reading: \<open>None\<close> is a null stream. A directory opens but yields no line.\<close>

definition read_file :: "os \<Rightarrow> path \<Rightarrow> world \<Rightarrow> string option" where
  "read_file os p w =
     (if deny_read os p then None
      else case lookup w p of None \<Rightarrow> None | Some Dir \<Rightarrow> Some [] | Some (File s) \<Rightarrow> Some s)"

text \<open>\<open>opendir\<close> and the names \<open>readdir\<close> gives.\<close>

definition entries :: "fs \<Rightarrow> path \<Rightarrow> string list" where
  "entries f d =
     map (drop (length d + 1))
       (filter (\<lambda>p. prefix (d @ ''/'') p \<and> CHR ''/'' \<notin> set (drop (length d + 1) p)) (map fst f))"

definition read_dir :: "os \<Rightarrow> path \<Rightarrow> world \<Rightarrow> string list option" where
  "read_dir os d w =
     (if lookup w d = Some Dir \<and> \<not> deny_read os d then Some (''.'' # ''..'' # entries (files w) d)
      else None)"

section \<open>Clock, allocator, shell and processes\<close>

definition time_now :: "os \<Rightarrow> world \<Rightarrow> 64 word \<times> world" where
  "time_now os w = (clock os (ticks w), w\<lparr>ticks := Suc (ticks w)\<rparr>)"

definition malloc :: "os \<Rightarrow> world \<Rightarrow> bool \<times> world" where
  "malloc os w = (alloc os (allocs w), w\<lparr>allocs := Suc (allocs w)\<rparr>)"

definition system :: "os \<Rightarrow> string \<Rightarrow> world \<Rightarrow> int \<times> world" where
  "system os cmd w = (let (r, f) = shell os cmd (files w) in (r, w\<lparr>files := f\<rparr>))"

definition clone :: "os \<Rightarrow> world \<Rightarrow> int \<times> world" where
  "clone os w =
     (let pid = spawn os (clones w)
      in (pid, w\<lparr>clones := Suc (clones w),
                 children := (if pid = - 1 then children w else pid # children w)\<rparr>))"

text \<open>
  \<open>kill\<close> and \<open>waitpid\<close> on one process. The process-group forms (\<open>pid \<le> 0\<close>) are outside the
  model and give no result.
\<close>

definition kill :: "os \<Rightarrow> int \<Rightarrow> int \<Rightarrow> world \<Rightarrow> (int \<times> world) option" where
  "kill os pid sig w =
     (if pid \<le> 0 then None
      else if pid \<in> set (children w) \<or> foreign os pid
           then Some (0, w\<lparr>signals := signals w @ [(pid, sig)]\<rparr>)
           else Some (- 1, w))"

definition waitpid :: "os \<Rightarrow> int \<Rightarrow> world \<Rightarrow> (32 word option \<times> world) option" where
  "waitpid os pid w =
     (if pid \<le> 0 then None
      else if pid \<in> set (children w)
           then Some (Some (wait_status os pid), w\<lparr>children := filter (\<lambda>c. c \<noteq> pid) (children w)\<rparr>)
           else Some (None, w))"

definition SIGKILL :: int where "SIGKILL = 9"
definition SIGTERM :: int where "SIGTERM = 15"

definition wexitstatus :: "32 word \<Rightarrow> int" where
  "wexitstatus st = uint (drop_bit 8 (and st 0xFF00))"

section \<open>Facts\<close>

lemma lookup_upd [fs_simps]:
  "lookup (w\<lparr>ticks := a\<rparr>) p = lookup w p" "lookup (w\<lparr>allocs := b\<rparr>) p = lookup w p"
  "lookup (w\<lparr>clones := b\<rparr>) p = lookup w p" "lookup (w\<lparr>children := c\<rparr>) p = lookup w p"
  "lookup (w\<lparr>signals := d\<rparr>) p = lookup w p"
  by (simp_all add: lookup_def)

lemma may_write_upd [fs_simps]:
  "may_write os p (w\<lparr>ticks := a\<rparr>) = may_write os p w" "may_write os p (w\<lparr>allocs := b\<rparr>) = may_write os p w"
  by (simp_all add: may_write_def parent_ok_def lookup_upd cong: option.case_cong)

lemma parent_append [simp]: "CHR ''/'' \<notin> set b \<Longrightarrow> parent (a @ CHR ''/'' # b) = a"
  using dropWhile_neq_stop [of "CHR ''/''" "rev b" "rev a"] by (simp add: parent_def del: dropWhile_neq_stop)

lemma mkdir_cases:
  obtains "mkdir os p w = (Some EEXIST, w)" "lookup w p \<noteq> None"
  | e where "mkdir os p w = (Some e, w)" "e \<noteq> EEXIST" "lookup w p = None"
  | "mkdir os p w = (None, put p Dir w)" "lookup w p = None" "parent_ok w p" "\<not> deny os p"
  by (cases "lookup w p = None"; cases "parent_ok w p"; cases "deny os p") (auto simp: mkdir_def)

lemma mkdir_frame: "mkdir os p w = (r, w') \<Longrightarrow> q \<noteq> p \<Longrightarrow> lookup w' q = lookup w q"
  by (auto simp: mkdir_def fs_simps split: if_splits)

lemma write_file_frame: "write_file os p s w = (r, w') \<Longrightarrow> q \<noteq> p \<Longrightarrow> lookup w' q = lookup w q"
  by (auto simp: write_file_def fs_simps split: if_splits)

lemma write_file_lookup: "write_file os p s w = (True, w') \<Longrightarrow> lookup w' p = Some (File s)"
  by (auto simp: write_file_def fs_simps split: if_splits)

lemma append_file_frame: "append_file os p s w = (r, w') \<Longrightarrow> q \<noteq> p \<Longrightarrow> lookup w' q = lookup w q"
  by (auto simp: append_file_def fs_simps split: if_splits)

lemma unlink_frame: "unlink os p w = (r, w') \<Longrightarrow> q \<noteq> p \<Longrightarrow> lookup w' q = lookup w q"
  by (auto simp: unlink_def fs_simps split: if_splits option.splits node.splits)

lemma wexitstatus_range: "0 \<le> wexitstatus st \<and> wexitstatus st < 256"
proof -
  have "uint (and st 0xFF00) \<le> 0xFF00" by (simp add: uint_and)
  then have "uint (and st 0xFF00) div 256 \<le> 255" by simp
  then show ?thesis by (simp add: wexitstatus_def drop_bit_eq_div uint_div pos_imp_zdiv_nonneg_iff)
qed

section \<open>Stores with one file per key\<close>

text \<open>
  The contract of a metadata directory: a key's file is \<open>dir/key.json\<close>. Its clients rely on what
  follows from the shape of the path: different keys have different files, and writing one key's file
  leaves the others as they were.
\<close>

locale keyed_files =
  fixes path_of :: "string \<Rightarrow> path" and dir :: path and ok :: "string \<Rightarrow> bool"
  assumes path_shape: "ok k \<Longrightarrow> path_of k = dir @ ''/'' @ k @ ''.json''"
begin

lemma path_inj: "ok k \<Longrightarrow> ok k' \<Longrightarrow> path_of k = path_of k' \<longleftrightarrow> k = k'"
  by (simp add: path_shape)

lemma path_under: "ok k \<Longrightarrow> under dir (path_of k)"
  by (simp add: path_shape under_def)

lemma path_parent: "ok k \<Longrightarrow> CHR ''/'' \<notin> set k \<Longrightarrow> parent (path_of k) = dir"
  using parent_append [of "k @ ''.json''" dir] by (simp add: path_shape)

lemma write_other:
  assumes "ok k" "ok k'" "k \<noteq> k'" "write_file os (path_of k) s w = (r, w')"
  shows "lookup w' (path_of k') = lookup w (path_of k')"
  using write_file_frame [OF assms(4)] path_inj [OF assms(1,2)] assms(3) by metis

lemma put_read:
  assumes "ok k" "write_file os (path_of k) s w = (True, w')" "\<not> deny_read os (path_of k)"
  shows "read_file os (path_of k) w' = Some s"
  using write_file_lookup [OF assms(2)] assms(3) by (simp add: read_file_def)

end

section \<open>The shell's \<open>rm -rf\<close>\<close>

fun unwords :: "string list \<Rightarrow> string" where
  "unwords [] = []"
| "unwords [p] = p"
| "unwords (p # q # ps) = p @ '' '' @ unwords (q # ps)"

text \<open>An absolute path that the shell reads as one word, with no dot components.\<close>

definition word_char :: "char \<Rightarrow> bool" where
  "word_char c \<longleftrightarrow>
     (let n = (of_char c :: nat)
      in 48 \<le> n \<and> n \<le> 57 \<or> 65 \<le> n \<and> n \<le> 90 \<or> 97 \<le> n \<and> n \<le> 122 \<or>
         c \<in> {CHR ''/'', CHR ''.'', CHR ''_'', CHR ''-'', CHR '':''})"

definition plain_path :: "path \<Rightarrow> bool" where
  "plain_path p \<longleftrightarrow>
     prefix ''/'' p \<and> p \<noteq> ''/'' \<and> (\<forall>c \<in> set p. word_char c) \<and> \<not> contains p ''/.'' \<and> \<not> contains p ''//''"

text \<open>
  The documented behaviour the program relies on: on such paths \<open>rm -rf\<close> succeeds and removes each
  path with everything below it, and nothing else.
\<close>

definition rm_rf :: "(string \<Rightarrow> fs \<Rightarrow> int \<times> fs) \<Rightarrow> bool" where
  "rm_rf sh \<longleftrightarrow>
     (\<forall>ps f. ps \<noteq> [] \<and> (\<forall>p \<in> set ps. plain_path p) \<longrightarrow>
        sh (''rm -rf '' @ unwords ps) f = (0, filter (\<lambda>(q, n). \<not> list_ex (\<lambda>p. under p q) ps) f))"

lemma system_rm:
  assumes "rm_rf (shell os)" "ps \<noteq> []" "\<forall>p \<in> set ps. plain_path p"
  obtains w' where "system os (''rm -rf '' @ unwords ps) w = (0, w')"
    "\<And>q. lookup w' q = (if list_ex (\<lambda>p. under p q) ps then None else lookup w q)"
    "children w' = children w" "signals w' = signals w" "clones w' = clones w"
proof -
  have "shell os (''rm -rf '' @ unwords ps) (files w) =
      (0, filter (\<lambda>(q, n). \<not> list_ex (\<lambda>p. under p q) ps) (files w))"
    using assms by (simp add: rm_rf_def)
  then show thesis
    by (intro that [of "w\<lparr>files := filter (\<lambda>(q, n). \<not> list_ex (\<lambda>p. under p q) ps) (files w)\<rparr>"])
      (auto simp: system_def lookup_def map_of_filter_key)
qed

text \<open>A shell that knows this command only; it shows that the behaviour can be met.\<close>

fun split_words :: "string \<Rightarrow> string list" where
  "split_words [] = [[]]"
| "split_words (c # s) =
     (if c = CHR '' '' then [] # split_words s
      else case split_words s of [] \<Rightarrow> [[c]] | p # ps \<Rightarrow> (c # p) # ps)"

definition rm_shell :: "string \<Rightarrow> fs \<Rightarrow> int \<times> fs" where
  "rm_shell cmd f =
     (if prefix ''rm -rf '' cmd
      then (0, filter (\<lambda>(q, n). \<not> list_ex (\<lambda>p. under p q) (split_words (drop 7 cmd))) f)
      else (127, f))"

lemma split_words_word: "CHR '' '' \<notin> set p \<Longrightarrow> split_words p = [p]"
  by (induction p) auto

lemma split_words_cons: "CHR '' '' \<notin> set p \<Longrightarrow> split_words (p @ CHR '' '' # s) = p # split_words s"
  by (induction p) auto

lemma split_words_unwords: "ps \<noteq> [] \<Longrightarrow> \<forall>p \<in> set ps. CHR '' '' \<notin> set p \<Longrightarrow> split_words (unwords ps) = ps"
  by (induction ps rule: unwords.induct) (auto simp: split_words_word split_words_cons)

lemma plain_path_no_space: "plain_path p \<Longrightarrow> CHR '' '' \<notin> set p"
  by (auto simp: plain_path_def word_char_def Let_def)

lemma rm_rf_rm_shell: "rm_rf rm_shell"
  unfolding rm_rf_def
proof (intro allI impI)
  fix ps f assume ps: "ps \<noteq> [] \<and> (\<forall>p \<in> set ps. plain_path p)"
  then have "split_words (unwords ps) = ps"
    by (intro split_words_unwords) (auto dest: plain_path_no_space)
  then show "rm_shell (''rm -rf '' @ unwords ps) f = (0, filter (\<lambda>(q, n). \<not> list_ex (\<lambda>p. under p q) ps) f)"
    by (simp add: rm_shell_def)
qed

section \<open>A concrete environment\<close>

text \<open>Used by the concrete instances: nothing is refused, only \<open>/tmp\<close> exists.\<close>

definition calm_os :: os where
  "calm_os = \<lparr>deny = (\<lambda>p. False), deny_read = (\<lambda>p. False), shell = rm_shell, pipe = (\<lambda>c f. None), clock = (\<lambda>n. 0),
     alloc = (\<lambda>n. True), spawn = (\<lambda>n. 100 + int n), wait_status = (\<lambda>p. 0), foreign = (\<lambda>p. False)\<rparr>"

definition empty_world :: world where
  "empty_world = \<lparr>files = [(''/tmp'', Dir)], children = [], signals = [], ticks = 0, allocs = 0, clones = 0\<rparr>"

end
