(* ===== verification/CliParser.thy ===== *)
theory CliParser imports OS begin

text \<open>
  The command line of the client, \<open>core/cli-parser.c\<close>: the command names, the record
  \<open>parsed_command_t\<close> with its char arrays at their declared sizes, the option loops of
  \<open>run\<close>, \<open>build\<close>, the container commands and \<open>commit\<close>, and the validation that
  \<open>main\<close> does before it talks to the daemon. \<open>argv\<close> is the list of its strings; the loop
  index \<open>i\<close> becomes the suffix of \<open>argv\<close> still to be read.
\<close>

section \<open>Commands\<close>

datatype command_type = CMD_UNKNOWN | CMD_RUN | CMD_BUILD | CMD_IMAGES | CMD_CONTAINERS | CMD_STOP
  | CMD_RM | CMD_RMI | CMD_PS | CMD_LOGS | CMD_EXEC | CMD_COMMIT | CMD_DAEMON

definition get_command_type :: "string \<Rightarrow> command_type" where
  "get_command_type cmd =
     (if cmd = ''run'' then CMD_RUN
      else if cmd = ''build'' then CMD_BUILD
      else if cmd = ''images'' then CMD_IMAGES
      else if cmd = ''containers'' then CMD_CONTAINERS
      else if cmd = ''stop'' then CMD_STOP
      else if cmd = ''rm'' then CMD_RM
      else if cmd = ''rmi'' then CMD_RMI
      else if cmd = ''ps'' then CMD_PS
      else if cmd = ''logs'' then CMD_LOGS
      else if cmd = ''exec'' then CMD_EXEC
      else if cmd = ''commit'' then CMD_COMMIT
      else if cmd = ''daemon'' then CMD_DAEMON
      else CMD_UNKNOWN)"

record parsed_command =
  ctype :: command_type
  cargs :: "string option list" \<comment> \<open>\<open>args\<close>: a failed \<open>strdup\<close> stores a null pointer\<close>
  cargc :: nat
  image_name :: buf
  container_name :: buf
  dockerfile_path :: buf
  working_dir :: buf
  command :: buf
  detach :: int
  interactive :: int
  tty :: int
  port_mapping :: buf
  volume_mapping :: buf
  env_vars :: buf

text \<open>The record after \<open>memset(cmd, 0, sizeof(parsed_command_t))\<close>.\<close>

definition zero_command :: parsed_command where
  "zero_command =
     \<lparr>ctype = CMD_UNKNOWN, cargs = [], cargc = 0, image_name = zbuf 512, container_name = zbuf 512,
      dockerfile_path = zbuf 512, working_dir = zbuf 512, command = zbuf 256, detach = 0,
      interactive = 0, tty = 0, port_mapping = zbuf 64, volume_mapping = zbuf 256,
      env_vars = zbuf 512\<rparr>"

section \<open>The option loops\<close>

text \<open>\<open>argv[i][0] != '-'\<close>, true of the empty string.\<close>

definition not_dash :: "string \<Rightarrow> bool" where
  "not_dash a \<longleftrightarrow> (case a of [] \<Rightarrow> True | c # _ \<Rightarrow> c \<noteq> CHR ''-'')"

text \<open>The \<open>-e\<close> branch: a separator unless the array is empty, then the value, both by \<open>strcat\<close>.\<close>

definition add_env :: "buf \<Rightarrow> string \<Rightarrow> buf option" where
  "add_env b v = do {
     e \<leftarrow> cstr b;
     b1 \<leftarrow> (if 0 < length e then strcat b '';'' else Some b);
     strcat b1 v
   }"

fun parse_run_command :: "parsed_command \<Rightarrow> string list \<Rightarrow> parsed_command option" where
  "parse_run_command cmd [] = Some cmd"
| "parse_run_command cmd (a # rest) =
     (if a = ''-d'' \<or> a = ''--detach'' then parse_run_command (cmd\<lparr>detach := 1\<rparr>) rest
      else if a = ''-it'' then parse_run_command (cmd\<lparr>interactive := 1, tty := 1\<rparr>) rest
      else if a = ''-i'' \<or> a = ''--interactive'' then parse_run_command (cmd\<lparr>interactive := 1\<rparr>) rest
      else if a = ''-t'' \<or> a = ''--tty'' then parse_run_command (cmd\<lparr>tty := 1\<rparr>) rest
      else if a = ''--name'' \<and> rest \<noteq> [] then
        parse_run_command (cmd\<lparr>container_name := strncpy_sz (container_name cmd) (hd rest)\<rparr>) (tl rest)
      else if a = ''-p'' \<or> a = ''--publish'' then
        (if rest \<noteq> []
         then parse_run_command (cmd\<lparr>port_mapping := strncpy_sz (port_mapping cmd) (hd rest)\<rparr>) (tl rest)
         else parse_run_command cmd rest)
      else if a = ''-v'' \<or> a = ''--volume'' then
        (if rest \<noteq> []
         then parse_run_command (cmd\<lparr>volume_mapping := strncpy_sz (volume_mapping cmd) (hd rest)\<rparr>) (tl rest)
         else parse_run_command cmd rest)
      else if a = ''-e'' \<or> a = ''--env'' then
        (if rest \<noteq> []
         then add_env (env_vars cmd) (hd rest) \<bind>
                (\<lambda>b. parse_run_command (cmd\<lparr>env_vars := b\<rparr>) (tl rest))
         else parse_run_command cmd rest)
      else if a = ''-w'' \<or> a = ''--workdir'' then
        (if rest \<noteq> []
         then parse_run_command (cmd\<lparr>working_dir := strncpy_sz (working_dir cmd) (hd rest)\<rparr>) (tl rest)
         else parse_run_command cmd rest)
      else if not_dash a then
        cstr (image_name cmd) \<bind>
          (\<lambda>im. if length im = 0
                then parse_run_command (cmd\<lparr>image_name := strncpy_sz (image_name cmd) a\<rparr>) rest
                else Some (cmd\<lparr>command := strncpy_sz (command cmd) a\<rparr>))
      else parse_run_command cmd rest)"

declare parse_run_command.simps(2) [simp del]

fun build_loop :: "parsed_command \<Rightarrow> string list \<Rightarrow> parsed_command option" where
  "build_loop cmd [] = Some cmd"
| "build_loop cmd (a # rest) =
     (if a = ''-t'' \<or> a = ''--tag'' then
        (if rest \<noteq> []
         then build_loop (cmd\<lparr>image_name := strncpy_sz (image_name cmd) (hd rest)\<rparr>) (tl rest)
         else build_loop cmd rest)
      else if a = ''-f'' \<or> a = ''--file'' then
        (if rest \<noteq> []
         then build_loop (cmd\<lparr>dockerfile_path := strncpy_sz (dockerfile_path cmd) (hd rest)\<rparr>) (tl rest)
         else build_loop cmd rest)
      else if not_dash a then
        cstr (working_dir cmd) \<bind>
          (\<lambda>wd. if length wd = 0
                then build_loop (cmd\<lparr>working_dir := strncpy_sz (working_dir cmd) a\<rparr>) rest
                else build_loop cmd rest)
      else build_loop cmd rest)"

definition parse_build_command :: "parsed_command \<Rightarrow> string list \<Rightarrow> parsed_command option" where
  "parse_build_command cmd args = do {
     cmd1 \<leftarrow> build_loop cmd args;
     df \<leftarrow> cstr (dockerfile_path cmd1);
     (if length df = 0
      then strcpy (dockerfile_path cmd1) ''Dockerfile'' \<bind> (\<lambda>b. Some (cmd1\<lparr>dockerfile_path := b\<rparr>))
      else Some cmd1)
   }"

fun parse_container_command :: "parsed_command \<Rightarrow> string list \<Rightarrow> parsed_command" where
  "parse_container_command cmd [] = cmd"
| "parse_container_command cmd (a # rest) =
     (if not_dash a then cmd\<lparr>container_name := strncpy_sz (container_name cmd) a\<rparr>
      else parse_container_command cmd rest)"

fun parse_commit_command :: "parsed_command \<Rightarrow> string list \<Rightarrow> parsed_command option" where
  "parse_commit_command cmd [] = Some cmd"
| "parse_commit_command cmd (a # rest) =
     (if a = ''-m'' \<or> a = ''--message'' then
        (if rest \<noteq> []
         then parse_commit_command (cmd\<lparr>command := strncpy_sz (command cmd) (hd rest)\<rparr>) (tl rest)
         else parse_commit_command cmd rest)
      else if not_dash a then
        do {
          cn \<leftarrow> cstr (container_name cmd);
          im \<leftarrow> cstr (image_name cmd);
          (if length cn = 0
           then parse_commit_command (cmd\<lparr>container_name := strncpy_sz (container_name cmd) a\<rparr>) rest
           else if length im = 0
           then parse_commit_command (cmd\<lparr>image_name := strncpy_sz (image_name cmd) a\<rparr>) rest
           else parse_commit_command cmd rest)
        }
      else parse_commit_command cmd rest)"

section \<open>\<open>parse_arguments\<close> and \<open>validate_command\<close>\<close>

fun strdup_all :: "os \<Rightarrow> string list \<Rightarrow> world \<Rightarrow> string option list \<times> world" where
  "strdup_all os [] w = ([], w)"
| "strdup_all os (a # as) w =
     (let (ok, w1) = malloc os w; (r, w2) = strdup_all os as w1
      in ((if ok then Some a else None) # r, w2))"

text \<open>The command switch, on the arguments from index 2.\<close>

definition parse_options :: "parsed_command \<Rightarrow> string list \<Rightarrow> parsed_command option" where
  "parse_options cmd args =
     (case ctype cmd of
        CMD_RUN \<Rightarrow> parse_run_command cmd args
      | CMD_BUILD \<Rightarrow> parse_build_command cmd args
      | CMD_STOP \<Rightarrow> Some (parse_container_command cmd args)
      | CMD_RM \<Rightarrow> Some (parse_container_command cmd args)
      | CMD_RMI \<Rightarrow> Some (parse_container_command cmd args)
      | CMD_LOGS \<Rightarrow> Some (parse_container_command cmd args)
      | CMD_EXEC \<Rightarrow> Some (parse_container_command cmd args)
      | CMD_COMMIT \<Rightarrow> parse_commit_command cmd args
      | _ \<Rightarrow> Some cmd)"

text \<open>The inner \<open>None\<close> is the null pointer the function returns.\<close>

definition parse_arguments :: "os \<Rightarrow> string list \<Rightarrow> world \<Rightarrow> (parsed_command option \<times> world) option" where
  "parse_arguments os argv w =
     (case argv of
        _ # name # args \<Rightarrow>
          (let (ok, w1) = malloc os w in
           if \<not> ok then Some (None, w1)
           else let (ok2, w2) = malloc os w1 in
             if \<not> ok2 then Some (None, w2)
             else let (dups, w3) = strdup_all os argv w2;
                      cmd = zero_command\<lparr>ctype := get_command_type name, cargs := dups, cargc := length argv\<rparr>
                  in parse_options cmd args \<bind> (\<lambda>c. Some (Some c, w3)))
      | _ \<Rightarrow> Some (None, w))"

text \<open>The usage text on the standard output.\<close>

definition print_usage :: "string \<Rightarrow> string" where
  "print_usage program_name =
     ''Usage: '' @ program_name @ '' <command> [options]'' @ [LF, LF] @
     ''Commands:'' @ [LF] @
     ''  run        Run a container from an image'' @ [LF] @
     ''  build      Build an image from a Dockerfile'' @ [LF] @
     ''  images     List images'' @ [LF] @
     ''  containers List containers'' @ [LF] @
     ''  ps         List running containers'' @ [LF] @
     ''  stop       Stop a running container'' @ [LF] @
     ''  rm         Remove a container'' @ [LF] @
     ''  rmi        Remove an image'' @ [LF] @
     ''  logs       Show container logs'' @ [LF] @
     ''  exec       Execute command in running container'' @ [LF] @
     ''  commit     Create image from container'' @ [LF] @
     ''  daemon     Start the daemon'' @ [LF, LF] @
     ''Examples:'' @ [LF] @
     ''  '' @ program_name @ '' run -it ubuntu bash'' @ [LF] @
     ''  '' @ program_name @ '' build -t myimage .'' @ [LF] @
     ''  '' @ program_name @ '' images'' @ [LF] @
     ''  '' @ program_name @ '' ps'' @ [LF]"

text \<open>What \<open>parse_arguments\<close> prints: the usage when there is no command word, with \<open>argv[0]\<close>, which
  is a null pointer when there are no arguments at all.\<close>

definition parse_output :: "string list \<Rightarrow> string option" where
  "parse_output argv =
     (case argv of
        [] \<Rightarrow> None
      | [program_name] \<Rightarrow> Some (print_usage program_name)
      | _ \<Rightarrow> Some [])"

definition is_empty_field :: "buf \<Rightarrow> bool option" where
  "is_empty_field b = cstr b \<bind> (\<lambda>s. Some (length s = 0))"

definition validate_command :: "parsed_command \<Rightarrow> int option" where
  "validate_command cmd =
     (if ctype cmd = CMD_RUN \<or> ctype cmd = CMD_BUILD then
        is_empty_field (image_name cmd) \<bind> (\<lambda>e. Some (if e then 0 else 1))
      else if ctype cmd \<in> {CMD_STOP, CMD_RM, CMD_LOGS, CMD_EXEC} then
        is_empty_field (container_name cmd) \<bind> (\<lambda>e. Some (if e then 0 else 1))
      else if ctype cmd = CMD_COMMIT then
        is_empty_field (container_name cmd) \<bind>
          (\<lambda>e. if e then Some 0 else is_empty_field (image_name cmd) \<bind> (\<lambda>f. Some (if f then 0 else 1)))
      else Some 1)"

section \<open>The record keeps its arrays terminated\<close>

definition wf_command :: "parsed_command \<Rightarrow> bool" where
  "wf_command cmd \<longleftrightarrow>
     zterm 512 (image_name cmd) \<and> zterm 512 (container_name cmd) \<and> zterm 512 (dockerfile_path cmd) \<and>
     zterm 512 (working_dir cmd) \<and> zterm 256 (command cmd) \<and> zterm 64 (port_mapping cmd) \<and>
     zterm 256 (volume_mapping cmd) \<and> zterm 512 (env_vars cmd)"

lemma wf_zero_command [simp]: "wf_command zero_command"
  by (simp add: wf_command_def zero_command_def)

text \<open>What \<open>strcpy\<close> and \<open>strcat\<close> do to a terminated array that they fit in.\<close>

lemma zterm_strcpy:
  assumes "zterm n b" "strcpy b s = Some b'"
  shows "zterm n b'"
proof -
  have l: "length s < n" and b': "b' = s @ NUL # drop (Suc (length s)) b"
    using assms by (auto simp: strcpy_def zterm_def split: if_splits)
  show ?thesis
  proof (cases "drop (Suc (length s)) b = []")
    case True
    then show ?thesis using assms(1) l by (auto simp: zterm_def b')
  next
    case False
    then have "last (drop (Suc (length s)) b) = last b" by (simp add: last_drop)
    then show ?thesis using assms(1) l False by (simp add: zterm_def b')
  qed
qed

lemma zterm_strcat: "zterm n b \<Longrightarrow> strcat b s = Some b' \<Longrightarrow> zterm n b'"
  by (auto simp: strcat_def bind_Some_iff dest: zterm_strcpy)

lemma strcat_iff:
  assumes "zterm n b" "cstr b = Some d"
  shows "(\<exists>b'. strcat b s = Some b') \<longleftrightarrow> length d + length s < n"
  using assms by (auto simp: strcat_def strcpy_def dest: zterm_length)

lemma strcat_run:
  assumes "zterm n b" "cstr b = Some d" "no_nul s" "length d + length s < n"
  obtains b' where "strcat b s = Some b'" "zterm n b'" "cstr b' = Some (d @ s)"
proof -
  obtain b' where b': "strcat b s = Some b'" using strcat_iff [OF assms(1,2)] assms(4) by blast
  then show thesis using that [OF b' zterm_strcat [OF assms(1) b'] cstr_strcat [OF b' assms(2,3)]] by blast
qed

section \<open>The \<open>run\<close> options as strings\<close>

text \<open>
  What \<open>docker run\<close> promises, without arrays: the option values as they were typed, the
  environment values in order.
\<close>

record run_opts =
  o_image :: string
  o_command :: string
  o_name :: string
  o_port :: string
  o_volume :: string
  o_workdir :: string
  o_env :: "string list"
  o_detach :: bool
  o_interactive :: bool
  o_tty :: bool

definition no_opts :: run_opts where
  "no_opts = \<lparr>o_image = [], o_command = [], o_name = [], o_port = [], o_volume = [], o_workdir = [],
     o_env = [], o_detach = False, o_interactive = False, o_tty = False\<rparr>"

definition flag_spec :: "string \<Rightarrow> run_opts \<Rightarrow> run_opts option" where
  "flag_spec a o1 =
     (if a = ''-d'' \<or> a = ''--detach'' then Some (o1\<lparr>o_detach := True\<rparr>)
      else if a = ''-it'' then Some (o1\<lparr>o_interactive := True, o_tty := True\<rparr>)
      else if a = ''-i'' \<or> a = ''--interactive'' then Some (o1\<lparr>o_interactive := True\<rparr>)
      else if a = ''-t'' \<or> a = ''--tty'' then Some (o1\<lparr>o_tty := True\<rparr>)
      else None)"

definition value_options :: "string set" where
  "value_options = {''--name'', ''-p'', ''--publish'', ''-v'', ''--volume'', ''-e'', ''--env'', ''-w'', ''--workdir''}"

definition value_spec :: "string \<Rightarrow> string \<Rightarrow> run_opts \<Rightarrow> run_opts" where
  "value_spec a v o1 =
     (if a = ''--name'' then o1\<lparr>o_name := v\<rparr>
      else if a = ''-p'' \<or> a = ''--publish'' then o1\<lparr>o_port := v\<rparr>
      else if a = ''-v'' \<or> a = ''--volume'' then o1\<lparr>o_volume := v\<rparr>
      else if a = ''-e'' \<or> a = ''--env'' then o1\<lparr>o_env := o_env o1 @ [v]\<rparr>
      else o1\<lparr>o_workdir := v\<rparr>)"

fun run_spec :: "run_opts \<Rightarrow> string list \<Rightarrow> run_opts" where
  "run_spec o1 [] = o1"
| "run_spec o1 (a # rest) =
     (case flag_spec a o1 of
        Some o2 \<Rightarrow> run_spec o2 rest
      | None \<Rightarrow>
          if a \<in> value_options then
            (case rest of [] \<Rightarrow> o1 | v # rest' \<Rightarrow> run_spec (value_spec a v o1) rest')
          else if \<not> not_dash a then run_spec o1 rest
          else if o_image o1 = [] then run_spec (o1\<lparr>o_image := a\<rparr>) rest
          else o1\<lparr>o_command := a\<rparr>)"

definition env_add :: "string \<Rightarrow> string \<Rightarrow> string" where
  "env_add e v = (if e = [] then v else e @ '';'' @ v)"

definition env_join :: "string list \<Rightarrow> string" where
  "env_join vs = foldl env_add [] vs"

text \<open>The record in memory holds the strings, each cut to its array.\<close>

definition holds :: "parsed_command \<Rightarrow> run_opts \<Rightarrow> bool" where
  "holds cmd o1 \<longleftrightarrow>
     wf_command cmd \<and>
     cstr (image_name cmd) = Some (take 511 (o_image o1)) \<and>
     cstr (command cmd) = Some (take 255 (o_command o1)) \<and>
     cstr (container_name cmd) = Some (take 511 (o_name o1)) \<and>
     cstr (port_mapping cmd) = Some (take 63 (o_port o1)) \<and>
     cstr (volume_mapping cmd) = Some (take 255 (o_volume o1)) \<and>
     cstr (working_dir cmd) = Some (take 511 (o_workdir o1)) \<and>
     cstr (env_vars cmd) = Some (env_join (o_env o1)) \<and>
     detach cmd = (if o_detach o1 then 1 else 0) \<and>
     interactive cmd = (if o_interactive o1 then 1 else 0) \<and>
     tty cmd = (if o_tty o1 then 1 else 0)"

lemma holds_zero: "holds (zero_command\<lparr>ctype := t, cargs := d, cargc := n\<rparr>) no_opts"
  by (simp add: holds_def wf_command_def zero_command_def no_opts_def cstr_zbuf env_join_def)

text \<open>One lemma per field: writing it on both sides keeps them in step.\<close>

lemma holds_flags:
  assumes "holds cmd o1"
  shows "holds (cmd\<lparr>detach := 1\<rparr>) (o1\<lparr>o_detach := True\<rparr>)"
    "holds (cmd\<lparr>interactive := 1, tty := 1\<rparr>) (o1\<lparr>o_interactive := True, o_tty := True\<rparr>)"
    "holds (cmd\<lparr>interactive := 1\<rparr>) (o1\<lparr>o_interactive := True\<rparr>)"
    "holds (cmd\<lparr>tty := 1\<rparr>) (o1\<lparr>o_tty := True\<rparr>)"
  using assms by (auto simp: holds_def wf_command_def)

lemma holds_fields:
  assumes "holds cmd o1" "no_nul v"
  shows "holds (cmd\<lparr>image_name := strncpy_sz (image_name cmd) v\<rparr>) (o1\<lparr>o_image := v\<rparr>)"
    "holds (cmd\<lparr>command := strncpy_sz (command cmd) v\<rparr>) (o1\<lparr>o_command := v\<rparr>)"
    "holds (cmd\<lparr>container_name := strncpy_sz (container_name cmd) v\<rparr>) (o1\<lparr>o_name := v\<rparr>)"
    "holds (cmd\<lparr>port_mapping := strncpy_sz (port_mapping cmd) v\<rparr>) (o1\<lparr>o_port := v\<rparr>)"
    "holds (cmd\<lparr>volume_mapping := strncpy_sz (volume_mapping cmd) v\<rparr>) (o1\<lparr>o_volume := v\<rparr>)"
    "holds (cmd\<lparr>working_dir := strncpy_sz (working_dir cmd) v\<rparr>) (o1\<lparr>o_workdir := v\<rparr>)"
  using assms cstr_strncpy_sz [of 512 _ v] cstr_strncpy_sz [of 256 _ v] cstr_strncpy_sz [of 64 _ v]
  by (auto simp: holds_def wf_command_def zterm_strncpy_sz)

lemma length_env_add: "length e \<le> length (env_add e v)"
  by (simp add: env_add_def)

lemma env_join_snoc: "env_join (vs @ [v]) = env_add (env_join vs) v"
  by (simp add: env_join_def)

text \<open>The environment array takes the value exactly when the joined text fits.\<close>

lemma add_env_fits:
  assumes "zterm 512 b" "cstr b = Some e" "no_nul v" "length (env_add e v) < 512"
  obtains b' where "add_env b v = Some b'" "zterm 512 b'" "cstr b' = Some (env_add e v)"
proof (cases "e = []")
  case True
  then obtain b' where "strcat b v = Some b'" "zterm 512 b'" "cstr b' = Some v"
    using strcat_run [OF assms(1,2,3)] assms(4) by (auto simp: env_add_def)
  then show thesis using that assms(2) True by (simp add: add_env_def env_add_def)
next
  case False
  obtain b1 where b1: "strcat b '';'' = Some b1" "zterm 512 b1" "cstr b1 = Some (e @ '';'')"
    using strcat_run [OF assms(1,2), of "'';''"] assms(4) False by (auto simp: env_add_def)
  obtain b' where "strcat b1 v = Some b'" "zterm 512 b'" "cstr b' = Some ((e @ '';'') @ v)"
    using strcat_run [OF b1(2,3) assms(3)] assms(4) False by (auto simp: env_add_def)
  then show thesis using that assms(2) False b1(1) by (simp add: add_env_def env_add_def)
qed

lemma add_env_overflow:
  assumes "zterm 512 b" "cstr b = Some e" "\<not> length (env_add e v) < 512"
  shows "add_env b v = None"
proof (rule ccontr)
  assume "add_env b v \<noteq> None"
  then obtain b' where b': "add_env b v = Some b'" by blast
  show False
  proof (cases "e = []")
    case True
    then show False
      using b' strcat_iff [OF assms(1,2), of v] assms(2,3) by (auto simp: add_env_def env_add_def)
  next
    case False
    then obtain b1 where b1: "strcat b '';'' = Some b1" "strcat b1 v = Some b'"
      using b' assms(2) by (auto simp: add_env_def bind_Some_iff)
    have "zterm 512 b1" "cstr b1 = Some (e @ '';'')"
      using b1(1) zterm_strcat [OF assms(1)] cstr_strcat [OF _ assms(2), of "'';''"] by auto
    then show False using strcat_iff [of 512 b1 "e @ '';''" v] b1(2) assms(3) False by (auto simp: env_add_def)
  qed
qed

lemma flag_spec_cases:
  "flag_spec a o1 = Some o2 \<Longrightarrow>
   (a = ''-d'' \<or> a = ''--detach'') \<and> o2 = o1\<lparr>o_detach := True\<rparr> \<or>
   a = ''-it'' \<and> o2 = o1\<lparr>o_interactive := True, o_tty := True\<rparr> \<or>
   (a = ''-i'' \<or> a = ''--interactive'') \<and> o2 = o1\<lparr>o_interactive := True\<rparr> \<or>
   (a = ''-t'' \<or> a = ''--tty'') \<and> o2 = o1\<lparr>o_tty := True\<rparr>"
  unfolding flag_spec_def by (simp split: if_split_asm)

lemma flag_spec_None:
  "flag_spec a o1 = None \<Longrightarrow>
   a \<noteq> ''-d'' \<and> a \<noteq> ''--detach'' \<and> a \<noteq> ''-it'' \<and> a \<noteq> ''-i'' \<and> a \<noteq> ''--interactive'' \<and>
   a \<noteq> ''-t'' \<and> a \<noteq> ''--tty''"
  unfolding flag_spec_def by (simp split: if_split_asm)

lemma value_options_not:
  "a \<notin> value_options \<Longrightarrow>
   a \<noteq> ''--name'' \<and> a \<noteq> ''-p'' \<and> a \<noteq> ''--publish'' \<and> a \<noteq> ''-v'' \<and> a \<noteq> ''--volume'' \<and>
   a \<noteq> ''-e'' \<and> a \<noteq> ''--env'' \<and> a \<noteq> ''-w'' \<and> a \<noteq> ''--workdir''"
  by (simp add: value_options_def)

lemma flag_spec_env: "flag_spec a o1 = Some o2 \<Longrightarrow> o_env o2 = o_env o1"
  by (drule flag_spec_cases) (elim disjE conjE; simp)

lemma value_spec_env: "length (env_join (o_env o1)) \<le> length (env_join (o_env (value_spec a v o1)))"
  by (simp add: value_spec_def env_join_snoc length_env_add)

lemma run_spec_env_mono: "length (env_join (o_env o1)) \<le> length (env_join (o_env (run_spec o1 args)))"
proof (induction o1 args rule: run_spec.induct)
  case (1 o1)
  then show ?case by simp
next
  case (2 o1 a rest)
  show ?case
  proof (cases "flag_spec a o1")
    case (Some o2)
    then show ?thesis using "2.IH"(4) [OF Some] flag_spec_env [OF Some] by simp
  next
    case None
    then show ?thesis
      using "2.IH"(1) [OF None] "2.IH"(2,3) [OF None]
      by (auto split: list.splits intro: order_trans [OF value_spec_env])
  qed
qed

text \<open>One lemma per kind of argument: what the option loop does with it.\<close>

text \<open>The loop's equation at each option, its comparisons decided.\<close>

lemmas run_eqs =
  parse_run_command.simps(2) [of _ "''-d''", simplified]
  parse_run_command.simps(2) [of _ "''--detach''", simplified]
  parse_run_command.simps(2) [of _ "''-it''", simplified]
  parse_run_command.simps(2) [of _ "''-i''", simplified]
  parse_run_command.simps(2) [of _ "''--interactive''", simplified]
  parse_run_command.simps(2) [of _ "''-t''", simplified]
  parse_run_command.simps(2) [of _ "''--tty''", simplified]
  parse_run_command.simps(2) [of _ "''--name''", simplified]
  parse_run_command.simps(2) [of _ "''-p''", simplified]
  parse_run_command.simps(2) [of _ "''--publish''", simplified]
  parse_run_command.simps(2) [of _ "''-v''", simplified]
  parse_run_command.simps(2) [of _ "''--volume''", simplified]
  parse_run_command.simps(2) [of _ "''-e''", simplified]
  parse_run_command.simps(2) [of _ "''--env''", simplified]
  parse_run_command.simps(2) [of _ "''-w''", simplified]
  parse_run_command.simps(2) [of _ "''--workdir''", simplified]

lemma parse_flag:
  assumes "flag_spec a o1 = Some o2" "holds cmd o1"
  obtains cmd' where "holds cmd' o2" "parse_run_command cmd (a # rest) = parse_run_command cmd' rest"
    "ctype cmd' = ctype cmd"
  using flag_spec_cases [OF assms(1)] holds_flags [OF assms(2)] that
  by (elim disjE conjE) (simp_all add: run_eqs)

lemma value_options_cases:
  assumes "a \<in> value_options" "a \<noteq> ''-e''" "a \<noteq> ''--env''"
  shows "a = ''--name'' \<or> a = ''-p'' \<or> a = ''--publish'' \<or> a = ''-v'' \<or> a = ''--volume'' \<or> a = ''-w'' \<or> a = ''--workdir''"
  using assms by (simp add: value_options_def)

lemma parse_value:
  assumes "a \<in> value_options" "a \<noteq> ''-e''" "a \<noteq> ''--env''" "holds cmd o1" "no_nul v"
  obtains cmd' where "holds cmd' (value_spec a v o1)"
    "parse_run_command cmd (a # v # rest) = parse_run_command cmd' rest" "ctype cmd' = ctype cmd"
  using value_options_cases [OF assms(1-3)] holds_fields [OF assms(4,5)] that
  by (elim disjE) (simp_all add: run_eqs value_spec_def)

lemma parse_env:
  assumes "a = ''-e'' \<or> a = ''--env''"
  shows "parse_run_command cmd (a # v # rest) =
           add_env (env_vars cmd) v \<bind> (\<lambda>b. parse_run_command (cmd\<lparr>env_vars := b\<rparr>) rest)"
  using assms by (auto simp: run_eqs)

lemma parse_value_missing: "a \<in> value_options \<Longrightarrow> parse_run_command cmd [a] = Some cmd"
  by (auto simp: value_options_def not_dash_def run_eqs)

lemma parse_word:
  assumes "flag_spec a o1 = None" "a \<notin> value_options" "not_dash a"
  shows "parse_run_command cmd (a # rest) =
           cstr (image_name cmd) \<bind>
             (\<lambda>im. if length im = 0
                   then parse_run_command (cmd\<lparr>image_name := strncpy_sz (image_name cmd) a\<rparr>) rest
                   else Some (cmd\<lparr>command := strncpy_sz (command cmd) a\<rparr>))"
  by (simp only: parse_run_command.simps(2) flag_spec_None [OF assms(1)] value_options_not [OF assms(2)] assms(3)
      if_False if_True simp_thms)

lemma parse_other:
  assumes "flag_spec a o1 = None" "a \<notin> value_options" "\<not> not_dash a"
  shows "parse_run_command cmd (a # rest) = parse_run_command cmd rest"
  by (simp only: parse_run_command.simps(2) [of _ _ rest] flag_spec_None [OF assms(1)]
      value_options_not [OF assms(2)] assms(3) if_False if_True simp_thms)

text \<open>The loop and the specification run in step; the loop is undefined exactly when the joined
  environment outgrows its array.\<close>

lemma parse_run_refines:
  assumes "holds cmd o1" "\<forall>a \<in> set args. no_nul a"
  shows "case parse_run_command cmd args of
           None \<Rightarrow> 511 < length (env_join (o_env (run_spec o1 args)))
         | Some c \<Rightarrow> holds c (run_spec o1 args) \<and> ctype c = ctype cmd"
  using assms
proof (induction o1 args arbitrary: cmd rule: run_spec.induct)
  case (1 o1)
  then show ?case by simp
next
  case (2 o1 a rest)
  show ?case
  proof (cases "flag_spec a o1")
    case (Some o2)
    obtain cmd' where c: "holds cmd' o2" "parse_run_command cmd (a # rest) = parse_run_command cmd' rest"
      "ctype cmd' = ctype cmd"
      using parse_flag [OF Some "2.prems"(1)] by blast
    show ?thesis using "2.IH"(4) [OF Some c(1)] "2.prems"(2) Some by (simp add: c(2,3) cong: option.case_cong)
  next
    case None
    consider (missing) "a \<in> value_options" "rest = []"
      | (val) v r where "a \<in> value_options" "rest = v # r" "a \<noteq> ''-e''" "a \<noteq> ''--env''"
      | (env) v r where "a \<in> value_options" "rest = v # r" "a = ''-e'' \<or> a = ''--env''"
      | (other) "a \<notin> value_options" "\<not> not_dash a"
      | (image) "a \<notin> value_options" "not_dash a" "o_image o1 = []"
      | (cmd) "a \<notin> value_options" "not_dash a" "o_image o1 \<noteq> []"
      by (cases rest) blast+
    then show ?thesis
    proof cases
      case missing
      then show ?thesis using None "2.prems"(1) parse_value_missing [of a cmd] by simp
    next
      case val
      obtain cmd' where c: "holds cmd' (value_spec a v o1)"
        "parse_run_command cmd (a # v # r) = parse_run_command cmd' r" "ctype cmd' = ctype cmd"
        using parse_value [OF val(1,3,4) "2.prems"(1)] "2.prems"(2) val(2) by auto
      show ?thesis using "2.IH"(1) [OF None val(1,2) c(1)] "2.prems"(2) None val(1,2) by (simp add: c(2,3) cong: option.case_cong)
    next
      case env
      let ?e = "env_join (o_env o1)"
      have h: "zterm 512 (env_vars cmd)" "cstr (env_vars cmd) = Some ?e"
        using "2.prems"(1) by (auto simp: holds_def wf_command_def)
      have v: "no_nul v" using "2.prems"(2) env(2) by simp
      have spec: "run_spec o1 (a # rest) = run_spec (value_spec a v o1) r" using None env(1,2) by simp
      have envs: "env_join (o_env (value_spec a v o1)) = env_add ?e v"
        using env(3) by (auto simp: value_spec_def env_join_snoc)
      show ?thesis
      proof (cases "length (env_add ?e v) < 512")
        case True
        obtain b where b: "add_env (env_vars cmd) v = Some b" "zterm 512 b" "cstr b = Some (env_add ?e v)"
          using add_env_fits [OF h v True] by blast
        have hb: "holds (cmd\<lparr>env_vars := b\<rparr>) (value_spec a v o1)"
          using "2.prems"(1) b(2,3) env(3) by (auto simp: holds_def wf_command_def value_spec_def env_join_snoc)
        then show ?thesis
          using "2.IH"(1) [OF None env(1,2) hb] "2.prems"(2) env(2) spec by (simp add: parse_env [OF env(3)] b(1) cong: option.case_cong)
      next
        case False
        then have "511 < length (env_join (o_env (run_spec o1 (a # rest))))"
          using run_spec_env_mono [of "value_spec a v o1" r] by (simp add: spec envs del: run_spec.simps)
        then show ?thesis
          using add_env_overflow [OF h False] by (simp add: env(2) parse_env [OF env(3)] del: run_spec.simps)
      qed
    next
      case other
      then show ?thesis
        using "2.IH"(2) [OF None other "2.prems"(1)] "2.prems"(2) None by (simp add: parse_other cong: option.case_cong)
    next
      case image
      have im: "cstr (image_name cmd) = Some []" using "2.prems"(1) image(3) by (simp add: holds_def)
      have hi: "holds (cmd\<lparr>image_name := strncpy_sz (image_name cmd) a\<rparr>) (o1\<lparr>o_image := a\<rparr>)"
        using holds_fields(1) [OF "2.prems"(1)] "2.prems"(2) by simp
      then show ?thesis
        using "2.IH"(3) [OF None image(1) _ image(3) hi] image "2.prems"(2) None by (simp add: parse_word [OF None] im cong: option.case_cong)
    next
      case cmd
      have im: "cstr (image_name cmd) = Some (take 511 (o_image o1))" using "2.prems"(1) by (simp add: holds_def)
      have "holds (cmd\<lparr>command := strncpy_sz (command cmd) a\<rparr>) (o1\<lparr>o_command := a\<rparr>)"
        using holds_fields(2) [OF "2.prems"(1)] "2.prems"(2) by simp
      then show ?thesis using cmd None by (simp add: parse_word [OF None] im cong: option.case_cong)
    qed
  qed
qed

text \<open>
  C17. \<open>docker run\<close> reads its command line as specified: from a zeroed record the option loop
  leaves every field holding the string the user typed for it, cut to the size of its array, with the
  \<open>-e\<close> values joined by semicolons; and it writes outside the record exactly when those joined
  values need more than 511 bytes.
\<close>

theorem run_options_correct:
  assumes "\<forall>a \<in> set args. no_nul a"
  shows "(parse_run_command zero_command args = None \<longleftrightarrow>
            511 < length (env_join (o_env (run_spec no_opts args)))) \<and>
         (\<forall>c. parse_run_command zero_command args = Some c \<longrightarrow> holds c (run_spec no_opts args))"
proof -
  have h: "holds zero_command no_opts"
    using holds_zero [of 0 "[]" CMD_UNKNOWN] by (simp add: zero_command_def)
  have fits: "holds c o1 \<Longrightarrow> length (env_join (o_env o1)) < 512" for c o1
    using cstr_length [of "env_vars c"] by (auto simp: holds_def wf_command_def zterm_def)
  show ?thesis
    using parse_run_refines [OF h assms] fits by (fastforce split: option.splits)
qed

theorem run_options_correct_witness:
  "parse_run_command zero_command [''-e'', ''A=1'', ''-d'', ''ubuntu'', ''ls''] \<noteq> None"
proof -
  let ?args = "[''-e'', ''A=1'', ''-d'', ''ubuntu'', ''ls'']"
  have "\<forall>a \<in> set ?args. no_nul a" by simp
  then show ?thesis
    using run_options_correct [of ?args]
    by (simp add: flag_spec_def value_options_def value_spec_def not_dash_def no_opts_def env_join_def env_add_def)
qed

section \<open>Round trip: from options to a command line and back\<close>

definition render_run :: "run_opts \<Rightarrow> string list" where
  "render_run o1 =
     (if o_detach o1 then [''-d''] else []) @ (if o_interactive o1 then [''-i''] else []) @
     (if o_tty o1 then [''-t''] else []) @
     [''--name'', o_name o1, ''-p'', o_port o1, ''-v'', o_volume o1, ''-w'', o_workdir o1] @
     concat (map (\<lambda>e. [''-e'', e]) (o_env o1)) @ [o_image o1, o_command o1]"

lemma not_dash_word: "not_dash a \<Longrightarrow> flag_spec a o1 = None \<and> a \<notin> value_options"
  by (cases a) (simp_all add: not_dash_def flag_spec_def value_options_def)

lemma run_spec_envs: "run_spec o1 (concat (map (\<lambda>e. [''-e'', e]) vs) @ args) = run_spec (o1\<lparr>o_env := o_env o1 @ vs\<rparr>) args"
  by (induction vs arbitrary: o1) (simp_all add: flag_spec_def value_options_def value_spec_def)

lemma run_spec_words:
  assumes "not_dash i" "not_dash c" "i \<noteq> []" "o_image o1 = []"
  shows "run_spec o1 (i # c # extra) = o1\<lparr>o_image := i, o_command := c\<rparr>"
  using assms not_dash_word [of i] not_dash_word [of c] by simp

lemma run_spec_render:
  assumes "not_dash (o_image o1)" "not_dash (o_command o1)" "o_image o1 \<noteq> []"
  shows "run_spec no_opts (render_run o1 @ extra) = o1"
proof -
  let ?p = "no_opts\<lparr>o_detach := o_detach o1, o_interactive := o_interactive o1, o_tty := o_tty o1,
    o_name := o_name o1, o_port := o_port o1, o_volume := o_volume o1, o_workdir := o_workdir o1\<rparr>"
  have "run_spec no_opts (render_run o1 @ extra) =
    run_spec ?p (concat (map (\<lambda>e. [''-e'', e]) (o_env o1)) @ o_image o1 # o_command o1 # extra)"
    by (cases "o_detach o1"; cases "o_interactive o1"; cases "o_tty o1")
      (simp_all add: render_run_def flag_spec_def value_options_def value_spec_def no_opts_def)
  also have "\<dots> = o1"
    unfolding run_spec_envs
    by (subst run_spec_words) (use assms in \<open>simp_all add: no_opts_def\<close>)
  finally show ?thesis .
qed

text \<open>
  C37. Round trip of \<open>docker run\<close>: for any options whose image and command do not start with a
  dash and whose environment fits, the command line that spells them out is parsed back to exactly
  these options (cut to the arrays), and whatever follows the command word is ignored.
\<close>

theorem run_roundtrip:
  assumes "not_dash (o_image o1)" "not_dash (o_command o1)" "o_image o1 \<noteq> []"
    and "\<forall>a \<in> set (render_run o1 @ extra). no_nul a"
    and "length (env_join (o_env o1)) < 512"
  shows "\<exists>c. parse_run_command zero_command (render_run o1 @ extra) = Some c \<and> holds c o1"
proof -
  have "holds zero_command no_opts"
    using holds_zero [of 0 "[]" CMD_UNKNOWN] by (simp add: zero_command_def)
  from parse_run_refines [OF this assms(4)] show ?thesis
    unfolding run_spec_render [OF assms(1-3)] using assms(5) by (auto split: option.splits)
qed

theorem run_roundtrip_witness:
  "let o1 = no_opts\<lparr>o_image := ''ubuntu'', o_command := ''ls'', o_env := [''A=1'', ''B=2''], o_detach := True\<rparr>
   in \<exists>c. parse_run_command zero_command (render_run o1 @ [''-t'']) = Some c \<and>
          cstr (env_vars c) = Some ''A=1;B=2'' \<and> detach c = 1 \<and> tty c = 0"
proof -
  let ?o = "no_opts\<lparr>o_image := ''ubuntu'', o_command := ''ls'', o_env := [''A=1'', ''B=2''], o_detach := True\<rparr>"
  have "\<exists>c. parse_run_command zero_command (render_run ?o @ [''-t'']) = Some c \<and> holds c ?o"
    by (rule run_roundtrip) (simp_all add: not_dash_def render_run_def no_opts_def env_join_def env_add_def)
  then show ?thesis by (auto simp: holds_def env_join_def env_add_def no_opts_def Let_def)
qed

section \<open>Every parsed command is well formed\<close>

lemma wf_updates:
  assumes "wf_command cmd"
  shows "wf_command (cmd\<lparr>image_name := strncpy_sz (image_name cmd) v\<rparr>)"
    "wf_command (cmd\<lparr>container_name := strncpy_sz (container_name cmd) v\<rparr>)"
    "wf_command (cmd\<lparr>dockerfile_path := strncpy_sz (dockerfile_path cmd) v\<rparr>)"
    "wf_command (cmd\<lparr>working_dir := strncpy_sz (working_dir cmd) v\<rparr>)"
    "wf_command (cmd\<lparr>command := strncpy_sz (command cmd) v\<rparr>)"
  using assms by (auto simp: wf_command_def zterm_strncpy_sz)

lemma wf_cstr:
  assumes "wf_command cmd"
  obtains i c w d where "cstr (image_name cmd) = Some i" "cstr (container_name cmd) = Some c"
    "cstr (working_dir cmd) = Some w" "cstr (dockerfile_path cmd) = Some d"
  using assms that zterm_cstr [of 512 "image_name cmd"] zterm_cstr [of 512 "container_name cmd"]
    zterm_cstr [of 512 "working_dir cmd"] zterm_cstr [of 512 "dockerfile_path cmd"]
  by (auto simp: wf_command_def)

lemma build_loop_wf: "wf_command cmd \<Longrightarrow> \<exists>c. build_loop cmd args = Some c \<and> wf_command c \<and> ctype c = ctype cmd"
proof (induction cmd args rule: build_loop.induct)
  case (1 cmd)
  then show ?case by simp
next
  case (2 cmd a rest)
  obtain w where "cstr (working_dir cmd) = Some w" using wf_cstr [OF "2.prems"] by blast
  then show ?case using 2 wf_updates [OF "2.prems"] by auto
qed

lemma strcpy_Dockerfile: "zterm 512 b \<Longrightarrow> \<exists>b'. strcpy b ''Dockerfile'' = Some b' \<and> zterm 512 b' \<and> cstr b' = Some ''Dockerfile''"
proof -
  assume z: "zterm 512 b"
  then obtain b' where b: "strcpy b ''Dockerfile'' = Some b'" by (auto simp: strcpy_def zterm_def)
  then show ?thesis using zterm_strcpy [OF z b] cstr_strcpy [OF b] by simp
qed

lemma parse_build_wf:
  assumes "wf_command cmd"
  obtains c d where "parse_build_command cmd args = Some c" "wf_command c" "ctype c = ctype cmd"
    "cstr (dockerfile_path c) = Some d" "d \<noteq> []"
proof -
  obtain c1 where c1: "build_loop cmd args = Some c1" "wf_command c1" "ctype c1 = ctype cmd"
    using build_loop_wf [OF assms] by blast
  obtain d where d: "cstr (dockerfile_path c1) = Some d" using wf_cstr [OF c1(2)] by blast
  show thesis
  proof (cases "d = []")
    case True
    obtain b where b: "strcpy (dockerfile_path c1) ''Dockerfile'' = Some b" "zterm 512 b" "cstr b = Some ''Dockerfile''"
      using strcpy_Dockerfile c1(2) by (auto simp: wf_command_def)
    show thesis
      by (rule that [of "c1\<lparr>dockerfile_path := b\<rparr>" "''Dockerfile''"])
        (use c1 b d True in \<open>auto simp: parse_build_command_def wf_command_def\<close>)
  next
    case False
    show thesis by (rule that [of c1 d]) (use c1 d False in \<open>auto simp: parse_build_command_def\<close>)
  qed
qed

lemma parse_container_wf: "wf_command cmd \<Longrightarrow> wf_command (parse_container_command cmd args)"
  by (induction cmd args rule: parse_container_command.induct) (auto simp: wf_updates)

lemma parse_container_frame:
  "image_name (parse_container_command cmd args) = image_name cmd"
  "command (parse_container_command cmd args) = command cmd"
  "ctype (parse_container_command cmd args) = ctype cmd"
  by (induction cmd args rule: parse_container_command.induct) auto

lemma parse_commit_wf: "wf_command cmd \<Longrightarrow> \<exists>c. parse_commit_command cmd args = Some c \<and> wf_command c \<and> ctype c = ctype cmd"
proof (induction cmd args rule: parse_commit_command.induct)
  case (1 cmd)
  then show ?case by simp
next
  case (2 cmd a rest)
  obtain i c where "cstr (image_name cmd) = Some i" "cstr (container_name cmd) = Some c"
    using wf_cstr [OF "2.prems"] by blast
  then show ?case using 2 wf_updates [OF "2.prems"] by auto
qed

lemma parse_run_wf:
  assumes "\<forall>a \<in> set args. no_nul a"
    "parse_run_command (zero_command\<lparr>ctype := t, cargs := d, cargc := n\<rparr>) args = Some c"
  shows "wf_command c \<and> ctype c = t"
  using parse_run_refines [OF holds_zero assms(1), of n d t] assms(2) by (simp add: holds_def)

lemma parse_options_wf:
  assumes "\<forall>a \<in> set args. no_nul a"
    "parse_options (zero_command\<lparr>ctype := t, cargs := d, cargc := n\<rparr>) args = Some c"
  shows "wf_command c \<and> ctype c = t"
proof -
  let ?z = "zero_command\<lparr>ctype := t, cargs := d, cargc := n\<rparr>"
  have z: "wf_command ?z" using wf_zero_command by (simp add: wf_command_def)
  have zt: "wf_command (zero_command\<lparr>ctype := t', cargs := d, cargc := n\<rparr>)" for t'
    using wf_zero_command by (simp add: wf_command_def)
  show ?thesis
    using assms(2) parse_run_wf [OF assms(1)] parse_commit_wf [OF z, of args] parse_container_wf [OF z, of args]
      parse_container_frame(3) [of ?z args] parse_build_wf [OF z, of args "\<exists>c. parse_build_command ?z args = Some c \<and> wf_command c \<and> ctype c = t"]
    by (cases t) (auto simp: parse_options_def zt)
qed

lemma validate_defined: "wf_command c \<Longrightarrow> \<exists>v. validate_command c = Some v"
  by (rule wf_cstr [of c]) (auto simp: validate_command_def is_empty_field_def)

lemma parse_arguments_fields:
  assumes "\<forall>a \<in> set argv. no_nul a" "parse_arguments os argv w = Some (Some c, w')"
  shows "wf_command c \<and> ctype c = get_command_type (argv ! 1) \<and> (\<exists>v. validate_command c = Some v)"
proof -
  obtain prog name args where argv: "argv = prog # name # args"
    using assms(2) by (auto simp: parse_arguments_def split: list.splits)
  then obtain d where "parse_options (zero_command\<lparr>ctype := get_command_type name, cargs := d, cargc := length argv\<rparr>) args = Some c"
    using assms(2) by (auto simp: parse_arguments_def Let_def bind_Some_iff split: prod.splits if_splits)
  then have "wf_command c \<and> ctype c = get_command_type name"
    using parse_options_wf [of args] assms(1) argv by simp
  then show ?thesis using argv validate_defined by simp
qed

text \<open>
  C36. Whatever the arguments, a record that \<open>parse_arguments\<close> returns has every char array at
  its declared size and terminated, so all later reads of its fields are defined, and
  \<open>validate_command\<close> returns a verdict on it.
\<close>

theorem parse_arguments_wf:
  assumes "\<forall>a \<in> set argv. no_nul a" "parse_arguments os argv w = Some (Some c, w')"
  shows "wf_command c \<and> ctype c = get_command_type (argv ! 1) \<and> (\<exists>v. validate_command c = Some v)"
  using assms by (rule parse_arguments_fields)

theorem parse_arguments_wf_witness:
  "\<exists>c w. parse_arguments calm_os [''docker'', ''stop'', ''web''] empty_world = Some (Some c, w) \<and> wf_command c \<and> ctype c = CMD_STOP"
proof -
  let ?argv = "[''docker'', ''stop'', ''web'']"
  have 1: "\<forall>a \<in> set ?argv. no_nul a" by simp
  obtain c w where 2: "parse_arguments calm_os ?argv empty_world = Some (Some c, w)"
    by (simp add: parse_arguments_def malloc_def calm_os_def parse_options_def get_command_type_def Let_def)
  show ?thesis using parse_arguments_wf [OF 1 2] 2 by (auto simp: get_command_type_def)
qed

text \<open>
  The error paths of \<open>docker run\<close>: the parsed command is rejected by validation exactly when no
  argument named an image.
\<close>

theorem run_needs_image:
  assumes "\<forall>a \<in> set args. no_nul a"
    and "parse_options (zero_command\<lparr>ctype := CMD_RUN, cargs := d, cargc := n\<rparr>) args = Some c"
  shows "validate_command c = Some (if o_image (run_spec no_opts args) = [] then 0 else 1)"
proof -
  have "holds c (run_spec no_opts args) \<and> ctype c = CMD_RUN"
    using parse_run_refines [OF holds_zero assms(1), of n d CMD_RUN] assms(2) by (simp add: parse_options_def)
  then show ?thesis by (auto simp: holds_def validate_command_def is_empty_field_def)
qed

theorem run_needs_image_witness:
  "\<exists>c. parse_options (zero_command\<lparr>ctype := CMD_RUN, cargs := [], cargc := 3\<rparr>) [''-d''] = Some c \<and> validate_command c = Some 0"
proof -
  have 1: "\<forall>a \<in> set [''-d'']. no_nul a" by simp
  obtain c where 2: "parse_options (zero_command\<lparr>ctype := CMD_RUN, cargs := [], cargc := 3\<rparr>) [''-d''] = Some c"
    by (simp add: parse_options_def run_eqs)
  show ?thesis using run_needs_image [OF 1 2] 2 by (simp add: flag_spec_def no_opts_def)
qed

lemma build_loop_no_file:
  "build_loop cmd args = Some c \<Longrightarrow> ''-f'' \<notin> set args \<Longrightarrow> ''--file'' \<notin> set args \<Longrightarrow> dockerfile_path c = dockerfile_path cmd"
proof (induction cmd args rule: build_loop.induct)
  case (2 cmd a rest)
  then show ?case
    by (cases rest) (auto simp: bind_Some_iff split: if_split_asm)
qed simp

text \<open>
  \<open>docker build\<close> always ends with a Dockerfile path: the parse never fails, the path is never
  empty, and without a \<open>-f\<close> or \<open>--file\<close> option it is \<open>Dockerfile\<close>.
\<close>

theorem build_has_dockerfile:
  assumes "wf_command cmd" "cstr (dockerfile_path cmd) = Some []"
  shows "\<exists>c d. parse_build_command cmd args = Some c \<and> cstr (dockerfile_path c) = Some d \<and> d \<noteq> [] \<and> wf_command c \<and>
    (''-f'' \<notin> set args \<and> ''--file'' \<notin> set args \<longrightarrow> d = ''Dockerfile'')"
proof -
  obtain c d where c: "parse_build_command cmd args = Some c" "wf_command c" "cstr (dockerfile_path c) = Some d" "d \<noteq> []"
    using parse_build_wf [OF assms(1)] by metis
  have "d = ''Dockerfile''" if n: "''-f'' \<notin> set args" "''--file'' \<notin> set args"
  proof -
    obtain c1 where c1: "build_loop cmd args = Some c1" using c(1) by (auto simp: parse_build_command_def bind_Some_iff)
    then have "cstr (dockerfile_path c1) = Some []" using build_loop_no_file [OF c1 n] assms(2) by simp
    then show ?thesis
      using c(1,3) c1 by (auto simp: parse_build_command_def bind_Some_iff dest!: cstr_strcpy)
  qed
  then show ?thesis using c by blast
qed

theorem build_has_dockerfile_witness:
  "\<exists>c d. parse_build_command zero_command [''.''] = Some c \<and> cstr (dockerfile_path c) = Some d \<and> d \<noteq> []"
  using build_has_dockerfile [OF wf_zero_command, of "[''.'']"] by (auto simp: zero_command_def cstr_zbuf)

text \<open>
  \<open>docker rmi\<close>: the argument goes to \<open>container_name\<close>, so \<open>image_name\<close>, the field
  \<open>main\<close> hands to \<open>docker_rmi\<close>, stays empty, and validation lets it pass.
\<close>

lemma rmi_parse:
  assumes "\<forall>a \<in> set argv. no_nul a" "argv = prog # ''rmi'' # args"
    and "parse_arguments os argv w = Some (Some c, w')"
  shows "cstr (image_name c) = Some []" "validate_command c = Some 1" "ctype c = CMD_RMI"
proof -
  obtain d where c: "c = parse_container_command (zero_command\<lparr>ctype := CMD_RMI, cargs := d, cargc := length argv\<rparr>) args"
    using assms(2,3)
    by (auto simp: parse_arguments_def parse_options_def get_command_type_def Let_def split: prod.splits if_splits)
  then show "cstr (image_name c) = Some []"
    by (simp add: parse_container_frame zero_command_def cstr_zbuf)
  show "ctype c = CMD_RMI" by (simp add: c parse_container_frame)
  then show "validate_command c = Some 1" by (simp add: validate_command_def)
qed

end
