(* ===== verification/Container.thy ===== *)
theory Container imports OS begin

text \<open>
  The container runtime of the daemon, \<open>core/container.c\<close> and \<open>core/container.h\<close>. A container
  is a metadata file under \<open>/tmp/docker-container-metadata\<close>, a directory under
  \<open>/tmp/docker-containers\<close> and, while it runs, a child process. \<open>container_info_t\<close> is a
  record of char arrays at their declared sizes; a stack or heap variable that the C code leaves
  uninitialised enters as a parameter (\<open>g\<close>, "whatever the memory held").
\<close>

section \<open>Data\<close>

datatype container_state = CONTAINER_STATE_CREATED | CONTAINER_STATE_RUNNING | CONTAINER_STATE_PAUSED
  | CONTAINER_STATE_RESTARTING | CONTAINER_STATE_REMOVING | CONTAINER_STATE_EXITED | CONTAINER_STATE_DEAD

text \<open>The enumerators as C numbers them; the metadata file holds the number.\<close>

fun state_code :: "container_state \<Rightarrow> int" where
  "state_code CONTAINER_STATE_CREATED = 0"
| "state_code CONTAINER_STATE_RUNNING = 1"
| "state_code CONTAINER_STATE_PAUSED = 2"
| "state_code CONTAINER_STATE_RESTARTING = 3"
| "state_code CONTAINER_STATE_REMOVING = 4"
| "state_code CONTAINER_STATE_EXITED = 5"
| "state_code CONTAINER_STATE_DEAD = 6"

record container_info =
  c_id :: buf
  c_name :: buf
  c_image :: buf
  c_image_id :: buf
  c_command :: buf
  c_working_dir :: buf
  c_user :: buf
  c_shell :: buf
  c_entrypoint :: buf
  c_cmd :: buf
  c_env_vars :: buf
  c_port_mappings :: buf
  c_volume_mappings :: buf
  c_network_config :: buf
  c_state :: int
  c_pid :: int
  c_created :: buf
  c_started :: buf
  c_finished :: buf
  c_exit_code :: int
  c_log_path :: buf
  c_rootfs_path :: buf
  c_config_path :: buf
  c_interactive :: int
  c_tty :: int
  c_detach :: int
  c_restart_policy :: int
  c_memory_limit :: int
  c_cpu_limit :: int
  c_pid_limit :: int

text \<open>The record after \<open>memset(&container, 0, sizeof(container))\<close>.\<close>

definition zero_container :: container_info where
  "zero_container =
     \<lparr>c_id = zbuf 64, c_name = zbuf 256, c_image = zbuf 256, c_image_id = zbuf 64, c_command = zbuf 1024,
      c_working_dir = zbuf 512, c_user = zbuf 512, c_shell = zbuf 512, c_entrypoint = zbuf 1024,
      c_cmd = zbuf 1024, c_env_vars = zbuf 512, c_port_mappings = zbuf 64, c_volume_mappings = zbuf 256,
      c_network_config = zbuf 256, c_state = 0, c_pid = 0, c_created = zbuf 32, c_started = zbuf 32,
      c_finished = zbuf 32, c_exit_code = 0, c_log_path = zbuf 512, c_rootfs_path = zbuf 512,
      c_config_path = zbuf 512, c_interactive = 0, c_tty = 0, c_detach = 0, c_restart_policy = 0,
      c_memory_limit = 0, c_cpu_limit = 0, c_pid_limit = 0\<rparr>"

definition CONTAINER_STORAGE_DIR :: path where
  "CONTAINER_STORAGE_DIR = ''/tmp/docker-containers''"

definition CONTAINER_METADATA_DIR :: path where
  "CONTAINER_METADATA_DIR = ''/tmp/docker-container-metadata''"

definition CONTAINER_LOG_DIR :: path where
  "CONTAINER_LOG_DIR = ''/tmp/docker-logs''"

section \<open>Directories, identifiers and paths\<close>

fun rmdir_all :: "os \<Rightarrow> path list \<Rightarrow> world \<Rightarrow> world" where
  "rmdir_all os [] w = w"
| "rmdir_all os (d # ds) w = rmdir_all os ds (snd (rmdir os d w))"

text \<open>The loop over \<open>dirs\<close>; \<open>n\<close> is \<open>createdDirsCount\<close>.\<close>

function container_dirs_loop :: "os \<Rightarrow> path list \<Rightarrow> nat \<Rightarrow> nat \<Rightarrow> world \<Rightarrow> int \<times> world" where
  "container_dirs_loop os dirs i n w =
     (if i < length dirs then
        (let (e, w1) = mkdir os (dirs ! i) w
         in if e \<noteq> None \<and> e \<noteq> Some EEXIST then (- 1, rmdir_all os (take n dirs) w1)
            else container_dirs_loop os dirs (i + 1) (n + 1) w1)
      else (0, w))"
  by pat_completeness auto
termination container_dirs_loop
  by (relation "measure (\<lambda>(os, dirs, i, n, w). length dirs - i)") auto

declare container_dirs_loop.simps [simp del]

definition create_container_directories :: "os \<Rightarrow> world \<Rightarrow> int \<times> world" where
  "create_container_directories os w =
     container_dirs_loop os [CONTAINER_STORAGE_DIR, CONTAINER_METADATA_DIR, CONTAINER_LOG_DIR] 0 0 w"

definition init_container_system :: "os \<Rightarrow> world \<Rightarrow> int \<times> world" where
  "init_container_system os w =
     (let (r, w1) = create_container_directories os w in if r \<noteq> 0 then (- 1, w1) else (0, w1))"

text \<open>\<open>cont_%08x%08x\<close> of the low and the high half of the time.\<close>

definition container_id_at :: "64 word \<Rightarrow> string" where
  "container_id_at now =
     snprintf 64 (''cont_'' @ hex_pad 8 (unat (ucast now :: 32 word)) @
                              hex_pad 8 (unat (ucast (signed_drop_bit 32 now) :: 32 word)))"

definition generate_container_id :: "os \<Rightarrow> world \<Rightarrow> string \<times> world" where
  "generate_container_id os w = (let (now, w1) = time_now os w in (container_id_at now, w1))"

definition get_container_full_path :: "string \<Rightarrow> path" where
  "get_container_full_path cid = snprintf 512 (CONTAINER_STORAGE_DIR @ ''/'' @ cid)"

text \<open>The path that \<open>container_exists\<close>, \<open>read_container_metadata\<close> and
  \<open>create_container\<close> each format.\<close>

definition container_metadata_path :: "string \<Rightarrow> path" where
  "container_metadata_path cid = snprintf 512 (CONTAINER_METADATA_DIR @ ''/'' @ cid @ ''.json'')"

definition container_exists :: "string \<Rightarrow> world \<Rightarrow> bool" where
  "container_exists cid w = access_ok (container_metadata_path cid) w"

section \<open>The metadata file\<close>

text \<open>The lines that the \<open>fprintf\<close> calls write, without their newlines; undefined when a
  \<open>%s\<close> argument has no terminator.\<close>

definition container_lines :: "container_info \<Rightarrow> string list option" where
  "container_lines c = do {
     cid \<leftarrow> cstr (c_id c);
     name \<leftarrow> cstr (c_name c);
     img \<leftarrow> cstr (c_image c);
     image_id \<leftarrow> cstr (c_image_id c);
     command \<leftarrow> cstr (c_command c);
     working_dir \<leftarrow> cstr (c_working_dir c);
     user \<leftarrow> cstr (c_user c);
     sh \<leftarrow> cstr (c_shell c);
     entrypoint \<leftarrow> cstr (c_entrypoint c);
     cmd \<leftarrow> cstr (c_cmd c);
     env_vars \<leftarrow> cstr (c_env_vars c);
     port_mappings \<leftarrow> cstr (c_port_mappings c);
     volume_mappings \<leftarrow> cstr (c_volume_mappings c);
     network_config \<leftarrow> cstr (c_network_config c);
     created \<leftarrow> cstr (c_created c);
     started \<leftarrow> cstr (c_started c);
     finished \<leftarrow> cstr (c_finished c);
     log_path \<leftarrow> cstr (c_log_path c);
     rootfs_path \<leftarrow> cstr (c_rootfs_path c);
     Some
       [''{'',
        str_line ''id'' cid,
        str_line ''name'' name,
        str_line ''image'' img,
        str_line ''image_id'' image_id,
        str_line ''command'' command,
        str_line ''working_dir'' working_dir,
        str_line ''user'' user,
        str_line ''shell'' sh,
        str_line ''entrypoint'' entrypoint,
        str_line ''cmd'' cmd,
        str_line ''env_vars'' env_vars,
        str_line ''port_mappings'' port_mappings,
        str_line ''volume_mappings'' volume_mappings,
        str_line ''network_config'' network_config,
        int_line ''state'' (c_state c),
        int_line ''pid'' (c_pid c),
        str_line ''created'' created,
        str_line ''started'' started,
        str_line ''finished'' finished,
        int_line ''exit_code'' (c_exit_code c),
        str_line ''log_path'' log_path,
        str_line ''rootfs_path'' rootfs_path,
        int_line ''interactive'' (c_interactive c),
        int_line ''tty'' (c_tty c),
        int_line ''detach'' (c_detach c),
        int_line ''restart_policy'' (c_restart_policy c),
        int_line ''memory_limit'' (c_memory_limit c),
        int_line ''cpu_limit'' (c_cpu_limit c),
        ''  \"pid_limit\": '' @ dec_int (c_pid_limit c),
        ''}'']
   }"

definition write_container_metadata :: "os \<Rightarrow> container_info \<Rightarrow> world \<Rightarrow> (int \<times> world) option" where
  "write_container_metadata os c w = do {
     path \<leftarrow> cstr (c_config_path c);
     (if may_write os path w
      then container_lines c \<bind> (\<lambda>ls. Some (0, snd (write_file os path (file_text ls) w)))
      else Some (- 1, w))
   }"

text \<open>The body of the reading loop: the first key found decides which field is scanned.\<close>

definition container_line :: "container_info \<Rightarrow> string \<Rightarrow> container_info option" where
  "container_line c line =
     (if contains line (quoted ''id'') then
        map_option (\<lambda>b. c\<lparr>c_id := b\<rparr>) (scan_str_into (sscanf line (str_fmt ''id'')) (c_id c))
      else if contains line (quoted ''name'') then
        map_option (\<lambda>b. c\<lparr>c_name := b\<rparr>) (scan_str_into (sscanf line (str_fmt ''name'')) (c_name c))
      else if contains line (quoted ''image'') then
        map_option (\<lambda>b. c\<lparr>c_image := b\<rparr>) (scan_str_into (sscanf line (str_fmt ''image'')) (c_image c))
      else if contains line (quoted ''command'') then
        map_option (\<lambda>b. c\<lparr>c_command := b\<rparr>) (scan_str_into (sscanf line (str_fmt ''command'')) (c_command c))
      else if contains line (quoted ''state'') then
        map_option (\<lambda>n. c\<lparr>c_state := n\<rparr>) (scan_int_into (sscanf line (int_fmt ''state'')) (c_state c))
      else if contains line (quoted ''pid'') then
        map_option (\<lambda>n. c\<lparr>c_pid := n\<rparr>) (scan_int_into (sscanf line (int_fmt ''pid'')) (c_pid c))
      else if contains line (quoted ''created'') then
        map_option (\<lambda>b. c\<lparr>c_created := b\<rparr>) (scan_str_into (sscanf line (str_fmt ''created'')) (c_created c))
      else if contains line (quoted ''started'') then
        map_option (\<lambda>b. c\<lparr>c_started := b\<rparr>) (scan_str_into (sscanf line (str_fmt ''started'')) (c_started c))
      else if contains line (quoted ''finished'') then
        map_option (\<lambda>b. c\<lparr>c_finished := b\<rparr>) (scan_str_into (sscanf line (str_fmt ''finished'')) (c_finished c))
      else if contains line (quoted ''exit_code'') then
        map_option (\<lambda>n. c\<lparr>c_exit_code := n\<rparr>) (scan_int_into (sscanf line (int_fmt ''exit_code'')) (c_exit_code c))
      else Some c)"

definition read_container_metadata ::
  "os \<Rightarrow> string \<Rightarrow> container_info \<Rightarrow> world \<Rightarrow> (int \<times> container_info) option" where
  "read_container_metadata os cid c w =
     (case read_file os (container_metadata_path cid) w of
        None \<Rightarrow> Some (- 1, c)
      | Some s \<Rightarrow> each_line container_line c (fgets_lines 1024 s) \<bind> (\<lambda>c'. Some (0, c')))"

section \<open>Creating a container\<close>

text \<open>\<open>p ? p : d\<close> on a pointer that may be null.\<close>

definition or_default :: "string option \<Rightarrow> string \<Rightarrow> string" where
  "or_default p d = (case p of None \<Rightarrow> d | Some s \<Rightarrow> s)"

definition create_container ::
  "os \<Rightarrow> string option \<Rightarrow> string \<Rightarrow> string option \<Rightarrow> string option \<Rightarrow> string option \<Rightarrow> string option \<Rightarrow>
   string option \<Rightarrow> int \<Rightarrow> int \<Rightarrow> int \<Rightarrow> world \<Rightarrow> (int \<times> world) option" where
  "create_container os name img command working_dir env_vars port_mappings volume_mappings
     interactive tty detach w = do {
     let (cid, w1) = generate_container_id os w;
     idb \<leftarrow> strcpy (zbuf 64) cid;
     let (now, w2) = time_now os w1;
     let container_path = get_container_full_path cid;
     let rootfs = snprintf 512 (container_path @ ''/rootfs'');
     let c = zero_container
       \<lparr>c_id := idb,
        c_name := strncpy_sz (zbuf 256) (or_default name cid),
        c_image := strncpy_sz (zbuf 256) img,
        c_command := strncpy_sz (zbuf 1024) (or_default command []),
        c_working_dir := strncpy_sz (zbuf 512) (or_default working_dir ''/''),
        c_env_vars := strncpy_sz (zbuf 512) (or_default env_vars []),
        c_port_mappings := strncpy_sz (zbuf 64) (or_default port_mappings []),
        c_volume_mappings := strncpy_sz (zbuf 256) (or_default volume_mappings []),
        c_state := state_code CONTAINER_STATE_CREATED,
        c_interactive := interactive, c_tty := tty, c_detach := detach,
        c_created := snprintf_buf (zbuf 32) (dec_int (sint now)),
        c_rootfs_path := snprintf_buf (zbuf 512) (container_path @ ''/rootfs''),
        c_log_path := snprintf_buf (zbuf 512) (CONTAINER_LOG_DIR @ ''/'' @ cid @ ''.log''),
        c_config_path := snprintf_buf (zbuf 512) (CONTAINER_METADATA_DIR @ ''/'' @ cid @ ''.json'')\<rparr>;
     let (e1, w3) = mkdir os container_path w2;
     (if e1 \<noteq> None \<and> e1 \<noteq> Some EEXIST then Some (- 1, w3)
      else
        let (e2, w4) = mkdir os rootfs w3 in
        if e2 \<noteq> None \<and> e2 \<noteq> Some EEXIST then Some (- 1, w4)
        else write_container_metadata os c w4 \<bind>
               (\<lambda>(r, w5). if r \<noteq> 0 then Some (- 1, w5) else Some (0, w5)))
   }"

section \<open>Running and stopping\<close>

text \<open>
  \<open>start_container\<close>. The stack variable \<open>container\<close> starts as \<open>g\<close>; the metadata
  file fills ten of its fields, the others keep what \<open>g\<close> held. The child gets a copy of the
  memory, so nothing it does changes the parent's record.
\<close>

definition start_container :: "os \<Rightarrow> container_info \<Rightarrow> string \<Rightarrow> world \<Rightarrow> (int \<times> world) option" where
  "start_container os g cid w =
     (if \<not> container_exists cid w then Some (- 1, w)
      else read_container_metadata os cid g w \<bind> (\<lambda>(r, c).
        if r \<noteq> 0 then Some (- 1, w)
        else if c_state c = state_code CONTAINER_STATE_RUNNING then Some (- 1, w)
        else let (ok, w1) = malloc os w in
          if \<not> ok then Some (- 1, w1)
          else let (child_pid, w2) = clone os w1 in
            if child_pid = - 1 then Some (- 1, w2)
            else let (now, w3) = time_now os w2;
                     c1 = c\<lparr>c_pid := child_pid, c_state := state_code CONTAINER_STATE_RUNNING,
                            c_started := snprintf_buf (c_started c) (dec_int (sint now))\<rparr>
              in write_container_metadata os c1 w3 \<bind> (\<lambda>(r1, w4).
                if r1 \<noteq> 0 then kill os child_pid SIGKILL w4 \<bind> (\<lambda>(_, w5). Some (- 1, w5))
                else if c_detach c1 \<noteq> 0 then Some (0, w4)
                else waitpid os child_pid w4 \<bind> (\<lambda>(st, w5).
                  st \<bind> (\<lambda>status.
                    let (fin, w6) = time_now os w5;
                        c2 = c1\<lparr>c_state := state_code CONTAINER_STATE_EXITED,
                                c_exit_code := wexitstatus status,
                                c_finished := snprintf_buf (c_finished c1) (dec_int (sint fin))\<rparr>
                    in write_container_metadata os c2 w6 \<bind> (\<lambda>(_, w7). Some (0, w7)))))))"





definition stop_container :: "os \<Rightarrow> container_info \<Rightarrow> string \<Rightarrow> world \<Rightarrow> (int \<times> world) option" where
  "stop_container os g cid w =
     (if \<not> container_exists cid w then Some (- 1, w)
      else read_container_metadata os cid g w \<bind> (\<lambda>(r, c).
        if r \<noteq> 0 then Some (- 1, w)
        else if c_state c \<noteq> state_code CONTAINER_STATE_RUNNING then Some (- 1, w)
        else kill os (c_pid c) SIGTERM w \<bind> (\<lambda>(k, w1).
          if k \<noteq> 0 then Some (- 1, w1)
          else waitpid os (c_pid c) w1 \<bind> (\<lambda>(st, w2).
            case st of
              None \<Rightarrow> Some (- 1, w2)
            | Some status \<Rightarrow>
                let (now, w3) = time_now os w2;
                    c1 = c\<lparr>c_state := state_code CONTAINER_STATE_EXITED,
                           c_exit_code := wexitstatus status,
                           c_finished := snprintf_buf (c_finished c) (dec_int (sint now))\<rparr>
                in write_container_metadata os c1 w3 \<bind>
                     (\<lambda>(r1, w4). if r1 \<noteq> 0 then Some (- 1, w4) else Some (0, w4))))))"

definition restart_container ::
  "os \<Rightarrow> container_info \<Rightarrow> container_info \<Rightarrow> string \<Rightarrow> world \<Rightarrow> (int \<times> world) option" where
  "restart_container os g1 g2 cid w =
     stop_container os g1 cid w \<bind>
       (\<lambda>(r, w1). if r \<noteq> 0 then Some (- 1, w1) else start_container os g2 cid w1)"

definition remove_container :: "os \<Rightarrow> container_info \<Rightarrow> string \<Rightarrow> world \<Rightarrow> (int \<times> world) option" where
  "remove_container os g cid w =
     (if \<not> container_exists cid w then Some (- 1, w)
      else read_container_metadata os cid g w \<bind> (\<lambda>(r, c).
        if r \<noteq> 0 then Some (- 1, w)
        else if c_state c = state_code CONTAINER_STATE_RUNNING then Some (- 1, w)
        else let container_path = get_container_full_path cid;
                 (rc, w1) = system os (snprintf 1024 (''rm -rf '' @ container_path)) w
          in if rc \<noteq> 0 then Some (- 1, w1)
             else cstr (c_config_path c) \<bind> (\<lambda>config_path.
               let (e1, w2) = unlink os config_path w1
               in if e1 \<noteq> None then Some (- 1, w2)
                  else cstr (c_log_path c) \<bind> (\<lambda>log_path.
                    let (e2, w3) = unlink os log_path w2
                    in if e2 \<noteq> None \<and> e2 \<noteq> Some ENOENT then Some (- 1, w3) else Some (0, w3)))))"

section \<open>Listing\<close>

text \<open>
  The second pass of \<open>list_containers\<close>: for each entry whose name holds \<open>.json\<close> the part
  before the first dot is scanned into a 64-byte array (\<open>gid\<close> before the call) and the metadata
  is read into the next array element (\<open>gs k\<close> before the call).
\<close>

fun list_containers_loop ::
  "os \<Rightarrow> (nat \<Rightarrow> buf) \<Rightarrow> (nat \<Rightarrow> container_info) \<Rightarrow> world \<Rightarrow> nat \<Rightarrow> string list \<Rightarrow> container_info list \<Rightarrow>
   container_info list option" where
  "list_containers_loop os gid gs w n [] acc = Some acc"
| "list_containers_loop os gid gs w n (e # es) acc =
     (if contains e ''.json'' then do {
        b \<leftarrow> scan_str_into (sscanf e ''%[^.].json'') (gid n);
        cid \<leftarrow> cstr b;
        (r, c) \<leftarrow> read_container_metadata os cid (gs (length acc)) w;
        list_containers_loop os gid gs w (Suc n) es (if r = 0 then acc @ [c] else acc)
      }
      else list_containers_loop os gid gs w (Suc n) es acc)"

text \<open>The inner \<open>None\<close> is the null pointer.\<close>

definition list_containers ::
  "os \<Rightarrow> (nat \<Rightarrow> buf) \<Rightarrow> (nat \<Rightarrow> container_info) \<Rightarrow> world \<Rightarrow> (container_info list option \<times> world) option" where
  "list_containers os gid gs w =
     (let (ok, w1) = malloc os w in
      if \<not> ok then Some (None, w1)
      else case read_dir os CONTAINER_METADATA_DIR w1 of
        None \<Rightarrow> Some (None, w1)
      | Some names \<Rightarrow>
          if length (filter (\<lambda>e. contains e ''.json'') names) = 0 then Some (Some [], w1)
          else let (ok2, w2) = malloc os w1 in
            if \<not> ok2 then Some (None, w2)
            else list_containers_loop os gid gs w2 0 names [] \<bind> (\<lambda>cs. Some (Some cs, w2)))"

definition get_container_info ::
  "os \<Rightarrow> container_info \<Rightarrow> string \<Rightarrow> world \<Rightarrow> (container_info option \<times> world) option" where
  "get_container_info os g cid w =
     (let (ok, w1) = malloc os w in
      if \<not> ok then Some (None, w1)
      else read_container_metadata os cid g w1 \<bind>
             (\<lambda>(r, c). Some (if r \<noteq> 0 then None else Some c, w1)))"

definition is_container_running :: "os \<Rightarrow> container_info \<Rightarrow> string \<Rightarrow> world \<Rightarrow> bool option" where
  "is_container_running os g cid w =
     read_container_metadata os cid g w \<bind>
       (\<lambda>(r, c). Some (if r \<noteq> 0 then False else c_state c = state_code CONTAINER_STATE_RUNNING))"

definition cleanup_container_system :: "os \<Rightarrow> world \<Rightarrow> int \<times> world" where
  "cleanup_container_system os w =
     (let (r, w1) = system os (snprintf 1024 (''rm -rf '' @
            unwords [CONTAINER_STORAGE_DIR, CONTAINER_METADATA_DIR, CONTAINER_LOG_DIR])) w
      in if r \<noteq> 0 then (- 1, w1) else (0, w1))"

section \<open>Reading back what was written\<close>

definition container_keys :: "string list" where
  "container_keys = [''id'', ''name'', ''image'', ''command'', ''state'', ''pid'', ''created'', ''started'',
     ''finished'', ''exit_code'']"

lemma container_keys_plain: "\<forall>k \<in> set container_keys. plain_key k"
  by (simp add: container_keys_def plain_key_def isspace_def)

interpretation cr: keyed_reader container_line container_keys
proof unfold_locales
  show "container_line s l = Some s" if "\<forall>k \<in> set container_keys. \<not> contains l (quoted k)" for s l
    using that by (simp add: container_line_def container_keys_def)
qed (rule container_keys_plain)

text \<open>What a scanned value leaves in an array: an empty value scans nothing.\<close>

definition refill :: "buf \<Rightarrow> string \<Rightarrow> buf" where
  "refill b v = (if v = [] then b else v @ NUL # drop (Suc (length v)) b)"

lemma scan_refill:
  assumes "plain_key k" "clean v" "length v < length b"
  shows "scan_str_into (sscanf (str_line k v @ [LF]) (str_fmt k)) b = Some (refill b v)"
proof (cases "v = []")
  case True
  have p: "parse_fmt (str_fmt k) = [Space, Space, Lit DQ] @ map Lit k @ [Lit DQ, Lit (CHR '':''), Space, Lit DQ, NotIn DQ, Lit DQ]"
    using parse_fmt_lits [OF plain_key_facts(4) [OF assms(1)], of "''\": \"%[^\"]\"''"]
    by (simp add: str_fmt_def isspace_def)
  have "sscanf (str_line k v @ [LF]) (str_fmt k) = []"
    by (simp add: sscanf_def p str_line_def isspace_def True scan_lits)
  then show ?thesis using True by (simp add: scan_str_into_def refill_def)
next
  case False
  then show ?thesis
    using assms(3) by (simp add: scan_str_line [OF assms(1,2)] scan_str_into_def refill_def strcpy_def)
qed

lemma cstr_refill: "clean v \<Longrightarrow> v \<noteq> [] \<Longrightarrow> cstr (refill b v) = Some v"
  by (simp add: refill_def cstr_string clean_def)

lemma length_refill: "length v < length b \<Longrightarrow> length (refill b v) = length b"
  by (auto simp: refill_def)

text \<open>A value that is routed to its own field: clean, and not spelled like a key.\<close>

definition tidy :: "string \<Rightarrow> bool" where
  "tidy v \<longleftrightarrow> clean v \<and> v \<notin> set container_keys \<and> length v \<le> 990"

lemma plain_literals [simp]:
  "plain_key ''id''" "plain_key ''name''" "plain_key ''image''" "plain_key ''command''" "plain_key ''state''"
  "plain_key ''pid''" "plain_key ''created''" "plain_key ''started''" "plain_key ''finished''"
  "plain_key ''exit_code''" "plain_key ''image_id''" "plain_key ''working_dir''" "plain_key ''user''"
  "plain_key ''shell''" "plain_key ''entrypoint''" "plain_key ''cmd''" "plain_key ''env_vars''"
  "plain_key ''port_mappings''" "plain_key ''volume_mappings''" "plain_key ''network_config''"
  "plain_key ''log_path''" "plain_key ''rootfs_path''" "plain_key ''interactive''" "plain_key ''tty''"
  "plain_key ''detach''" "plain_key ''restart_policy''" "plain_key ''memory_limit''" "plain_key ''cpu_limit''"
  by (simp_all add: plain_key_def isspace_def)

lemma key_literals [simp]:
  "''id'' \<in> set container_keys" "''name'' \<in> set container_keys" "''image'' \<in> set container_keys"
  "''command'' \<in> set container_keys" "''state'' \<in> set container_keys" "''pid'' \<in> set container_keys"
  "''created'' \<in> set container_keys" "''started'' \<in> set container_keys" "''finished'' \<in> set container_keys"
  "''exit_code'' \<in> set container_keys"
  by (simp_all add: container_keys_def)

lemma contains_key_line:
  assumes "plain_key k" "q \<in> set container_keys"
  shows "tidy v \<Longrightarrow> contains (str_line k v @ [LF]) (quoted q) \<longleftrightarrow> q = k"
    "contains (int_line k n @ [LF]) (quoted q) \<longleftrightarrow> q = k"
proof -
  have p: "plain_key q" using assms(2) container_keys_plain by blast
  have "\<not> plain_key '': ''" by (simp add: plain_key_def isspace_def)
  then have "q \<noteq> '': ''" using p by blast
  then show "tidy v \<Longrightarrow> contains (str_line k v @ [LF]) (quoted q) \<longleftrightarrow> q = k"
    using contains_str_line [OF assms(1) _ plain_key_facts(1) [OF p]] assms(2) by (auto simp: tidy_def)
  show "contains (int_line k n @ [LF]) (quoted q) \<longleftrightarrow> q = k"
    using contains_int_line [OF assms(1) plain_key_facts(1) [OF p]] by blast
qed

lemma tidy_clean: "tidy v \<Longrightarrow> clean v"
  by (simp add: tidy_def)

lemma container_line_str:
  assumes "tidy v"
  shows "length v < length (c_id c) \<Longrightarrow>
      container_line c (str_line ''id'' v @ [LF]) = Some (c\<lparr>c_id := refill (c_id c) v\<rparr>)"
    "length v < length (c_name c) \<Longrightarrow>
      container_line c (str_line ''name'' v @ [LF]) = Some (c\<lparr>c_name := refill (c_name c) v\<rparr>)"
    "length v < length (c_image c) \<Longrightarrow>
      container_line c (str_line ''image'' v @ [LF]) = Some (c\<lparr>c_image := refill (c_image c) v\<rparr>)"
    "length v < length (c_command c) \<Longrightarrow>
      container_line c (str_line ''command'' v @ [LF]) = Some (c\<lparr>c_command := refill (c_command c) v\<rparr>)"
    "length v < length (c_created c) \<Longrightarrow>
      container_line c (str_line ''created'' v @ [LF]) = Some (c\<lparr>c_created := refill (c_created c) v\<rparr>)"
    "length v < length (c_started c) \<Longrightarrow>
      container_line c (str_line ''started'' v @ [LF]) = Some (c\<lparr>c_started := refill (c_started c) v\<rparr>)"
    "length v < length (c_finished c) \<Longrightarrow>
      container_line c (str_line ''finished'' v @ [LF]) = Some (c\<lparr>c_finished := refill (c_finished c) v\<rparr>)"
  using assms by (simp_all add: container_line_def contains_key_line scan_refill tidy_clean)

lemma container_line_int:
  assumes "fits_int n"
  shows "container_line c (int_line ''state'' n @ [LF]) = Some (c\<lparr>c_state := n\<rparr>)"
    "container_line c (int_line ''pid'' n @ [LF]) = Some (c\<lparr>c_pid := n\<rparr>)"
    "container_line c (int_line ''exit_code'' n @ [LF]) = Some (c\<lparr>c_exit_code := n\<rparr>)"
  using assms by (simp_all add: container_line_def contains_key_line scan_int_line scan_int_into_def)

lemma other_keys [simp]:
  "''image_id'' \<notin> set container_keys" "''working_dir'' \<notin> set container_keys" "''user'' \<notin> set container_keys"
  "''shell'' \<notin> set container_keys" "''entrypoint'' \<notin> set container_keys" "''cmd'' \<notin> set container_keys"
  "''env_vars'' \<notin> set container_keys" "''port_mappings'' \<notin> set container_keys"
  "''volume_mappings'' \<notin> set container_keys" "''network_config'' \<notin> set container_keys"
  "''log_path'' \<notin> set container_keys" "''rootfs_path'' \<notin> set container_keys"
  "''interactive'' \<notin> set container_keys" "''tty'' \<notin> set container_keys" "''detach'' \<notin> set container_keys"
  "''restart_policy'' \<notin> set container_keys" "''memory_limit'' \<notin> set container_keys"
  "''cpu_limit'' \<notin> set container_keys"
  by (simp_all add: container_keys_def)

lemma container_line_skip:
  "tidy v \<Longrightarrow> plain_key k \<Longrightarrow> k \<notin> set container_keys \<Longrightarrow> container_line c (str_line k v @ [LF]) = Some c"
  "plain_key k \<Longrightarrow> k \<notin> set container_keys \<Longrightarrow> container_line c (int_line k n @ [LF]) = Some c"
  by (auto intro: cr.skip_str_line cr.skip_int_line simp: tidy_def)

lemma container_line_last: "container_line c (''  \"pid_limit\": '' @ dec_int n @ [LF]) = Some c"
proof (rule cr.skip, rule ballI)
  fix q assume q: "q \<in> set container_keys"
  then have p: "DQ \<notin> set q" "q \<noteq> ''pid_limit''"
    using container_keys_plain plain_key_facts(1) by (auto simp: container_keys_def)
  have l: "''  \"pid_limit\": '' @ dec_int n @ [LF] = ''  '' @ DQ # ''pid_limit'' @ DQ # '': '' @ dec_int n @ [LF]"
    by simp
  have d: "DQ \<notin> set ''  ''" "DQ \<notin> set ''pid_limit''" "DQ \<notin> set ('': '' @ dec_int n @ [LF])" by simp_all
  show "\<not> contains (''  \"pid_limit\": '' @ dec_int n @ [LF]) (quoted q)"
    unfolding l contains_quoted_cons [OF d(1,2) p(1)] using contains_quoted_last [OF d(2,3) p(1)] p(2) by blast
qed

lemma length_dec_nat: "n < 10 ^ Suc k \<Longrightarrow> length (dec_nat n) \<le> Suc k"
proof (induction k arbitrary: n)
  case 0
  then show ?case by (simp add: dec_nat.simps)
next
  case (Suc k)
  then have "n div 10 < 10 ^ Suc k" by (simp add: less_mult_imp_div_less mult.commute)
  then show ?case using Suc.IH [of "n div 10"] by (subst dec_nat.simps) auto
qed

lemma length_dec_int: "fits_int n \<Longrightarrow> length (dec_int n) \<le> 11"
  using length_dec_nat [of "nat n" 9] length_dec_nat [of "nat (- n)" 9]
  by (auto simp: dec_int_def fits_int_def nat_less_iff)

lemma short_lines:
  "tidy v \<Longrightarrow> plain_key k \<Longrightarrow> length k \<le> 20 \<Longrightarrow> length (str_line k v) \<le> 1022"
  "fits_int n \<Longrightarrow> plain_key k \<Longrightarrow> length k \<le> 20 \<Longrightarrow> length (int_line k n) \<le> 1022"
  "tidy v \<Longrightarrow> plain_key k \<Longrightarrow> LF \<notin> set (str_line k v)" "plain_key k \<Longrightarrow> LF \<notin> set (int_line k n)"
  using length_dec_int [of n] plain_key_facts(2) [of k]
  by (auto simp: str_line_def int_line_def tidy_def clean_def)

section \<open>The record read back\<close>

text \<open>All arrays terminated, with tidy contents; all numbers within \<open>int\<close>.\<close>

definition tidy_buf :: "buf \<Rightarrow> bool" where
  "tidy_buf b \<longleftrightarrow> (case cstr b of None \<Rightarrow> False | Some v \<Rightarrow> tidy v)"

definition str :: "buf \<Rightarrow> string" where
  "str b = (case cstr b of None \<Rightarrow> [] | Some v \<Rightarrow> v)"

definition container_bufs :: "container_info \<Rightarrow> buf list" where
  "container_bufs c = [c_id c, c_name c, c_image c, c_image_id c, c_command c, c_working_dir c, c_user c, c_shell c,
     c_entrypoint c, c_cmd c, c_env_vars c, c_port_mappings c, c_volume_mappings c, c_network_config c,
     c_created c, c_started c, c_finished c, c_log_path c, c_rootfs_path c]"

definition container_ints :: "container_info \<Rightarrow> int list" where
  "container_ints c = [c_state c, c_pid c, c_exit_code c, c_interactive c, c_tty c, c_detach c, c_restart_policy c,
     c_memory_limit c, c_cpu_limit c, c_pid_limit c]"

definition tidy_container :: "container_info \<Rightarrow> bool" where
  "tidy_container c \<longleftrightarrow> list_all tidy_buf (container_bufs c) \<and> list_all fits_int (container_ints c)"

text \<open>The arrays that the reader fills have the sizes of the declaration.\<close>

definition sized :: "container_info \<Rightarrow> bool" where
  "sized c \<longleftrightarrow>
     length (c_id c) = 64 \<and> length (c_name c) = 256 \<and> length (c_image c) = 256 \<and> length (c_command c) = 1024 \<and>
     length (c_created c) = 32 \<and> length (c_started c) = 32 \<and> length (c_finished c) = 32"

text \<open>The record \<open>g\<close> after reading the file of \<open>c\<close>: ten fields come from the file.\<close>

definition reload :: "container_info \<Rightarrow> container_info \<Rightarrow> container_info" where
  "reload g c = g\<lparr>c_id := refill (c_id g) (str (c_id c)), c_name := refill (c_name g) (str (c_name c)),
     c_image := refill (c_image g) (str (c_image c)), c_command := refill (c_command g) (str (c_command c)),
     c_state := c_state c, c_pid := c_pid c, c_created := refill (c_created g) (str (c_created c)),
     c_started := refill (c_started g) (str (c_started c)),
     c_finished := refill (c_finished g) (str (c_finished c)), c_exit_code := c_exit_code c\<rparr>"

lemma tidy_bufD: "tidy_buf b \<Longrightarrow> cstr b = Some (str b)" "tidy_buf b \<Longrightarrow> tidy (str b)"
  "tidy_buf b \<Longrightarrow> length (str b) < length b"
  by (auto simp: tidy_buf_def str_def cstr_length split: option.splits)

lemma read_container_text:
  assumes "tidy_container c" "sized c" "sized g"
  obtains ls where "container_lines c = Some ls"
    "each_line container_line g (fgets_lines 1024 (file_text ls)) = Some (reload g c)"
proof -
  note t = assms(1) [unfolded tidy_container_def container_bufs_def container_ints_def, simplified]
  define ls where "ls = the (container_lines c)"
  have ls: "container_lines c = Some ls" using t by (simp add: container_lines_def ls_def tidy_bufD)
  have short: "\<forall>l \<in> set ls. LF \<notin> set l \<and> length l + 2 \<le> 1024"
    using t length_dec_int [of "c_pid_limit c"] dec_int_clean(3) [of "c_pid_limit c"]
    by (simp add: ls_def container_lines_def tidy_bufD short_lines)
  have cl: "c_line (''{'' @ [LF]) = ''{'' @ [LF]" "c_line (''}'' @ [LF]) = ''}'' @ [LF]"
    "c_line (''  \"pid_limit\": '' @ dec_int n @ [LF]) = ''  \"pid_limit\": '' @ dec_int n @ [LF]" for n
    using dec_int_clean(1) [of n] by (auto simp: c_line_def no_nul_def takeWhile_eq_all_conv)
  have "each_line container_line g (map (\<lambda>l. l @ [LF]) ls) = Some (reload g c)"
    using t assms(2,3) tidy_bufD(3) [of "c_id c"] tidy_bufD(3) [of "c_name c"] tidy_bufD(3) [of "c_image c"]
      tidy_bufD(3) [of "c_command c"] tidy_bufD(3) [of "c_created c"] tidy_bufD(3) [of "c_started c"]
      tidy_bufD(3) [of "c_finished c"]
    by (simp add: ls_def container_lines_def tidy_bufD tidy_clean c_line_lines cl [simplified] cr.skip_brace [simplified]
        container_line_str container_line_int container_line_skip container_line_last [simplified] sized_def reload_def)
  then show thesis using that [OF ls] by (simp add: fgets_lines_file_text [OF short])
qed

lemma write_then_read:
  assumes "tidy_container c" "sized c" "sized g"
    and "cstr (c_config_path c) = Some (container_metadata_path cid)"
    and "may_write os (container_metadata_path cid) w" "\<not> deny_read os (container_metadata_path cid)"
  shows "\<exists>w'. write_container_metadata os c w = Some (0, w') \<and>
              read_container_metadata os cid g w' = Some (0, reload g c)"
proof -
  obtain ls where ls: "container_lines c = Some ls"
    "each_line container_line g (fgets_lines 1024 (file_text ls)) = Some (reload g c)"
    using read_container_text [OF assms(1-3)] by blast
  let ?w = "snd (write_file os (container_metadata_path cid) (file_text ls) w)"
  have "write_container_metadata os c w = Some (0, ?w)"
    using assms(4,5) by (simp add: write_container_metadata_def ls(1))
  moreover have "read_container_metadata os cid g ?w = Some (0, reload g c)"
    using assms(5,6) by (simp add: read_container_metadata_def read_file_def write_file_def fs_simps ls(2))
  ultimately show ?thesis by blast
qed

section \<open>What an operation leaves alone\<close>

lemma container_line_frame:
  "container_line c l = Some c' \<Longrightarrow>
   c_config_path c' = c_config_path c \<and> c_log_path c' = c_log_path c \<and> c_rootfs_path c' = c_rootfs_path c \<and>
   c_detach c' = c_detach c"
  by (auto simp: container_line_def split: if_split_asm)

lemma each_line_frame:
  "each_line container_line c ls = Some c' \<Longrightarrow>
   c_config_path c' = c_config_path c \<and> c_log_path c' = c_log_path c \<and> c_rootfs_path c' = c_rootfs_path c \<and>
   c_detach c' = c_detach c"
  by (induction ls arbitrary: c) (auto simp: bind_Some_iff dest!: container_line_frame)

lemma read_frame:
  "read_container_metadata os cid g w = Some (r, c) \<Longrightarrow>
   c_config_path c = c_config_path g \<and> c_log_path c = c_log_path g \<and> c_rootfs_path c = c_rootfs_path g \<and>
   c_detach c = c_detach g"
  by (auto simp: read_container_metadata_def bind_Some_iff split: option.splits dest!: each_line_frame)

lemma read_cong: "lookup w' (container_metadata_path cid) = lookup w (container_metadata_path cid) \<Longrightarrow>
  read_container_metadata os cid g w' = read_container_metadata os cid g w"
  by (simp add: read_container_metadata_def read_file_def)

lemma write_metadata_frame:
  assumes "write_container_metadata os c w = Some (r, w')"
  obtains p where "cstr (c_config_path c) = Some p" "\<And>q. q \<noteq> p \<Longrightarrow> lookup w' q = lookup w q"
    "clones w' = clones w" "signals w' = signals w" "children w' = children w"
  using assms
  by (auto simp: write_container_metadata_def bind_Some_iff write_file_def fs_simps frame_simps split: if_split_asm)

text \<open>Each primitive step, as an elimination of its equation.\<close>

lemma step_dests:
  "time_now os w = (t, w') \<Longrightarrow>
     (\<forall>q. lookup w' q = lookup w q) \<and> clones w' = clones w \<and> signals w' = signals w \<and> children w' = children w"
  "malloc os w = (b, w') \<Longrightarrow>
     (\<forall>q. lookup w' q = lookup w q) \<and> clones w' = clones w \<and> signals w' = signals w \<and> children w' = children w"
  "clone os w = (p, w') \<Longrightarrow>
     (\<forall>q. lookup w' q = lookup w q) \<and> clones w' = Suc (clones w) \<and> signals w' = signals w"
  "kill os pid sig w = Some (k, w') \<Longrightarrow>
     (\<forall>q. lookup w' q = lookup w q) \<and> clones w' = clones w \<and>
     (signals w' = signals w \<or> signals w' = signals w @ [(pid, sig)])"
  "waitpid os pid w = Some (st, w') \<Longrightarrow>
     (\<forall>q. lookup w' q = lookup w q) \<and> clones w' = clones w \<and> signals w' = signals w"
  by (auto simp: time_now_def malloc_def clone_def kill_def waitpid_def Let_def fs_simps split: if_split_asm)

lemma write_metadata_dest:
  "write_container_metadata os c w = Some (r, w') \<Longrightarrow>
   \<exists>p. cstr (c_config_path c) = Some p \<and> (\<forall>q. q \<noteq> p \<longrightarrow> lookup w' q = lookup w q) \<and>
       clones w' = clones w \<and> signals w' = signals w \<and> children w' = children w"
  by (auto simp: write_container_metadata_def bind_Some_iff write_file_def fs_simps frame_simps split: if_split_asm)

text \<open>What the lifecycle operations can do to the world, path by path.\<close>

lemma start_effects:
  assumes "start_container os g cid w = Some (r, w')" "cstr (c_config_path g) = Some p"
  shows "(\<forall>q. q \<noteq> p \<longrightarrow> lookup w' q = lookup w q) \<and>
    (clones w' = clones w \<and> signals w' = signals w \<and> r = - 1 \<or>
     clones w' = Suc (clones w) \<and> container_exists cid w \<and>
     (\<exists>c. read_container_metadata os cid g w = Some (0, c) \<and> c_state c \<noteq> state_code CONTAINER_STATE_RUNNING))"
proof -
  have "run_ok (start_container os g cid w) (\<lambda>(r, w').
    (\<forall>q. q \<noteq> p \<longrightarrow> lookup w' q = lookup w q) \<and>
    (clones w' = clones w \<and> signals w' = signals w \<and> r = - 1 \<or>
     clones w' = Suc (clones w) \<and> container_exists cid w \<and>
     (\<exists>c. read_container_metadata os cid g w = Some (0, c) \<and> c_state c \<noteq> state_code CONTAINER_STATE_RUNNING)))"
    unfolding start_container_def Let_def run_simps
    using assms(2) by (auto dest: read_frame dest!: step_dests write_metadata_dest)
  then show ?thesis using assms(1) by (auto simp: run_ok_def)
qed

lemma stop_effects:
  assumes "stop_container os g cid w = Some (r, w')" "cstr (c_config_path g) = Some p"
  shows "(\<forall>q. q \<noteq> p \<longrightarrow> lookup w' q = lookup w q) \<and> clones w' = clones w \<and>
    (signals w' = signals w \<or>
     container_exists cid w \<and>
     (\<exists>c. read_container_metadata os cid g w = Some (0, c) \<and> c_state c = state_code CONTAINER_STATE_RUNNING \<and>
          signals w' = signals w @ [(c_pid c, SIGTERM)]))"
proof -
  have "run_ok (stop_container os g cid w) (\<lambda>(r, w').
    (\<forall>q. q \<noteq> p \<longrightarrow> lookup w' q = lookup w q) \<and> clones w' = clones w \<and>
    (signals w' = signals w \<or>
     container_exists cid w \<and>
     (\<exists>c. read_container_metadata os cid g w = Some (0, c) \<and> c_state c = state_code CONTAINER_STATE_RUNNING \<and>
          signals w' = signals w @ [(c_pid c, SIGTERM)])))"
    unfolding stop_container_def Let_def run_simps
    using assms(2) by (auto dest: read_frame dest!: step_dests write_metadata_dest)
  then show ?thesis using assms(1) by (auto simp: run_ok_def)
qed

lemma start_refused:
  "\<not> container_exists cid w \<Longrightarrow> start_container os g cid w = Some (- 1, w)"
  "container_exists cid w \<Longrightarrow> read_container_metadata os cid g w = Some (0, c) \<Longrightarrow>
   c_state c = state_code CONTAINER_STATE_RUNNING \<Longrightarrow> start_container os g cid w = Some (- 1, w)"
  by (auto simp: start_container_def)

lemma stop_refused:
  "\<not> container_exists cid w \<Longrightarrow> stop_container os g cid w = Some (- 1, w)"
  "read_container_metadata os cid g w = Some (0, c) \<Longrightarrow> c_state c \<noteq> state_code CONTAINER_STATE_RUNNING \<Longrightarrow>
   stop_container os g cid w = Some (- 1, w)"
  by (auto simp: stop_container_def)

lemma remove_refused:
  "\<not> container_exists cid w \<Longrightarrow> remove_container os g cid w = Some (- 1, w)"
  "read_container_metadata os cid g w = Some (0, c) \<Longrightarrow> c_state c = state_code CONTAINER_STATE_RUNNING \<Longrightarrow>
   remove_container os g cid w = Some (- 1, w)"
  by (auto simp: remove_container_def)

section \<open>Identifiers\<close>

lemma unat_word32_less: "unat (x :: 32 word) < 16 ^ 8"
  using unsigned_less [of x] by simp

lemma halves_determine:
  assumes "(ucast a :: 32 word) = ucast (b :: 64 word)"
    "(ucast (signed_drop_bit 32 a) :: 32 word) = ucast (signed_drop_bit 32 b)"
  shows "a = b"
proof (rule bit_word_eqI)
  fix n assume n: "n < LENGTH(64)"
  show "bit a n = bit b n"
  proof (cases "n < 32")
    case True
    then have "bit (ucast a :: 32 word) n = bit (ucast b :: 32 word) n" using assms(1) by simp
    then show ?thesis using True by (simp add: bit_ucast_iff)
  next
    case False
    then have "bit (ucast (signed_drop_bit 32 a) :: 32 word) (n - 32) = bit (ucast (signed_drop_bit 32 b) :: 32 word) (n - 32)"
      using assms(2) by simp
    then show ?thesis using False n by (simp add: bit_ucast_iff bit_signed_drop_bit_iff split: if_splits)
  qed
qed

text \<open>
  Container identifiers are the creation second: two calls of \<open>generate_container_id\<close> give
  the same identifier exactly when the clock read the same time, and the identifier always fits its
  64-byte array.
\<close>

theorem container_id_injective:
  "(container_id_at a = container_id_at b \<longleftrightarrow> a = b) \<and> length (container_id_at a) = 21"
proof -
  have eq: "container_id_at x = ''cont_'' @ hex_pad 8 (unat (ucast x :: 32 word)) @
      hex_pad 8 (unat (ucast (signed_drop_bit 32 x) :: 32 word))" for x :: "64 word"
    by (simp add: container_id_at_def snprintf_id)
  have "a = b" if "container_id_at a = container_id_at b"
  proof -
    have "unat (ucast a :: 32 word) = unat (ucast b :: 32 word)"
      "unat (ucast (signed_drop_bit 32 a) :: 32 word) = unat (ucast (signed_drop_bit 32 b) :: 32 word)"
      using that unfolding eq
      by (simp_all add: append_eq_append_conv hex_pad_inj [OF unat_word32_less unat_word32_less])
    then show ?thesis by (intro halves_determine) (auto intro: unsigned_word_eqI)
  qed
  then show ?thesis by (auto simp: eq)
qed

section \<open>Creating, then looking\<close>

text \<open>A user value as \<open>create_container\<close> takes it: tidy and shorter than its array.\<close>

definition fits_in :: "nat \<Rightarrow> string \<Rightarrow> bool" where
  "fits_in n v \<longleftrightarrow> tidy v \<and> length v < n"

lemma strncpy_tidy: "fits_in n v \<Longrightarrow> tidy_buf (strncpy_sz (zbuf n) v) \<and> str (strncpy_sz (zbuf n) v) = v"
  using cstr_strncpy_sz [of n "zbuf n" v]
  by (cases "n = 0") (auto simp: fits_in_def tidy_def clean_def tidy_buf_def str_def)

lemma zbuf_tidy [simp]: "0 < n \<Longrightarrow> tidy_buf (zbuf n) \<and> str (zbuf n) = []"
  by (simp add: tidy_buf_def str_def cstr_zbuf tidy_def clean_def container_keys_def)

lemma snprintf_tidy:
  "tidy (snprintf n v) \<Longrightarrow> 0 < n \<Longrightarrow> no_nul v \<Longrightarrow>
   tidy_buf (snprintf_buf (zbuf n) v) \<and> str (snprintf_buf (zbuf n) v) = snprintf n v"
  using cstr_snprintf_buf [of "zbuf n" v] by (auto simp: tidy_buf_def str_def zbuf_def)

lemma hex_digit_char: "d < 16 \<Longrightarrow> hex_digit d \<notin> {DQ, LF, CR, NUL, CHR '' '', CHR ''/'', CHR ''.''}"
proof -
  assume "d < 16"
  then have "of_char (hex_digit d) \<ge> (48 :: nat)" by (simp add: of_char_hex_digit)
  then show ?thesis by auto
qed

lemma hex_pad_char:
  "c \<in> set (hex_pad k n) \<Longrightarrow> c \<notin> {DQ, LF, CR, NUL, CHR '' '', CHR ''/'', CHR ''.''}"
proof (induction k arbitrary: n)
  case 0
  then show ?case by simp
next
  case (Suc k)
  then consider "c \<in> set (hex_pad k (n div 16))" | "c = hex_digit (n mod 16)" by auto
  then show ?case
  proof cases
    case 1
    then show ?thesis by (rule Suc.IH)
  next
    case 2
    then show ?thesis using hex_digit_char [of "n mod 16"] by simp
  qed
qed

lemma hex_pad_chars: "DQ \<notin> set (hex_pad k n)" "LF \<notin> set (hex_pad k n)" "NUL \<notin> set (hex_pad k n)"
  "CHR ''/'' \<notin> set (hex_pad k n)" "CHR ''.'' \<notin> set (hex_pad k n)" "CHR '' '' \<notin> set (hex_pad k n)" "CR \<notin> set (hex_pad k n)"
  using hex_pad_char by blast+

lemma id_props:
  "length (container_id_at t) = 21" "clean (container_id_at t)" "prefix ''cont_'' (container_id_at t)"
  "CHR ''/'' \<notin> set (container_id_at t)" "CHR ''.'' \<notin> set (container_id_at t)"
  "CHR '' '' \<notin> set (container_id_at t)" "CR \<notin> set (container_id_at t)"
  using hex_pad_chars [of 8] by (auto simp: container_id_at_def snprintf_id clean_def no_nul_def)

lemma dir_names:
  "length CONTAINER_STORAGE_DIR = 22" "length CONTAINER_METADATA_DIR = 30" "length CONTAINER_LOG_DIR = 16"
  "clean CONTAINER_STORAGE_DIR" "clean CONTAINER_METADATA_DIR" "clean CONTAINER_LOG_DIR"
  by (simp_all add: CONTAINER_STORAGE_DIR_def CONTAINER_METADATA_DIR_def CONTAINER_LOG_DIR_def clean_def)

text \<open>The paths of a container, when its identifier is short enough not to be cut.\<close>

lemma container_paths:
  assumes "length i < 400"
  shows "container_metadata_path i = CONTAINER_METADATA_DIR @ ''/'' @ i @ ''.json''"
    "get_container_full_path i = CONTAINER_STORAGE_DIR @ ''/'' @ i"
  using assms dir_names
  by (auto simp: container_metadata_path_def get_container_full_path_def snprintf_id)

interpretation ck: keyed_files container_metadata_path CONTAINER_METADATA_DIR "\<lambda>i. length i < 400 \<and> CHR ''/'' \<notin> set i"
  by unfold_locales (simp add: container_paths)

definition calm :: "os \<Rightarrow> bool" where
  "calm os \<longleftrightarrow> (\<forall>p. \<not> deny os p \<and> \<not> deny_read os p)"

lemma key_has_letter: "k \<in> set container_keys \<Longrightarrow> \<exists>c \<in> set k. \<not> isdigit c \<and> c \<noteq> CHR ''-''"
  by (auto simp: container_keys_def isdigit_def)

lemma key_no_slash: "k \<in> set container_keys \<Longrightarrow> k \<noteq> [] \<and> hd k \<noteq> CHR ''/'' \<and> \<not> prefix ''cont_'' k"
  by (auto simp: container_keys_def)

lemma tidy_time: "tidy (snprintf 32 (dec_int n))"
proof -
  have "snprintf 32 (dec_int n) \<notin> set container_keys"
  proof
    assume "snprintf 32 (dec_int n) \<in> set container_keys"
    then obtain c where "c \<in> set (dec_int n)" "\<not> isdigit c" "c \<noteq> CHR ''-''"
      using key_has_letter by (metis in_set_takeD snprintf_def)
    then show False using dec_int_chars by blast
  qed
  moreover have "clean (snprintf 32 (dec_int n))"
    using dec_int_clean [of n] by (auto simp: clean_def snprintf_def dest: in_set_takeD)
  ultimately show ?thesis by (simp add: tidy_def snprintf_def)
qed

lemma tidy_path: "clean v \<Longrightarrow> prefix ''/'' v \<Longrightarrow> tidy (snprintf 512 v)"
  using key_no_slash [of "snprintf 512 v"]
  by (cases v) (auto simp: tidy_def clean_def snprintf_def dest: in_set_takeD)

lemma tidy_id: "tidy (container_id_at t)"
  using id_props [of t] key_no_slash [of "container_id_at t"] by (auto simp: tidy_def)

text \<open>The record that \<open>create_container\<close> fills in, by its inputs.\<close>

definition new_container ::
  "string \<Rightarrow> int \<Rightarrow> string \<Rightarrow> string \<Rightarrow> string \<Rightarrow> string \<Rightarrow> string \<Rightarrow> string \<Rightarrow> string \<Rightarrow> int \<Rightarrow> int \<Rightarrow> int \<Rightarrow> container_info" where
  "new_container cid now name img command wd env ports vols i t d = zero_container
       \<lparr>c_id := cid @ NUL # drop (Suc (length cid)) (zbuf 64),
        c_name := strncpy_sz (zbuf 256) name, c_image := strncpy_sz (zbuf 256) img,
        c_command := strncpy_sz (zbuf 1024) command, c_working_dir := strncpy_sz (zbuf 512) wd,
        c_env_vars := strncpy_sz (zbuf 512) env, c_port_mappings := strncpy_sz (zbuf 64) ports,
        c_volume_mappings := strncpy_sz (zbuf 256) vols, c_state := state_code CONTAINER_STATE_CREATED,
        c_interactive := i, c_tty := t, c_detach := d, c_created := snprintf_buf (zbuf 32) (dec_int now),
        c_rootfs_path := snprintf_buf (zbuf 512) (get_container_full_path cid @ ''/rootfs''),
        c_log_path := snprintf_buf (zbuf 512) (CONTAINER_LOG_DIR @ ''/'' @ cid @ ''.log''),
        c_config_path := snprintf_buf (zbuf 512) (CONTAINER_METADATA_DIR @ ''/'' @ cid @ ''.json'')\<rparr>"

lemma new_container_tidy:
  assumes "cid = container_id_at tm" "fits_in 256 name" "fits_in 256 img" "fits_in 991 command"
    "fits_in 512 wd" "fits_in 512 env" "fits_in 64 ports" "fits_in 256 vols"
    "fits_int i" "fits_int t" "fits_int d"
  shows "tidy_container (new_container cid now name img command wd env ports vols i t d)"
proof -
  let ?b = "cid @ NUL # drop (Suc (length cid)) (zbuf 64)"
  have "cstr ?b = Some cid" using id_props(2) [of tm] by (simp add: assms(1) cstr_string clean_def)
  then have "tidy_buf ?b" using tidy_id [of tm] by (simp add: tidy_buf_def assms(1))
  moreover have "tidy_buf (strncpy_sz (zbuf 1024) command)"
    using strncpy_tidy [of 1024 command] assms(4) by (simp add: fits_in_def)
  moreover have "tidy_buf (snprintf_buf (zbuf 32) (dec_int now))"
    using snprintf_tidy [of 32 "dec_int now"] tidy_time by simp
  moreover have "tidy_buf (snprintf_buf (zbuf 512) (get_container_full_path cid @ ''/rootfs''))"
    "tidy_buf (snprintf_buf (zbuf 512) (CONTAINER_LOG_DIR @ ''/'' @ cid @ ''.log''))"
    using id_props(1,2) [of tm] dir_names(4-6) assms(1)
    by (intro conjunct1 [OF snprintf_tidy] tidy_path;
        simp add: container_paths clean_def CONTAINER_STORAGE_DIR_def CONTAINER_LOG_DIR_def)+
  moreover have "fits_int 0" by (simp add: fits_int_def)
  ultimately show ?thesis
    using assms(2-11) strncpy_tidy
    by (simp add: new_container_def tidy_container_def container_bufs_def container_ints_def zero_container_def)
qed

text \<open>The directories that \<open>init_container_system\<close> makes exist, and nothing else occupies
  the paths of the new container.\<close>

definition container_ready :: "string \<Rightarrow> world \<Rightarrow> bool" where
  "container_ready cid w \<longleftrightarrow>
     lookup w CONTAINER_STORAGE_DIR = Some Dir \<and> lookup w CONTAINER_METADATA_DIR = Some Dir \<and>
     (case lookup w (get_container_full_path cid) of Some (File s) \<Rightarrow> False | _ \<Rightarrow> True) \<and>
     lookup w (container_metadata_path cid) \<noteq> Some Dir"

lemma parent_slash: "CHR ''/'' \<notin> set b \<Longrightarrow> parent (a @ ''/'' @ b) = a"
  by simp

lemma new_container_paths:
  assumes "cid = container_id_at tm"
  shows "parent (get_container_full_path cid) = CONTAINER_STORAGE_DIR"
    "parent (snprintf 512 (get_container_full_path cid @ ''/rootfs'')) = get_container_full_path cid"
    "parent (container_metadata_path cid) = CONTAINER_METADATA_DIR"
    "get_container_full_path cid \<noteq> container_metadata_path cid"
    "snprintf 512 (get_container_full_path cid @ ''/rootfs'') \<noteq> container_metadata_path cid"
    "get_container_full_path cid \<noteq> CONTAINER_METADATA_DIR"
    "snprintf 512 (get_container_full_path cid @ ''/rootfs'') \<noteq> CONTAINER_METADATA_DIR"
    "CONTAINER_STORAGE_DIR \<noteq> get_container_full_path cid"
    "CONTAINER_STORAGE_DIR \<noteq> snprintf 512 (get_container_full_path cid @ ''/rootfs'')"
    "CONTAINER_STORAGE_DIR \<noteq> container_metadata_path cid" "CONTAINER_METADATA_DIR \<noteq> container_metadata_path cid"
    "get_container_full_path cid \<noteq> []" "snprintf 512 (get_container_full_path cid @ ''/rootfs'') \<noteq> []"
    "container_metadata_path cid \<noteq> []"
  using id_props [of tm] dir_names(1,2) assms
    parent_slash [of "''rootfs''" "CONTAINER_STORAGE_DIR @ ''/'' @ cid"]
    parent_slash [of cid CONTAINER_STORAGE_DIR] parent_slash [of "cid @ ''.json''" CONTAINER_METADATA_DIR]
  by (auto simp: container_paths snprintf_id CONTAINER_STORAGE_DIR_def CONTAINER_METADATA_DIR_def)

lemma mkdir_ready:
  assumes "lookup w (parent p) = Some Dir" "\<not> deny os p" "p \<noteq> []"
  obtains e w' where "mkdir os p w = (e, w')" "e = None \<or> e = Some EEXIST"
    "(\<forall>s. lookup w p \<noteq> Some (File s)) \<longrightarrow> lookup w' p = Some Dir"
    "\<forall>q. q \<noteq> p \<longrightarrow> lookup w' q = lookup w q"
  using assms
  by (cases "lookup w p"; cases "the (lookup w p)") (auto simp: mkdir_def parent_ok_def fs_simps)

lemma strcpy_id: "cid = container_id_at t \<Longrightarrow>
    strcpy (zbuf 64) cid = Some (cid @ NUL # drop (Suc (length cid)) (zbuf 64))"
  using id_props(1) [of t] by (simp add: strcpy_def)

lemma new_container_ints:
  "c_state (new_container cid now name img command wd env ports vols i t d) = state_code CONTAINER_STATE_CREATED"
  "c_pid (new_container cid now name img command wd env ports vols i t d) = 0"
  by (simp_all add: new_container_def zero_container_def)

lemma new_container_strs:
  assumes "cid = container_id_at tm"
  shows "str (c_id (new_container cid now name img command wd env ports vols i t d)) = cid"
    "fits_in 256 img \<Longrightarrow> str (c_image (new_container cid now name img command wd env ports vols i t d)) = img"
    "fits_in 991 command \<Longrightarrow> str (c_command (new_container cid now name img command wd env ports vols i t d)) = command"
  using strncpy_tidy [of 256 img] strncpy_tidy [of 1024 command] id_props(2) [of tm] assms
  by (auto simp: new_container_def str_def cstr_string clean_def fits_in_def)

lemma write_metadata_file:
  "write_container_metadata os c w = Some (0, w') \<Longrightarrow> cstr (c_config_path c) = Some p \<Longrightarrow> \<exists>s. lookup w' p = Some (File s)"
  by (auto simp: write_container_metadata_def bind_Some_iff write_file_def fs_simps split: if_split_asm)

lemma create_run:
  assumes "cid = container_id_at (clock os (ticks w))" "container_ready cid w" "calm os"
    and "fits_in 256 (or_default name cid)" "fits_in 256 img" "fits_in 991 (or_default command [])"
    and "fits_in 512 (or_default wd ''/'')" "fits_in 512 (or_default env [])"
    and "fits_in 64 (or_default ports [])" "fits_in 256 (or_default vols [])"
    and "fits_int i" "fits_int t" "fits_int d" "sized g" "img \<noteq> []"
  shows "\<exists>w' c. create_container os name img command wd env ports vols i t d w = Some (0, w') \<and>
    container_ready cid w' \<and> container_exists cid w' \<and> lookup w' (get_container_full_path cid) = Some Dir \<and>
    read_container_metadata os cid g w' = Some (0, c) \<and>
    cstr (c_id c) = Some cid \<and> cstr (c_image c) = Some img \<and>
    (command \<noteq> None \<and> command \<noteq> Some [] \<longrightarrow> cstr (c_command c) = command) \<and>
    c_state c = state_code CONTAINER_STATE_CREATED \<and> c_pid c = 0 \<and>
    c_config_path c = c_config_path g \<and> c_log_path c = c_log_path g \<and> c_detach c = c_detach g"
proof -
  let ?p = "get_container_full_path cid" and ?m = "container_metadata_path cid"
  let ?r = "snprintf 512 (?p @ ''/rootfs'')"
  let ?now = "clock os (Suc (ticks w))"
  let ?c = "new_container cid (sint ?now) (or_default name cid) img (or_default command [])
     (or_default wd ''/'') (or_default env []) (or_default ports []) (or_default vols []) i t d"
  define w2 where "w2 = w\<lparr>ticks := Suc (Suc (ticks w))\<rparr>"
  have l2: "lookup w2 q = lookup w q" for q by (simp add: w2_def fs_simps)
  note ps = new_container_paths [OF assms(1)]
  note rdy = assms(2) [unfolded container_ready_def]
  obtain e1 w3 where s1: "mkdir os ?p w2 = (e1, w3)" "e1 = None \<or> e1 = Some EEXIST" "lookup w3 ?p = Some Dir"
    "\<forall>q. q \<noteq> ?p \<longrightarrow> lookup w3 q = lookup w2 q"
    using rdy assms(3) ps(1,12) mkdir_ready [of w2 ?p os] by (auto simp: l2 calm_def split: option.splits node.splits)
  have r_ne: "?r \<noteq> ?p"
    using id_props(1) [of "clock os (ticks w)"] dir_names(1) assms(1) by (simp add: container_paths snprintf_id)
  have pr: "lookup w3 (parent ?r) = Some Dir" and nd: "\<not> deny os ?r"
    using s1(3) assms(3) ps(2) by (simp_all add: calm_def)
  obtain e2 w4 where s2: "mkdir os ?r w3 = (e2, w4)" "e2 = None \<or> e2 = Some EEXIST"
    "(\<forall>s. lookup w3 ?r \<noteq> Some (File s)) \<longrightarrow> lookup w4 ?r = Some Dir"
    "\<forall>q. q \<noteq> ?r \<longrightarrow> lookup w4 q = lookup w3 q"
    using mkdir_ready [OF pr nd ps(13)] by blast
  have l4: "lookup w4 ?p = Some Dir" "lookup w4 ?m = lookup w ?m" "lookup w4 CONTAINER_METADATA_DIR = Some Dir"
    using s1(3,4) s2(4) ps r_ne rdy by (auto simp: l2)
  have mw: "may_write os ?m w4"
    using l4 rdy assms(3) ps(3,14) by (auto simp: may_write_def parent_ok_def calm_def split: option.splits node.splits)
  have tc: "tidy_container ?c" by (rule new_container_tidy) (use assms in auto)
  have cp: "cstr (c_config_path ?c) = Some ?m"
    using id_props(2) [of "clock os (ticks w)"] dir_names(5) assms(1)
    by (simp add: new_container_def container_metadata_path_def cstr_snprintf_buf zbuf_def clean_def)
  have "sized ?c"
    using id_props(1) [of "clock os (ticks w)"] assms(1) by (simp add: new_container_def sized_def zero_container_def)
  then obtain w5 where w5: "write_container_metadata os ?c w4 = Some (0, w5)"
    "read_container_metadata os cid g w5 = Some (0, reload g ?c)"
    using write_then_read [OF tc _ assms(14) cp mw] assms(3) by (auto simp: calm_def)
  have run: "create_container os name img command wd env ports vols i t d w = Some (0, w5)"
    using s1(1,2) s2(1,2) w5(1)
    by (simp add: create_container_def Let_def generate_container_id_def time_now_def assms(1) [symmetric]
        strcpy_id [OF assms(1)] w2_def new_container_def)
  have fr: "\<forall>q. q \<noteq> ?m \<longrightarrow> lookup w5 q = lookup w4 q"
    using write_metadata_dest [OF w5(1)] cp by auto
  then have l5: "lookup w5 ?p = Some Dir" using l4 ps by metis
  have "container_ready cid w5"
  proof -
    have "lookup w5 CONTAINER_STORAGE_DIR = Some Dir" "lookup w5 CONTAINER_METADATA_DIR = Some Dir"
      using fr ps l4 rdy s1(4) s2(4) by (auto simp: l2)
    moreover have "lookup w5 ?m \<noteq> Some Dir" using write_metadata_file [OF w5(1) cp] by auto
    ultimately show ?thesis using l5 by (simp add: container_ready_def)
  qed
  moreover have "container_exists cid w5" using w5(2)
    by (auto simp: container_exists_def access_ok_def read_container_metadata_def read_file_def split: option.splits if_splits)
  moreover have cid: "cid \<noteq> []" "clean cid"
    using id_props(1,2) [of "clock os (ticks w)"] assms(1) by auto
  moreover have "cstr (c_id (reload g ?c)) = Some cid" "cstr (c_image (reload g ?c)) = Some img"
    "or_default command [] \<noteq> [] \<Longrightarrow> cstr (c_command (reload g ?c)) = Some (or_default command [])"
    "c_state (reload g ?c) = state_code CONTAINER_STATE_CREATED \<and> c_pid (reload g ?c) = 0 \<and>
     c_config_path (reload g ?c) = c_config_path g \<and> c_log_path (reload g ?c) = c_log_path g \<and>
     c_detach (reload g ?c) = c_detach g"
    using new_container_strs [OF assms(1)] assms(5,6,15) cid tidy_clean
    by (simp_all add: reload_def cstr_refill new_container_ints fits_in_def)
  ultimately show ?thesis using run w5(2) l5 by (cases command) (auto simp: or_default_def)
qed

text \<open>
  C6. A created container can be found: when the storage directories exist and the values fit their
  fields, \<open>create_container\<close> succeeds, the container exists afterwards, and reading its metadata
  gives state CREATED, no process, the image and the command that were asked for; the fields the reader
  does not know (\<open>config_path\<close>, \<open>log_path\<close>, \<open>detach\<close>) keep what memory held.
\<close>

theorem create_then_read:
  assumes "cid = container_id_at (clock os (ticks w))" "container_ready cid w" "calm os"
    and "fits_in 256 (or_default name cid)" "fits_in 256 img" "fits_in 991 (or_default command [])"
    and "fits_in 512 (or_default wd ''/'')" "fits_in 512 (or_default env [])"
    and "fits_in 64 (or_default ports [])" "fits_in 256 (or_default vols [])"
    and "fits_int i" "fits_int t" "fits_int d" "sized g" "img \<noteq> []"
  shows "\<exists>w' c. create_container os name img command wd env ports vols i t d w = Some (0, w') \<and>
    container_exists cid w' \<and> lookup w' (get_container_full_path cid) = Some Dir \<and>
    read_container_metadata os cid g w' = Some (0, c) \<and>
    cstr (c_id c) = Some cid \<and> cstr (c_image c) = Some img \<and>
    (command \<noteq> None \<and> command \<noteq> Some [] \<longrightarrow> cstr (c_command c) = command) \<and>
    c_state c = state_code CONTAINER_STATE_CREATED \<and> c_pid c = 0 \<and>
    c_config_path c = c_config_path g \<and> c_log_path c = c_log_path g \<and> c_detach c = c_detach g"
  using create_run [OF assms] by blast

text \<open>The hypotheses hold on a fresh system with the directories made.\<close>

definition fresh_world :: world where
  "fresh_world = snd (init_container_system calm_os empty_world)"

theorem create_then_read_witness:
  "\<exists>w' c. create_container calm_os (Some ''web'') ''nginx'' None None None None None 0 0 1 fresh_world = Some (0, w') \<and>
    read_container_metadata calm_os (container_id_at 0) zero_container w' = Some (0, c) \<and>
    cstr (c_image c) = Some ''nginx'' \<and> c_state c = 0"
proof -
  have r: "container_ready (container_id_at 0) fresh_world" by code_simp
  have c: "calm calm_os" "container_id_at 0 = container_id_at (clock calm_os (ticks fresh_world))"
    by (simp_all add: calm_def calm_os_def)
  have f: "fits_in 256 (or_default (Some ''web'') (container_id_at 0))" "fits_in 256 ''nginx''"
    "fits_in 991 (or_default None [])" "fits_in 512 (or_default None ''/'')" "fits_in 512 (or_default None [])"
    "fits_in 64 (or_default None [])" "fits_in 256 (or_default None [])"
    by (simp_all add: fits_in_def tidy_def clean_def container_keys_def or_default_def)
  have g: "fits_int 0" "fits_int 1" "sized zero_container"
    by (simp_all add: fits_int_def sized_def zero_container_def)
  show ?thesis
    using create_then_read [OF c(2) r c(1) f(1-4,5,6,7) g(1,1,2,3)] by fastforce
qed

section \<open>The life cycle\<close>

lemma start_metadata:
  assumes "start_container os g cid w = Some (r, w')" "cstr (c_config_path g) = Some p" "p \<noteq> container_metadata_path cid"
  shows "lookup w' (container_metadata_path cid) = lookup w (container_metadata_path cid)"
  using start_effects [OF assms(1,2)] assms(3) by auto

text \<open>
  C24. Starting is never recorded: the record that \<open>start_container\<close> writes goes to the
  \<open>config_path\<close> its stack variable held before the call, because the metadata file does not carry
  that field. Unless that garbage happens to be the container's own metadata path, the container's state on
  disk is what it was, so a following \<open>stop_container\<close> refuses, sends no signal and changes
  nothing, and a second start would spawn a second process.
\<close>

theorem start_not_recorded:
  assumes "start_container os g cid w = Some (r, w')"
    and "cstr (c_config_path g) = Some p" "p \<noteq> container_metadata_path cid"
    and "read_container_metadata os cid g' w = Some (0, c)" "c_state c \<noteq> state_code CONTAINER_STATE_RUNNING"
  shows "read_container_metadata os cid g' w' = Some (0, c) \<and> stop_container os g' cid w' = Some (- 1, w')"
proof -
  have "read_container_metadata os cid g' w' = Some (0, c)"
    using read_cong [OF start_metadata [OF assms(1-3)]] assms(4) by simp
  then show ?thesis using stop_refused(2) assms(5) by blast
qed

text \<open>A container on a fresh system, and a system on which nothing can be written.\<close>

definition web :: string where "web = container_id_at 0"

definition full_disk :: os where "full_disk = calm_os\<lparr>deny := \<lambda>p. True\<rparr>"

lemma web_created:
  obtains w c where "container_exists web w" "read_container_metadata full_disk web zero_container w = Some (0, c)"
    "c_state c = 0" "c_config_path c = zbuf 512"
proof -
  have r: "container_ready (container_id_at 0) fresh_world" by code_simp
  have c: "calm calm_os" "container_id_at 0 = container_id_at (clock calm_os (ticks fresh_world))"
    by (simp_all add: calm_def calm_os_def)
  have f: "fits_in 256 (or_default (Some ''web'') (container_id_at 0))" "fits_in 256 ''nginx''"
    "fits_in 991 (or_default None [])" "fits_in 512 (or_default None ''/'')" "fits_in 512 (or_default None [])"
    "fits_in 64 (or_default None [])" "fits_in 256 (or_default None [])"
    by (simp_all add: fits_in_def tidy_def clean_def container_keys_def or_default_def)
  have g: "fits_int 0" "fits_int 1" "sized zero_container"
    by (simp_all add: fits_int_def sized_def zero_container_def)
  obtain w c where w: "container_exists web w" "read_container_metadata calm_os web zero_container w = Some (0, c)"
    "c_state c = 0" "c_config_path c = c_config_path zero_container"
    using create_run [OF c(2) r c(1) f(1-4,5,6,7) g(1,1,2,3)] unfolding web_def by fastforce
  have "read_container_metadata full_disk web zero_container w = read_container_metadata calm_os web zero_container w"
    by (simp add: read_container_metadata_def read_file_def full_disk_def calm_os_def)
  then show thesis using w that by (simp add: zero_container_def)
qed

text \<open>The start that cannot write its record: the process is spawned and killed.\<close>

lemma web_start:
  assumes "container_exists web w" "read_container_metadata full_disk web zero_container w = Some (0, c)"
    "c_state c = 0" "c_config_path c = zbuf 512"
  obtains w' where "start_container full_disk zero_container web w = Some (- 1, w')" "clones w' = Suc (clones w)"
  using assms
  by (simp add: start_container_def malloc_def full_disk_def calm_os_def clone_def time_now_def Let_def
      write_container_metadata_def cstr_zbuf may_write_def kill_def)

theorem start_not_recorded_witness:
  "\<exists>w w'. start_container full_disk zero_container web w = Some (- 1, w') \<and> clones w' = Suc (clones w) \<and>
          stop_container full_disk zero_container web w' = Some (- 1, w')"
proof -
  obtain w c where c: "container_exists web w" "read_container_metadata full_disk web zero_container w = Some (0, c)"
    "c_state c = 0" "c_config_path c = zbuf 512" by (rule web_created)
  obtain w' where s: "start_container full_disk zero_container web w = Some (- 1, w')" "clones w' = Suc (clones w)"
    using web_start [OF c] by blast
  have "cstr (c_config_path zero_container) = Some []" "[] \<noteq> container_metadata_path web"
    using id_props(1) [of 0] dir_names
    by (simp_all add: zero_container_def cstr_zbuf container_paths web_def)
  then have "stop_container full_disk zero_container web w' = Some (- 1, w')"
    using start_not_recorded [OF s(1) _ _ c(2)] c(3) by simp
  then show ?thesis using s by blast
qed

text \<open>
  C26. Starting spawns at most one process, and only for a container that exists and is not recorded as
  running; every other outcome is the error result with no process and no signal. Apart from the path in
  the record it writes, no file changes.
\<close>

theorem start_spawns_once:
  assumes "start_container os g cid w = Some (r, w')" "cstr (c_config_path g) = Some p"
  shows "(\<forall>q. q \<noteq> p \<longrightarrow> lookup w' q = lookup w q) \<and>
    (clones w' = clones w \<and> signals w' = signals w \<and> r = - 1 \<or>
     clones w' = Suc (clones w) \<and> container_exists cid w \<and>
     (\<exists>c. read_container_metadata os cid g w = Some (0, c) \<and> c_state c \<noteq> state_code CONTAINER_STATE_RUNNING))"
  using assms by (rule start_effects)

theorem start_spawns_once_witness:
  "\<exists>w w'. start_container full_disk zero_container web w = Some (- 1, w') \<and> clones w' = Suc (clones w) \<and>
     lookup w' (container_metadata_path web) = lookup w (container_metadata_path web)"
proof -
  obtain w c where c: "container_exists web w" "read_container_metadata full_disk web zero_container w = Some (0, c)"
    "c_state c = 0" "c_config_path c = zbuf 512" by (rule web_created)
  obtain w' where s: "start_container full_disk zero_container web w = Some (- 1, w')" "clones w' = Suc (clones w)"
    using web_start [OF c] by blast
  have "cstr (c_config_path zero_container) = Some []" "container_metadata_path web \<noteq> []"
    using id_props(1) [of 0] dir_names
    by (simp_all add: zero_container_def cstr_zbuf container_paths web_def)
  then have "lookup w' (container_metadata_path web) = lookup w (container_metadata_path web)"
    using start_spawns_once [OF s(1)] by blast
  then show ?thesis using s by blast
qed

text \<open>
  C25. Stopping sends one SIGTERM, to the recorded process of a container recorded as running, and
  otherwise no signal at all; it never spawns.
\<close>

theorem stop_signals:
  assumes "stop_container os g cid w = Some (r, w')" "cstr (c_config_path g) = Some p"
  shows "(\<forall>q. q \<noteq> p \<longrightarrow> lookup w' q = lookup w q) \<and> clones w' = clones w \<and>
    (signals w' = signals w \<or>
     container_exists cid w \<and>
     (\<exists>c. read_container_metadata os cid g w = Some (0, c) \<and> c_state c = state_code CONTAINER_STATE_RUNNING \<and>
          signals w' = signals w @ [(c_pid c, SIGTERM)]))"
  using assms by (rule stop_effects)

text \<open>A running container whose record names its own metadata file.\<close>

definition running :: container_info where
  "running = zero_container\<lparr>c_id := strncpy_sz (zbuf 64) web, c_state := 1, c_pid := 100,
     c_config_path := snprintf_buf (zbuf 512) (CONTAINER_METADATA_DIR @ ''/'' @ web @ ''.json'')\<rparr>"

lemma running_written:
  obtains w' where "read_container_metadata full_disk web running w' = Some (0, reload running running)"
    "children w' = [100]" "container_exists web w'"
proof -
  have f: "fits_in 64 web" using tidy_id [of 0] id_props(1) [of 0] by (simp add: fits_in_def web_def)
  have t: "tidy_container running" "sized running"
    using strncpy_tidy [OF f]
    by (simp_all add: running_def tidy_container_def container_bufs_def container_ints_def zero_container_def
        fits_int_def sized_def)
  have p: "cstr (c_config_path running) = Some (container_metadata_path web)"
    using id_props(2) [of 0] dir_names(5)
    by (simp add: running_def container_metadata_path_def cstr_snprintf_buf zbuf_def clean_def web_def)
  have m: "may_write calm_os (container_metadata_path web) (fresh_world\<lparr>children := [100]\<rparr>)"
    unfolding web_def by code_simp
  obtain w' where w': "write_container_metadata calm_os running (fresh_world\<lparr>children := [100]\<rparr>) = Some (0, w')"
    "read_container_metadata calm_os web running w' = Some (0, reload running running)"
    using write_then_read [OF t(1,2,2) p m] by (auto simp: calm_os_def)
  have "container_exists web w'" using w'(2)
    by (auto simp: container_exists_def access_ok_def read_container_metadata_def read_file_def split: option.splits if_splits)
  moreover have "children w' = [100]" using write_metadata_dest [OF w'(1)] by auto
  moreover have "read_container_metadata full_disk web running w' = read_container_metadata calm_os web running w'"
    by (simp add: read_container_metadata_def read_file_def full_disk_def calm_os_def)
  ultimately show thesis using that w'(2) by simp
qed

theorem stop_signals_witness:
  "\<exists>w w'. stop_container full_disk running web w = Some (- 1, w') \<and> signals w' = signals w @ [(100, SIGTERM)] \<and>
        clones w' = clones w \<and> lookup w' CONTAINER_STORAGE_DIR = lookup w CONTAINER_STORAGE_DIR"
proof -
  obtain w where w: "read_container_metadata full_disk web running w = Some (0, reload running running)"
    "children w = [100]" "container_exists web w" by (rule running_written)
  have p: "cstr (c_config_path running) = Some (container_metadata_path web)"
    using id_props(2) [of 0] dir_names(5)
    by (simp add: running_def container_metadata_path_def cstr_snprintf_buf zbuf_def clean_def web_def)
  have "\<exists>w'. stop_container full_disk running web w = Some (- 1, w') \<and> signals w' = signals w @ [(100, SIGTERM)]"
    using w p
    by (simp add: stop_container_def kill_def waitpid_def Let_def time_now_def reload_def running_def
        write_container_metadata_def may_write_def full_disk_def calm_os_def)
  moreover have "container_metadata_path web \<noteq> CONTAINER_STORAGE_DIR"
    using new_container_paths(10) [of web 0] by (auto simp: web_def)
  ultimately show ?thesis using stop_signals [OF _ p] by metis
qed



section \<open>Removing, initialising, cleaning up\<close>

text \<open>
  C27. Removing, when the shell's \<open>rm -rf\<close> works: the container's directory is gone with
  everything below it; the only other paths touched are the two that the uninitialised stack variable
  names. So the metadata file stays, and the container still exists, unless that garbage names it.
\<close>

theorem remove_result:
  assumes "rm_rf (shell os)" "container_exists cid w" "read_container_metadata os cid g w = Some (0, c)"
    and "c_state c \<noteq> state_code CONTAINER_STATE_RUNNING" "plain_path (get_container_full_path cid)"
    and "cstr (c_config_path g) = Some p" "cstr (c_log_path g) = Some l"
  shows "\<exists>r w'. remove_container os g cid w = Some (r, w') \<and>
    (\<forall>q. under (get_container_full_path cid) q \<longrightarrow> lookup w' q = None) \<and>
    (\<forall>q. \<not> under (get_container_full_path cid) q \<and> q \<noteq> p \<and> q \<noteq> l \<longrightarrow> lookup w' q = lookup w q) \<and>
    (r = 0 \<longrightarrow> lookup w' p = None)"
proof -
  let ?f = "get_container_full_path cid"
  have len: "length (''rm -rf '' @ ?f) < 1024"
    using length_snprintf [of 512 "CONTAINER_STORAGE_DIR @ ''/'' @ cid"] by (simp add: get_container_full_path_def)
  obtain w1 where w1: "system os (''rm -rf '' @ ?f) w = (0, w1)"
    "\<And>q. lookup w1 q = (if under ?f q then None else lookup w q)"
    using system_rm [OF assms(1), of "[?f]" w] assms(5) by auto
  have "c_config_path c = c_config_path g" "c_log_path c = c_log_path g"
    using read_frame [OF assms(3)] by auto
  moreover obtain e1 w2 e2 w3 where u: "unlink os p w1 = (e1, w2)" "unlink os l w2 = (e2, w3)" by fastforce
  ultimately have run: "remove_container os g cid w =
      (if e1 \<noteq> None then Some (- 1, w2)
       else if e2 \<noteq> None \<and> e2 \<noteq> Some ENOENT then Some (- 1, w3) else Some (0, w3))"
    using assms(2-4,6,7) w1(1) len by (simp add: remove_container_def snprintf_id Let_def)
  have g: "e1 = None \<Longrightarrow> lookup w2 p = None" "lookup w1 q = None \<Longrightarrow> lookup w2 q = None"
    "lookup w2 q = None \<Longrightarrow> lookup w3 q = None" for q
    using u by (auto simp: unlink_def fs_simps split: option.splits node.splits if_splits)
  have fr: "q \<noteq> p \<Longrightarrow> lookup w2 q = lookup w1 q" "q \<noteq> l \<Longrightarrow> lookup w3 q = lookup w2 q" for q
    using u unlink_frame by metis+
  show ?thesis
    by (cases "e1 = None"; cases "e2 = None \<or> e2 = Some ENOENT") (use run u g fr w1(2) in auto)
qed

theorem remove_result_witness:
  "\<exists>w r w'. container_exists web w \<and> remove_container full_disk zero_container web w = Some (r, w') \<and>
     lookup w' (get_container_full_path web) = None \<and> container_exists web w'"
proof -
  obtain w c where c: "container_exists web w" "read_container_metadata full_disk web zero_container w = Some (0, c)"
    "c_state c = 0" "c_config_path c = zbuf 512" by (rule web_created)
  have rm: "rm_rf (shell full_disk)" by (simp add: full_disk_def calm_os_def rm_rf_rm_shell)
  have pl: "plain_path (get_container_full_path web)" unfolding web_def by code_simp
  have z: "cstr (c_config_path zero_container) = Some []" "cstr (c_log_path zero_container) = Some []"
    by (simp_all add: zero_container_def cstr_zbuf)
  have n: "\<not> under (get_container_full_path web) (container_metadata_path web)" "container_metadata_path web \<noteq> []"
    unfolding web_def by code_simp+
  show ?thesis
    using remove_result [OF rm c(1,2) _ pl z] c(1,3) n
    by (auto simp: container_exists_def access_ok_def under_def)
qed

text \<open>
  Initialisation: when \<open>init_container_system\<close> succeeds the three directories exist, and
  running it again succeeds and changes nothing.
\<close>

theorem init_idempotent:
  assumes "init_container_system os w = (0, w')"
  shows "lookup w' CONTAINER_STORAGE_DIR \<noteq> None \<and> lookup w' CONTAINER_METADATA_DIR \<noteq> None \<and>
         lookup w' CONTAINER_LOG_DIR \<noteq> None \<and> init_container_system os w' = (0, w')"
proof -
  have mk: "mkdir os d v = (e, v') \<Longrightarrow> e = None \<or> e = Some EEXIST \<Longrightarrow> lookup v' d \<noteq> None" for d v v' e
    by (auto simp: mkdir_def fs_simps split: if_split_asm)
  have mono: "mkdir os d v = (e, v') \<Longrightarrow> lookup v q \<noteq> None \<Longrightarrow> lookup v' q \<noteq> None" for d v v' e q
    by (auto simp: mkdir_def fs_simps split: if_split_asm)
  have again: "lookup v d \<noteq> None \<Longrightarrow> mkdir os d v = (Some EEXIST, v)" for d v
    by (simp add: mkdir_def)
  obtain e1 w1 e2 w2 e3 w3 where m: "mkdir os CONTAINER_STORAGE_DIR w = (e1, w1)"
    "mkdir os CONTAINER_METADATA_DIR w1 = (e2, w2)" "mkdir os CONTAINER_LOG_DIR w2 = (e3, w3)"
    by (meson surj_pair)
  have "(e1 = None \<or> e1 = Some EEXIST) \<and> (e2 = None \<or> e2 = Some EEXIST) \<and> (e3 = None \<or> e3 = Some EEXIST) \<and> w' = w3"
    using assms m
    by (auto simp: init_container_system_def create_container_directories_def container_dirs_loop.simps split: if_split_asm)
  then have "lookup w' CONTAINER_STORAGE_DIR \<noteq> None" "lookup w' CONTAINER_METADATA_DIR \<noteq> None"
    "lookup w' CONTAINER_LOG_DIR \<noteq> None"
    using mk [OF m(1)] mk [OF m(2)] mk [OF m(3)] mono [OF m(2)] mono [OF m(3)] by blast+
  then show ?thesis
    by (simp add: init_container_system_def create_container_directories_def container_dirs_loop.simps again)
qed

theorem init_idempotent_witness:
  "init_container_system calm_os empty_world = (0, fresh_world) \<and>
   init_container_system calm_os fresh_world = (0, fresh_world)"
proof -
  have "fst (init_container_system calm_os empty_world) = 0" by code_simp
  then have "init_container_system calm_os empty_world = (0, fresh_world)"
    by (simp add: fresh_world_def prod_eq_iff)
  then show ?thesis using init_idempotent by blast
qed

lemma cleanup_containers:
  assumes "rm_rf (shell os)" "cleanup_container_system os w = (r, w')"
  shows "r = 0 \<and>
    (\<forall>q. lookup w' q = (if under CONTAINER_STORAGE_DIR q \<or> under CONTAINER_METADATA_DIR q \<or> under CONTAINER_LOG_DIR q
                        then None else lookup w q)) \<and>
    (\<forall>cid. length cid < 400 \<longrightarrow> \<not> container_exists cid w')"
proof -
  let ?ds = "[CONTAINER_STORAGE_DIR, CONTAINER_METADATA_DIR, CONTAINER_LOG_DIR]"
  have pl: "\<forall>p \<in> set ?ds. plain_path p"
    by (simp add: CONTAINER_STORAGE_DIR_def CONTAINER_METADATA_DIR_def CONTAINER_LOG_DIR_def plain_path_def
        word_char_def contains_def)
  obtain w1 where w1: "system os (''rm -rf '' @ unwords ?ds) w = (0, w1)"
    "\<And>q. lookup w1 q = (if list_ex (\<lambda>p. under p q) ?ds then None else lookup w q)"
    using system_rm [OF assms(1) _ pl, of w] by auto
  have "w' = w1 \<and> r = 0"
    using assms(2) w1(1) dir_names(1-3) by (simp add: cleanup_container_system_def snprintf_id)
  moreover have "under CONTAINER_METADATA_DIR (container_metadata_path cid)" if "length cid < 400" for cid
    using that by (simp add: container_paths under_def)
  ultimately show ?thesis using w1(2) by (simp add: container_exists_def access_ok_def)
qed

text \<open>
  C35. \<open>cleanup_container_system\<close> with a working \<open>rm -rf\<close> removes every container and
  touches nothing outside the three directories.
\<close>

theorem cleanup_removes_all:
  assumes "rm_rf (shell os)" "cleanup_container_system os w = (r, w')"
  shows "r = 0 \<and>
    (\<forall>q. lookup w' q = (if under CONTAINER_STORAGE_DIR q \<or> under CONTAINER_METADATA_DIR q \<or> under CONTAINER_LOG_DIR q
                        then None else lookup w q)) \<and>
    (\<forall>cid. length cid < 400 \<longrightarrow> \<not> container_exists cid w')"
  using assms by (rule cleanup_containers)

theorem cleanup_removes_all_witness:
  "\<exists>w'. cleanup_container_system calm_os fresh_world = (0, w') \<and> \<not> container_exists web w'"
proof -
  have "rm_rf (shell calm_os)" by (simp add: calm_os_def rm_rf_rm_shell)
  moreover obtain r w' where "cleanup_container_system calm_os fresh_world = (r, w')" by fastforce
  moreover have "length web < 400" using id_props(1) [of 0] by (simp add: web_def)
  ultimately show ?thesis using cleanup_removes_all by blast
qed

section \<open>Listing and the child\<close>

lemma list_loop_bound:
  "list_containers_loop os gid gs w n es acc = Some cs \<Longrightarrow>
   length cs \<le> length acc + length (filter (\<lambda>e. contains e ''.json'') es)"
  by (induction es arbitrary: n acc) (fastforce simp: bind_Some_iff split: if_split_asm)+

text \<open>
  \<open>list_containers\<close> never writes past the array it allocates: the second pass over the
  directory stores at most as many records as the first pass counted.
\<close>

theorem list_containers_bound:
  assumes "list_containers os gid gs w = Some (Some cs, w')"
  shows "\<exists>names. read_dir os CONTAINER_METADATA_DIR w = Some names \<and>
                 length cs \<le> length (filter (\<lambda>e. contains e ''.json'') names)"
  using assms list_loop_bound
  by (fastforce simp: list_containers_def malloc_def read_dir_def lookup_def bind_Some_iff Let_def split: if_split_asm option.splits)

theorem list_containers_bound_witness:
  "(\<exists>w'. list_containers calm_os (\<lambda>n. zbuf 64) (\<lambda>n. zero_container) fresh_world = Some (Some [], w')) \<and>
   (\<exists>names. read_dir calm_os CONTAINER_METADATA_DIR fresh_world = Some names)"
proof -
  have "map_option (map_option (map c_id) \<circ> fst) (list_containers calm_os (\<lambda>n. zbuf 64) (\<lambda>n. zero_container) fresh_world) =
      Some (Some [])" by code_simp
  then obtain w' where "list_containers calm_os (\<lambda>n. zbuf 64) (\<lambda>n. zero_container) fresh_world = Some (Some [], w')" by auto
  then show ?thesis using list_containers_bound by blast
qed



end
