(* ===== verification/Image.thy ===== *)
theory Image imports Container begin

text \<open>
  The image store, \<open>core/image.c\<close> and \<open>core/image.h\<close>: one metadata file per image under
  \<open>/tmp/docker-metadata\<close>, one directory per layer under \<open>/tmp/docker-layers\<close>. As in the
  theory of containers, memory that the C code leaves uninitialised is a parameter \<open>g\<close>.
\<close>

section \<open>Data\<close>

record layer_info =
  l_id :: buf
  l_parent_id :: buf
  l_command :: buf
  l_created :: buf
  l_size :: buf
  l_diff_id :: buf

text \<open>\<open>layers\<close> is the array the pointer designates, empty for a null pointer.\<close>

record image_info =
  i_id :: buf
  i_name :: buf
  i_tag :: buf
  i_parent_id :: buf
  i_created :: buf
  i_size :: buf
  i_architecture :: buf
  i_os :: buf
  i_author :: buf
  i_comment :: buf
  i_command :: buf
  i_working_dir :: buf
  i_env_vars :: buf
  i_exposed_ports :: buf
  i_volumes :: buf
  i_layers :: "layer_info list"
  i_layer_count :: int

definition zero_image :: image_info where
  "zero_image =
     \<lparr>i_id = zbuf 64, i_name = zbuf 256, i_tag = zbuf 64, i_parent_id = zbuf 64, i_created = zbuf 32, i_size = zbuf 32,
      i_architecture = zbuf 32, i_os = zbuf 32, i_author = zbuf 128, i_comment = zbuf 256, i_command = zbuf 1024,
      i_working_dir = zbuf 256, i_env_vars = zbuf 512, i_exposed_ports = zbuf 64, i_volumes = zbuf 256,
      i_layers = [], i_layer_count = 0\<rparr>"

definition IMAGE_STORAGE_DIR :: path where
  "IMAGE_STORAGE_DIR = ''/tmp/docker-images''"

definition LAYER_STORAGE_DIR :: path where
  "LAYER_STORAGE_DIR = ''/tmp/docker-layers''"

definition METADATA_DIR :: path where
  "METADATA_DIR = ''/tmp/docker-metadata''"

section \<open>Directories, identifiers and paths\<close>

text \<open>
  The loop over \<open>dirs\<close>. Its body increments \<open>i\<close> a second time, and
  \<open>createdDirsCount\<close> (\<open>n\<close>) stays what it was.
\<close>

function image_dirs_loop :: "os \<Rightarrow> path list \<Rightarrow> nat \<Rightarrow> nat \<Rightarrow> world \<Rightarrow> int \<times> world" where
  "image_dirs_loop os dirs i n w =
     (if i < length dirs then
        (let (e, w1) = mkdir os (dirs ! i) w
         in if e \<noteq> None \<and> e \<noteq> Some EEXIST then (- 1, rmdir_all os (take n dirs) w1)
            else let i1 = i + 1 in image_dirs_loop os dirs (i1 + 1) n w1)
      else (0, w))"
  by pat_completeness auto
termination image_dirs_loop
  by (relation "measure (\<lambda>(os, dirs, i, n, w). length dirs - i)") auto

declare image_dirs_loop.simps [simp del]

definition create_directory_structure :: "os \<Rightarrow> world \<Rightarrow> int \<times> world" where
  "create_directory_structure os w =
     image_dirs_loop os [IMAGE_STORAGE_DIR, LAYER_STORAGE_DIR, METADATA_DIR] 0 0 w"

definition init_image_system :: "os \<Rightarrow> world \<Rightarrow> int \<times> world" where
  "init_image_system os w =
     (let (r, w1) = create_directory_structure os w in if r \<noteq> 0 then (- 1, w1) else (0, w1))"

definition stamp :: "64 word \<Rightarrow> string" where
  "stamp now = hex_pad 8 (unat (ucast now :: 32 word)) @ hex_pad 8 (unat (ucast (signed_drop_bit 32 now) :: 32 word))"

definition image_id_at :: "64 word \<Rightarrow> string" where
  "image_id_at now = snprintf 64 (''sha256:'' @ stamp now)"

definition layer_id_at :: "64 word \<Rightarrow> string" where
  "layer_id_at now = snprintf 64 (''layer_'' @ stamp now)"

definition generate_image_id :: "os \<Rightarrow> world \<Rightarrow> string \<times> world" where
  "generate_image_id os w = (let (now, w1) = time_now os w in (image_id_at now, w1))"

definition generate_layer_id :: "os \<Rightarrow> world \<Rightarrow> string \<times> world" where
  "generate_layer_id os w = (let (now, w1) = time_now os w in (layer_id_at now, w1))"

definition get_image_full_name :: "string \<Rightarrow> string option \<Rightarrow> string" where
  "get_image_full_name name tag =
     (case tag of
        Some t \<Rightarrow> if 0 < length t then snprintf 322 (name @ '':'' @ t) else snprintf 322 (name @ '':latest'')
      | None \<Rightarrow> snprintf 322 (name @ '':latest''))"

text \<open>The path that each operation formats from an identifier or a full name.\<close>

definition image_metadata_path :: "string \<Rightarrow> path" where
  "image_metadata_path k = snprintf 512 (METADATA_DIR @ ''/'' @ k @ ''.json'')"

definition layer_path :: "string \<Rightarrow> path" where
  "layer_path k = snprintf 512 (LAYER_STORAGE_DIR @ ''/'' @ k)"

definition image_exists :: "string \<Rightarrow> string option \<Rightarrow> world \<Rightarrow> bool" where
  "image_exists name tag w = access_ok (image_metadata_path (snprintf 322 (get_image_full_name name tag))) w"

section \<open>Layers\<close>

definition layer_lines :: "string \<Rightarrow> string \<Rightarrow> int \<Rightarrow> string \<Rightarrow> string list" where
  "layer_lines layer_id parent_id now cmd =
     [''{'',
      str_line ''id'' layer_id,
      str_line ''parent'' parent_id,
      str_line ''created'' (dec_int now),
      str_line ''container'' [],
      ''  \"container_config\": {'',
      ''    \"Cmd\": [\"'' @ cmd @ ''\"]'',
      ''  },'',
      ''  \"config\": {'',
      ''    \"Cmd\": [\"'' @ cmd @ ''\"]'',
      ''  }'',
      ''}'']"

definition create_layer ::
  "os \<Rightarrow> string option \<Rightarrow> string option \<Rightarrow> string option \<Rightarrow> world \<Rightarrow> int \<times> world" where
  "create_layer os parent_id command diff_path w =
     (let (layer_id, w1) = generate_layer_id os w;
          lpath = layer_path layer_id;
          metadata_path = snprintf 512 (lpath @ ''/'' @ layer_id @ ''.json'');
          (e, w2) = mkdir os lpath w1
      in if e \<noteq> None \<and> e \<noteq> Some EEXIST then (- 1, w2)
         else
           let (rc, w3) =
             (case diff_path of
                Some d \<Rightarrow>
                  if 0 < length d
                  then system os (snprintf 1024 (''cp -r '' @ d @ ''/* '' @ lpath @ ''/'')) w2
                  else (0, w2)
              | None \<Rightarrow> (0, w2))
           in if rc \<noteq> 0 then (- 1, w3)
              else if \<not> may_write os metadata_path w3 then (- 1, w3)
              else let (now, w4) = time_now os w3
                in (0, snd (write_file os metadata_path
                      (file_text (layer_lines layer_id (or_default parent_id []) (sint now) (or_default command []))) w4)))"

definition extract_layer :: "os \<Rightarrow> string \<Rightarrow> string \<Rightarrow> world \<Rightarrow> int \<times> world" where
  "extract_layer os layer_id target_path w =
     (let lpath = layer_path layer_id
      in if \<not> access_ok lpath w then (- 1, w)
         else let (rc, w1) = system os (snprintf 1024 (''cp -r '' @ lpath @ ''/* '' @ target_path @ ''/'')) w
           in if rc \<noteq> 0 then (- 1, w1) else (0, w1))"

section \<open>The metadata file\<close>

text \<open>The lines of the loop over \<open>layers\<close>; reading past the array is undefined.\<close>

function layers_lines :: "layer_info list \<Rightarrow> int \<Rightarrow> int \<Rightarrow> string list option" where
  "layers_lines ls count i =
     (if i < count then
        if i < 0 \<or> int (length ls) \<le> i then None
        else do {
          lid \<leftarrow> cstr (l_id (ls ! nat i));
          rest \<leftarrow> layers_lines ls count (i + 1);
          Some ((''    \"'' @ lid @ ''\"'' @ (if i < count - 1 then '','' else [])) # rest)
        }
      else Some [])"
  by pat_completeness auto
termination layers_lines
  by (relation "measure (\<lambda>(ls, count, i). nat (count - i))") auto

declare layers_lines.simps [simp del]

definition image_lines :: "image_info \<Rightarrow> string list option" where
  "image_lines im = do {
     iid \<leftarrow> cstr (i_id im);
     name \<leftarrow> cstr (i_name im);
     tag \<leftarrow> cstr (i_tag im);
     parent_id \<leftarrow> cstr (i_parent_id im);
     created \<leftarrow> cstr (i_created im);
     sz \<leftarrow> cstr (i_size im);
     architecture \<leftarrow> cstr (i_architecture im);
     os_name \<leftarrow> cstr (i_os im);
     author \<leftarrow> cstr (i_author im);
     comment \<leftarrow> cstr (i_comment im);
     command \<leftarrow> cstr (i_command im);
     working_dir \<leftarrow> cstr (i_working_dir im);
     env_vars \<leftarrow> cstr (i_env_vars im);
     exposed_ports \<leftarrow> cstr (i_exposed_ports im);
     volumes \<leftarrow> cstr (i_volumes im);
     layers \<leftarrow> layers_lines (i_layers im) (i_layer_count im) 0;
     Some
       ([''{'',
         str_line ''id'' iid,
         str_line ''name'' name,
         str_line ''tag'' tag,
         str_line ''parent'' parent_id,
         str_line ''created'' created,
         str_line ''size'' sz,
         str_line ''architecture'' architecture,
         str_line ''os'' os_name,
         str_line ''author'' author,
         str_line ''comment'' comment,
         ''  \"config\": {'',
         ''    \"Cmd\": [\"'' @ command @ ''\"],'',
         ''    \"WorkingDir\": \"'' @ working_dir @ ''\",'',
         ''    \"Env\": [\"'' @ env_vars @ ''\"],'',
         ''    \"ExposedPorts\": {\"'' @ exposed_ports @ ''\": {}},'',
         ''    \"Volumes\": {\"'' @ volumes @ ''\": {}}'',
         ''  },'',
         ''  \"layers\": [''] @ layers @ [''  ]'', ''}''])
   }"

definition write_image_metadata :: "os \<Rightarrow> image_info \<Rightarrow> world \<Rightarrow> (int \<times> world) option" where
  "write_image_metadata os im w = do {
     name \<leftarrow> cstr (i_name im);
     tag \<leftarrow> cstr (i_tag im);
     let metadata_path = image_metadata_path (snprintf 322 (get_image_full_name name (Some tag)));
     (if may_write os metadata_path w
      then image_lines im \<bind> (\<lambda>ls. Some (0, snd (write_file os metadata_path (file_text ls) w)))
      else Some (- 1, w))
   }"

definition image_line :: "image_info \<Rightarrow> string \<Rightarrow> image_info option" where
  "image_line im line =
     (if contains line (quoted ''id'') then
        map_option (\<lambda>b. im\<lparr>i_id := b\<rparr>) (scan_str_into (sscanf line (str_fmt ''id'')) (i_id im))
      else if contains line (quoted ''name'') then
        map_option (\<lambda>b. im\<lparr>i_name := b\<rparr>) (scan_str_into (sscanf line (str_fmt ''name'')) (i_name im))
      else if contains line (quoted ''tag'') then
        map_option (\<lambda>b. im\<lparr>i_tag := b\<rparr>) (scan_str_into (sscanf line (str_fmt ''tag'')) (i_tag im))
      else if contains line (quoted ''created'') then
        map_option (\<lambda>b. im\<lparr>i_created := b\<rparr>) (scan_str_into (sscanf line (str_fmt ''created'')) (i_created im))
      else if contains line (quoted ''size'') then
        map_option (\<lambda>b. im\<lparr>i_size := b\<rparr>) (scan_str_into (sscanf line (str_fmt ''size'')) (i_size im))
      else Some im)"

definition read_image_metadata ::
  "os \<Rightarrow> string \<Rightarrow> image_info \<Rightarrow> world \<Rightarrow> (int \<times> image_info) option" where
  "read_image_metadata os image_id im w =
     (case read_file os (image_metadata_path image_id) w of
        None \<Rightarrow> Some (- 1, im)
      | Some s \<Rightarrow> each_line image_line im (fgets_lines 1024 s) \<bind> (\<lambda>im'. Some (0, im')))"

section \<open>Operations\<close>

text \<open>\<open>fscanf\<close> reads the first number the pipe prints; the result is 0 when there is none.\<close>

definition calculate_directory_size :: "os \<Rightarrow> path \<Rightarrow> world \<Rightarrow> int option" where
  "calculate_directory_size os p w =
     (case pipe os (snprintf 1024 (''du -sb '' @ p @ '' 2>/dev/null | cut -f1'')) (files w) of
        None \<Rightarrow> Some 0
      | Some out \<Rightarrow> scan_int_into (sscanf out ''%d'') 0)"

definition create_image ::
  "os \<Rightarrow> layer_info \<Rightarrow> string \<Rightarrow> string option \<Rightarrow> string option \<Rightarrow> string option \<Rightarrow> world \<Rightarrow> (int \<times> world) option" where
  "create_image os g name tag dockerfile_path context_path w = do {
     let (iid, w1) = generate_image_id os w;
     idb \<leftarrow> strcpy (zbuf 64) iid;
     arch \<leftarrow> strcpy (zbuf 32) ''amd64'';
     osb \<leftarrow> strcpy (zbuf 32) ''linux'';
     author \<leftarrow> strcpy (zbuf 128) ''docker-clone'';
     let (now, w2) = time_now os w1;
     let (layer_id, w3) = generate_layer_id os w2;
     let (r, w4) = create_layer os None (Some ''FROM scratch'') context_path w3;
     (if r \<noteq> 0 then Some (- 1, w4)
      else
        let (ok, w5) = malloc os w4 in
        if \<not> ok then Some (- 1, w5)
        else do {
          lid \<leftarrow> strcpy (l_id g) layer_id;
          lcmd \<leftarrow> strcpy (l_command g) ''FROM scratch'';
          size \<leftarrow> calculate_directory_size os (layer_path layer_id) w5;
          let im = zero_image
            \<lparr>i_id := idb, i_name := strncpy_sz (zbuf 256) name,
             i_tag := strncpy_sz (zbuf 64) (or_default tag ''latest''),
             i_architecture := arch, i_os := osb, i_author := author,
             i_created := snprintf_buf (zbuf 32) (dec_int (sint now)),
             i_layers := [g\<lparr>l_id := lid, l_command := lcmd\<rparr>], i_layer_count := 1,
             i_size := snprintf_buf (zbuf 32) (dec_int size)\<rparr>;
          (r2, w6) \<leftarrow> write_image_metadata os im w5;
          (if r2 \<noteq> 0 then Some (- 1, w6) else Some (0, w6))
        })
   }"

text \<open>\<open>gs k\<close> is the k-th array element before the reader fills it.\<close>

fun list_images_loop ::
  "os \<Rightarrow> (nat \<Rightarrow> image_info) \<Rightarrow> world \<Rightarrow> string list \<Rightarrow> image_info list \<Rightarrow> image_info list option" where
  "list_images_loop os gs w [] acc = Some acc"
| "list_images_loop os gs w (e # es) acc =
     (if contains e ''.json'' then
        read_image_metadata os (snprintf 512 (METADATA_DIR @ ''/'' @ e)) (gs (length acc)) w \<bind>
          (\<lambda>(r, im). list_images_loop os gs w es (if r = 0 then acc @ [im] else acc))
      else list_images_loop os gs w es acc)"

text \<open>\<open>image_list_t\<close>: the array, with \<open>count\<close> its length. The inner \<open>None\<close> is the
  null pointer.\<close>

definition list_images ::
  "os \<Rightarrow> (nat \<Rightarrow> image_info) \<Rightarrow> world \<Rightarrow> (image_info list option \<times> world) option" where
  "list_images os gs w =
     (let (ok, w1) = malloc os w in
      if \<not> ok then Some (None, w1)
      else case read_dir os METADATA_DIR w1 of
        None \<Rightarrow> Some (None, w1)
      | Some names \<Rightarrow>
          if length (filter (\<lambda>e. contains e ''.json'') names) = 0 then Some (Some [], w1)
          else let (ok2, w2) = malloc os w1 in
            if \<not> ok2 then Some (None, w2)
            else list_images_loop os gs w2 names [] \<bind> (\<lambda>is. Some (Some is, w2)))"

definition get_image_info ::
  "os \<Rightarrow> image_info \<Rightarrow> string \<Rightarrow> world \<Rightarrow> (image_info option \<times> world) option" where
  "get_image_info os g image_id w =
     (let (ok, w1) = malloc os w in
      if \<not> ok then Some (None, w1)
      else read_image_metadata os image_id g w1 \<bind>
             (\<lambda>(r, im). Some (if r \<noteq> 0 then None else Some im, w1)))"

definition remove_image :: "os \<Rightarrow> string \<Rightarrow> world \<Rightarrow> int \<times> world" where
  "remove_image os image_id w =
     (let (e, w1) = unlink os (image_metadata_path image_id) w
      in if e \<noteq> None then (- 1, w1)
         else let (rc, w2) = system os (snprintf 1024 (''rm -rf '' @ layer_path image_id)) w1
           in if rc \<noteq> 0 then (- 1, w2) else (0, w2))"

definition tag_image ::
  "os \<Rightarrow> image_info \<Rightarrow> string \<Rightarrow> string \<Rightarrow> string option \<Rightarrow> world \<Rightarrow> (int \<times> world) option" where
  "tag_image os g image_id name tag w =
     get_image_info os g image_id w \<bind> (\<lambda>(im, w1).
       case im of
         None \<Rightarrow> Some (- 1, w1)
       | Some im \<Rightarrow>
           write_image_metadata os
             (im\<lparr>i_name := strncpy_sz (i_name im) name,
                 i_tag := strncpy_sz (i_tag im) (or_default tag ''latest'')\<rparr>) w1 \<bind>
             (\<lambda>(r, w2). if r \<noteq> 0 then Some (- 1, w2) else Some (0, w2)))"

definition cleanup_image_system :: "os \<Rightarrow> world \<Rightarrow> int \<times> world" where
  "cleanup_image_system os w =
     (let (r, w1) = system os (snprintf 1024 (''rm -rf '' @
            unwords [IMAGE_STORAGE_DIR, LAYER_STORAGE_DIR, METADATA_DIR])) w
      in if r \<noteq> 0 then (- 1, w1) else (0, w1))"

section \<open>Reading back what was written\<close>

definition image_keys :: "string list" where
  "image_keys = [''id'', ''name'', ''tag'', ''created'', ''size'']"

lemma image_keys_plain: "\<forall>k \<in> set image_keys. plain_key k"
  by (simp add: image_keys_def plain_key_def isspace_def)

interpretation ir: keyed_reader image_line image_keys
proof unfold_locales
  show "image_line s l = Some s" if "\<forall>k \<in> set image_keys. \<not> contains l (quoted k)" for s l
    using that by (simp add: image_line_def image_keys_def)
qed (rule image_keys_plain)

definition image_tidy :: "string \<Rightarrow> bool" where
  "image_tidy v \<longleftrightarrow> clean v \<and> v \<notin> set image_keys \<and> length v \<le> 900"

lemma image_key_line:
  assumes "plain_key k" "q \<in> set image_keys" "image_tidy v"
  shows "contains (str_line k v @ [LF]) (quoted q) \<longleftrightarrow> q = k"
proof -
  have p: "plain_key q" using assms(2) image_keys_plain by blast
  have "\<not> plain_key '': ''" by (simp add: plain_key_def isspace_def)
  then have "q \<noteq> '': ''" using p by blast
  then show ?thesis
    using contains_str_line [OF assms(1) _ plain_key_facts(1) [OF p]] assms(2,3) by (auto simp: image_tidy_def)
qed

lemma image_plain [simp]:
  "plain_key ''tag''" "plain_key ''size''" "plain_key ''parent''" "plain_key ''architecture''" "plain_key ''os''"
  "plain_key ''author''" "plain_key ''comment''"
  by (simp_all add: plain_key_def isspace_def)

lemma image_key_literals [simp]:
  "''id'' \<in> set image_keys" "''name'' \<in> set image_keys" "''tag'' \<in> set image_keys"
  "''created'' \<in> set image_keys" "''size'' \<in> set image_keys" "''parent'' \<notin> set image_keys"
  "''architecture'' \<notin> set image_keys" "''os'' \<notin> set image_keys" "''author'' \<notin> set image_keys"
  "''comment'' \<notin> set image_keys"
  by (simp_all add: image_keys_def)

lemma image_line_str:
  assumes "image_tidy v"
  shows "length v < length (i_id c) \<Longrightarrow> image_line c (str_line ''id'' v @ [LF]) = Some (c\<lparr>i_id := refill (i_id c) v\<rparr>)"
    "length v < length (i_name c) \<Longrightarrow> image_line c (str_line ''name'' v @ [LF]) = Some (c\<lparr>i_name := refill (i_name c) v\<rparr>)"
    "length v < length (i_tag c) \<Longrightarrow> image_line c (str_line ''tag'' v @ [LF]) = Some (c\<lparr>i_tag := refill (i_tag c) v\<rparr>)"
    "length v < length (i_created c) \<Longrightarrow>
      image_line c (str_line ''created'' v @ [LF]) = Some (c\<lparr>i_created := refill (i_created c) v\<rparr>)"
    "length v < length (i_size c) \<Longrightarrow> image_line c (str_line ''size'' v @ [LF]) = Some (c\<lparr>i_size := refill (i_size c) v\<rparr>)"
  using assms by (simp_all add: image_line_def image_key_line scan_refill image_tidy_def)

text \<open>The lines the reader does not know, cut at their quotes.\<close>

lemma image_line_other:
  assumes "l @ [LF] = join_dq ps" "\<forall>p \<in> set ps. DQ \<notin> set p" "set (butlast (tl ps)) \<inter> set image_keys = {}"
  shows "image_line c (l @ [LF]) = Some c"
proof (rule ir.skip, rule ballI)
  fix q assume q: "q \<in> set image_keys"
  then have "DQ \<notin> set q" using image_keys_plain plain_key_facts(1) by blast
  then show "\<not> contains (l @ [LF]) (quoted q)"
    unfolding assms(1) using contains_join [OF assms(2)] q assms(3) by blast
qed

lemma image_line_config:
  assumes "image_tidy v"
  shows "image_line c (''    \"Cmd\": [\"'' @ v @ ''\"],'' @ [LF]) = Some c"
    "image_line c (''    \"WorkingDir\": \"'' @ v @ ''\",'' @ [LF]) = Some c"
    "image_line c (''    \"Env\": [\"'' @ v @ ''\"],'' @ [LF]) = Some c"
    "image_line c (''    \"ExposedPorts\": {\"'' @ v @ ''\": {}},'' @ [LF]) = Some c"
    "image_line c (''    \"Volumes\": {\"'' @ v @ ''\": {}}'' @ [LF]) = Some c"
    "image_line c (''    \"'' @ v @ ''\"'' @ [LF]) = Some c"
    "image_line c (''    \"'' @ v @ ''\",'' @ [LF]) = Some c"
    "image_line c (''  \"config\": {'' @ [LF]) = Some c" "image_line c (''  },'' @ [LF]) = Some c"
    "image_line c (''  \"layers\": ['' @ [LF]) = Some c" "image_line c (''  ]'' @ [LF]) = Some c"
  using assms
    image_line_other [of "''    \"Cmd\": [\"'' @ v @ ''\"],''" "[''    '', ''Cmd'', '': ['', v, '']],'' @ [LF]]" c]
    image_line_other [of "''    \"Cmd\": [\"'' @ v @ ''\"],''" "[''    '', ''Cmd'', '': ['', v, ''],'' @ [LF]]" c]
    image_line_other [of "''    \"WorkingDir\": \"'' @ v @ ''\",''" "[''    '', ''WorkingDir'', '': '', v, '','' @ [LF]]" c]
    image_line_other [of "''    \"Env\": [\"'' @ v @ ''\"],''" "[''    '', ''Env'', '': ['', v, ''],'' @ [LF]]" c]
    image_line_other [of "''    \"ExposedPorts\": {\"'' @ v @ ''\": {}},''" "[''    '', ''ExposedPorts'', '': {'', v, '': {}},'' @ [LF]]" c]
    image_line_other [of "''    \"Volumes\": {\"'' @ v @ ''\": {}}''" "[''    '', ''Volumes'', '': {'', v, '': {}}'' @ [LF]]" c]
    image_line_other [of "''    \"'' @ v @ ''\"''" "[''    '', v, [LF]]" c]
    image_line_other [of "''    \"'' @ v @ ''\",''" "[''    '', v, '','' @ [LF]]" c]
    image_line_other [of "''  \"config\": {''" "[''  '', ''config'', '': {'' @ [LF]]" c]
    image_line_other [of "''  },''" "[''  },'' @ [LF]]" c]
    image_line_other [of "''  \"layers\": [''" "[''  '', ''layers'', '': ['' @ [LF]]" c]
    image_line_other [of "''  ]''" "[''  ]'' @ [LF]]" c]
  by (simp_all add: image_keys_def image_tidy_def clean_def)

definition image_tidy_buf :: "buf \<Rightarrow> bool" where
  "image_tidy_buf b \<longleftrightarrow> (case cstr b of None \<Rightarrow> False | Some v \<Rightarrow> image_tidy v)"

definition image_bufs :: "image_info \<Rightarrow> buf list" where
  "image_bufs im = [i_id im, i_name im, i_tag im, i_parent_id im, i_created im, i_size im, i_architecture im, i_os im,
     i_author im, i_comment im, i_command im, i_working_dir im, i_env_vars im, i_exposed_ports im, i_volumes im]"

text \<open>All arrays terminated with tidy contents; the layer count is that of the array.\<close>

definition tidy_image :: "image_info \<Rightarrow> bool" where
  "tidy_image im \<longleftrightarrow> list_all image_tidy_buf (image_bufs im) \<and>
     list_all (\<lambda>l. image_tidy_buf (l_id l)) (i_layers im) \<and> i_layer_count im = int (length (i_layers im))"

definition image_sized :: "image_info \<Rightarrow> bool" where
  "image_sized im \<longleftrightarrow> length (i_id im) = 64 \<and> length (i_name im) = 256 \<and> length (i_tag im) = 64 \<and>
     length (i_created im) = 32 \<and> length (i_size im) = 32"

definition image_reload :: "image_info \<Rightarrow> image_info \<Rightarrow> image_info" where
  "image_reload g im = g\<lparr>i_id := refill (i_id g) (str (i_id im)), i_name := refill (i_name g) (str (i_name im)),
     i_tag := refill (i_tag g) (str (i_tag im)), i_created := refill (i_created g) (str (i_created im)),
     i_size := refill (i_size g) (str (i_size im))\<rparr>"

lemma image_tidy_bufD: "image_tidy_buf b \<Longrightarrow> cstr b = Some (str b)" "image_tidy_buf b \<Longrightarrow> image_tidy (str b)"
  "image_tidy_buf b \<Longrightarrow> length (str b) < length b"
  by (auto simp: image_tidy_buf_def str_def cstr_length split: option.splits)

text \<open>A line the reading loop sees unchanged.\<close>

definition whole :: "string \<Rightarrow> bool" where
  "whole l \<longleftrightarrow> LF \<notin> set l \<and> no_nul l \<and> length l \<le> 1022"

lemma whole_c_line: "whole l \<Longrightarrow> c_line (l @ [LF]) = l @ [LF]"
  by (auto simp: whole_def c_line_def no_nul_def takeWhile_eq_all_conv)

lemma whole_str_line: "image_tidy v \<Longrightarrow> plain_key k \<Longrightarrow> length k \<le> 20 \<Longrightarrow> whole (str_line k v)"
  using plain_key_facts(2,3) [of k] by (auto simp: whole_def str_line_def image_tidy_def clean_def)

lemma whole_config:
  assumes "image_tidy v"
  shows "whole (''    \"Cmd\": [\"'' @ v @ ''\"],'')" "whole (''    \"WorkingDir\": \"'' @ v @ ''\",'')"
    "whole (''    \"Env\": [\"'' @ v @ ''\"],'')" "whole (''    \"ExposedPorts\": {\"'' @ v @ ''\": {}},'')"
    "whole (''    \"Volumes\": {\"'' @ v @ ''\": {}}'')"
  using assms by (simp_all add: whole_def image_tidy_def clean_def)

lemma whole_fixed: "whole ''{''" "whole ''}''" "whole ''  \"config\": {''" "whole ''  },''" "whole ''  \"layers\": [''" "whole ''  ]''"
  by (simp_all add: whole_def)

lemma image_line_skip:
  "image_tidy v \<Longrightarrow> plain_key k \<Longrightarrow> k \<notin> set image_keys \<Longrightarrow> image_line c (str_line k v @ [LF]) = Some c"
  by (auto intro: ir.skip_str_line simp: image_tidy_def)

lemma layers_lines_ok:
  assumes "list_all (\<lambda>l. image_tidy_buf (l_id l)) ls" "0 \<le> i"
  shows "\<exists>xs. layers_lines ls (int (length ls)) i = Some xs \<and>
     (\<forall>x \<in> set xs. whole x \<and> (\<forall>c. image_line c (x @ [LF]) = Some c))"
  using assms(2)
proof (induction "nat (int (length ls) - i)" arbitrary: i)
  case 0
  then show ?case by (simp add: layers_lines.simps)
next
  case (Suc k)
  then have i: "i < int (length ls)" "nat i < length ls" by linarith+
  have k: "k = nat (int (length ls) - (i + 1))" using Suc.hyps(2) by linarith
  obtain xs where xs: "layers_lines ls (int (length ls)) (i + 1) = Some xs"
    "\<forall>x \<in> set xs. whole x \<and> (\<forall>c. image_line c (x @ [LF]) = Some c)"
    using Suc.hyps(1) [OF k] Suc.prems by auto
  have t: "image_tidy_buf (l_id (ls ! nat i))" using assms(1) i(2) by (simp add: list_all_length)
  let ?v = "str (l_id (ls ! nat i))"
  let ?x = "''    \"'' @ ?v @ ''\"'' @ (if i < int (length ls) - 1 then '','' else [])"
  have "whole ?x" using image_tidy_bufD(2) [OF t] by (auto simp: whole_def image_tidy_def clean_def)
  moreover have "image_line c (?x @ [LF]) = Some c" for c
    using image_line_config(6,7) [OF image_tidy_bufD(2) [OF t], of c] by simp
  ultimately show ?case
    using xs i Suc.prems image_tidy_bufD(1) [OF t] by (subst layers_lines.simps) simp
qed

lemma read_image_text:
  assumes "tidy_image im" "image_sized im" "image_sized g"
  obtains ls where "image_lines im = Some ls"
    "each_line image_line g (fgets_lines 1024 (file_text ls)) = Some (image_reload g im)"
proof -
  note t = assms(1) [unfolded tidy_image_def image_bufs_def, simplified]
  obtain xs where xs: "layers_lines (i_layers im) (i_layer_count im) 0 = Some xs"
    "\<forall>x \<in> set xs. whole x \<and> (\<forall>c. image_line c (x @ [LF]) = Some c)"
    using layers_lines_ok [of "i_layers im" 0] t by auto
  define ls where "ls = the (image_lines im)"
  have ls: "image_lines im = Some ls" using t xs(1) by (simp add: image_lines_def ls_def image_tidy_bufD)
  have w: "\<forall>l \<in> set ls. whole l"
    using t xs image_tidy_bufD(2)
    by (simp add: ls_def image_lines_def image_tidy_bufD whole_str_line whole_config [simplified] whole_fixed)
  have sk: "each_line image_line c (map (\<lambda>x. x @ [LF]) xs @ r) = each_line image_line c r" for c r
    unfolding each_line_append
    by (subst each_line_skip) (use xs(2) whole_c_line in auto)
  have "fgets_lines 1024 (file_text ls) = map (\<lambda>l. l @ [LF]) ls"
    using w by (intro fgets_lines_file_text) (auto simp: whole_def)
  moreover have "each_line image_line g (map (\<lambda>l. l @ [LF]) ls) = Some (image_reload g im)"
  proof -
    have cl: "c_line (''{'' @ [LF]) = ''{'' @ [LF]" "c_line (''}'' @ [LF]) = ''}'' @ [LF]"
      "c_line (''  \"config\": {'' @ [LF]) = ''  \"config\": {'' @ [LF]" "c_line (''  },'' @ [LF]) = ''  },'' @ [LF]"
      "c_line (''  \"layers\": ['' @ [LF]) = ''  \"layers\": ['' @ [LF]" "c_line (''  ]'' @ [LF]) = ''  ]'' @ [LF]"
      using whole_fixed whole_c_line by blast+
    have nil: "image_tidy []" by (simp add: image_tidy_def clean_def image_keys_def)
    have xs1: "layers_lines (i_layers im) (int (length (i_layers im))) 0 = Some xs" using xs(1) t by simp
    show ?thesis
      using t assms(2,3) image_tidy_bufD(3) [of "i_id im"] image_tidy_bufD(3) [of "i_name im"] image_tidy_bufD(3) [of "i_tag im"]
        image_tidy_bufD(3) [of "i_created im"] image_tidy_bufD(3) [of "i_size im"]
      by (simp add: ls_def image_lines_def xs1 image_tidy_bufD sk cl [simplified] ir.skip_brace [simplified]
          whole_c_line [OF whole_str_line] whole_c_line [OF whole_config(1), simplified]
          whole_c_line [OF whole_config(2), simplified] whole_c_line [OF whole_config(3), simplified]
          whole_c_line [OF whole_config(4), simplified] whole_c_line [OF whole_config(5), simplified]
          image_line_str image_line_config(1-5) [simplified]
          image_line_config(8-11) [OF nil, simplified] image_line_skip image_sized_def image_reload_def)
  qed
  ultimately show thesis using that ls by simp
qed

text \<open>The path under which the record with this name and tag is stored.\<close>

lemma image_write_then_read:
  assumes "tidy_image im" "image_sized im" "image_sized g"
    and "path = image_metadata_path (snprintf 322 (get_image_full_name (str (i_name im)) (Some (str (i_tag im)))))"
    and "may_write os path w" "path = image_metadata_path k" "\<not> deny_read os path"
  shows "\<exists>w'. write_image_metadata os im w = Some (0, w') \<and> (\<forall>q. q \<noteq> path \<longrightarrow> lookup w' q = lookup w q) \<and>
              lookup w' path \<noteq> None \<and> read_image_metadata os k g w' = Some (0, image_reload g im)"
proof -
  obtain ls where ls: "image_lines im = Some ls"
    "each_line image_line g (fgets_lines 1024 (file_text ls)) = Some (image_reload g im)"
    using read_image_text [OF assms(1-3)] by blast
  have t: "cstr (i_name im) = Some (str (i_name im))" "cstr (i_tag im) = Some (str (i_tag im))"
    using assms(1) by (auto simp: tidy_image_def image_bufs_def image_tidy_bufD)
  let ?w = "snd (write_file os path (file_text ls) w)"
  have "write_image_metadata os im w = Some (0, ?w)"
    using assms(5) t by (simp add: write_image_metadata_def assms(4) [symmetric] ls(1))
  moreover have "read_image_metadata os k g ?w = Some (0, image_reload g im)"
    using assms(5-7) by (simp add: read_image_metadata_def read_file_def write_file_def fs_simps ls(2))
  moreover have "\<forall>q. q \<noteq> path \<longrightarrow> lookup ?w q = lookup w q" "lookup ?w path \<noteq> None"
    using assms(5) by (simp_all add: write_file_def fs_simps)
  ultimately show ?thesis by blast
qed

section \<open>Creating and finding an image\<close>

lemma image_dir_names:
  "length IMAGE_STORAGE_DIR = 18" "length LAYER_STORAGE_DIR = 18" "length METADATA_DIR = 20"
  by (simp_all add: IMAGE_STORAGE_DIR_def LAYER_STORAGE_DIR_def METADATA_DIR_def)

lemma image_paths:
  assumes "length k < 400"
  shows "image_metadata_path k = METADATA_DIR @ ''/'' @ k @ ''.json''" "layer_path k = LAYER_STORAGE_DIR @ ''/'' @ k"
  using assms image_dir_names by (simp_all add: image_metadata_path_def layer_path_def snprintf_id)

interpretation ik: keyed_files image_metadata_path METADATA_DIR "\<lambda>k. length k < 400"
  by unfold_locales (simp add: image_paths)

lemma stamp_props: "length (stamp t) = 16" "clean (stamp t)" "CHR ''/'' \<notin> set (stamp t)"
  using hex_pad_chars [of 8] by (auto simp: stamp_def clean_def no_nul_def)

lemma stamp_inj: "stamp a = stamp b \<longleftrightarrow> a = b"
proof
  assume "stamp a = stamp b"
  then have "unat (ucast a :: 32 word) = unat (ucast b :: 32 word)"
    "unat (ucast (signed_drop_bit 32 a) :: 32 word) = unat (ucast (signed_drop_bit 32 b) :: 32 word)"
    unfolding stamp_def
    by (simp_all add: append_eq_append_conv hex_pad_inj [OF unat_word32_less unat_word32_less])
  then show "a = b" by (intro halves_determine) (auto intro: unsigned_word_eqI)
qed simp

lemma layer_id_eq: "layer_id_at t = ''layer_'' @ stamp t" and image_id_eq: "image_id_at t = ''sha256:'' @ stamp t"
  by (simp_all add: layer_id_at_def image_id_at_def snprintf_id stamp_props)

lemma layer_dirs:
  assumes "lid = layer_id_at t"
  shows "layer_path lid = LAYER_STORAGE_DIR @ ''/'' @ lid" "parent (layer_path lid) = LAYER_STORAGE_DIR"
    "snprintf 512 (layer_path lid @ ''/'' @ lid @ ''.json'') = LAYER_STORAGE_DIR @ ''/'' @ lid @ ''/'' @ lid @ ''.json''"
    "parent (LAYER_STORAGE_DIR @ ''/'' @ lid @ ''/'' @ lid @ ''.json'') = layer_path lid"
    "length lid = 22" "clean lid"
proof -
  have l: "length lid = 22" "CHR ''/'' \<notin> set lid" "clean lid"
    using stamp_props [of t] by (auto simp: assms layer_id_eq clean_def)
  then show "length lid = 22" "clean lid" "layer_path lid = LAYER_STORAGE_DIR @ ''/'' @ lid"
    "parent (layer_path lid) = LAYER_STORAGE_DIR"
    using parent_slash [of lid LAYER_STORAGE_DIR] by (simp_all add: image_paths)
  then show "snprintf 512 (layer_path lid @ ''/'' @ lid @ ''.json'') = LAYER_STORAGE_DIR @ ''/'' @ lid @ ''/'' @ lid @ ''.json''"
    "parent (LAYER_STORAGE_DIR @ ''/'' @ lid @ ''/'' @ lid @ ''.json'') = layer_path lid"
    using l image_dir_names parent_slash [of "lid @ ''.json''" "LAYER_STORAGE_DIR @ ''/'' @ lid"] by (simp_all add: snprintf_id)
qed

text \<open>A store with its directories and no layer.\<close>

definition no_layers :: "world \<Rightarrow> bool" where
  "no_layers w \<longleftrightarrow> lookup w LAYER_STORAGE_DIR = Some Dir \<and> (\<forall>q. prefix (LAYER_STORAGE_DIR @ ''/'') q \<longrightarrow> lookup w q = None)"

lemma create_layer_run:
  assumes "no_layers w" "calm os" "lid = layer_id_at (clock os (ticks w))"
  obtains w' where "create_layer os p c None w = (0, w')" "lookup w' (layer_path lid) = Some Dir"
    "\<forall>q. \<not> prefix (LAYER_STORAGE_DIR @ ''/'') q \<longrightarrow> lookup w' q = lookup w q" "allocs w' = allocs w"
proof -
  note d = layer_dirs [OF assms(3)]
  let ?l = "layer_path lid" and ?m = "LAYER_STORAGE_DIR @ ''/'' @ lid @ ''/'' @ lid @ ''.json''"
  define w1 where "w1 = w\<lparr>ticks := Suc (ticks w)\<rparr>"
  have l1: "lookup w1 q = lookup w q" for q by (simp add: w1_def fs_simps)
  have pre: "prefix (LAYER_STORAGE_DIR @ ''/'') ?l" "prefix (LAYER_STORAGE_DIR @ ''/'') ?m" "?l \<noteq> ?m" "?l \<noteq> []" "?m \<noteq> []"
    using d(1) by simp_all
  then have free: "lookup w ?l = None" "lookup w ?m = None" using assms(1) by (auto simp: no_layers_def)
  have mk: "mkdir os ?l w1 = (None, put ?l Dir w1)"
    using assms(1,2) pre(4) free(1) d(2) by (simp add: mkdir_def parent_ok_def l1 no_layers_def calm_def)
  have mw: "may_write os ?m (put ?l Dir w1)"
    using assms(2) pre free(2) d(4) by (simp add: may_write_def parent_ok_def fs_simps l1 calm_def)
  have w1: "time_now os w = (clock os (ticks w), w1)" by (simp add: time_now_def w1_def)
  let ?v = "put ?l Dir w1"
  let ?t = "file_text (layer_lines lid (or_default p []) (sint (clock os (ticks ?v))) (or_default c []))"
  let ?w = "put ?m (File ?t) (?v\<lparr>ticks := Suc (ticks ?v)\<rparr>)"
  have mw': "may_write os ?m (?v\<lparr>ticks := Suc (ticks ?v)\<rparr>)"
    using mw by (simp add: fs_simps)
  have "create_layer os p c None w = (0, ?w)"
    using mw mw' unfolding create_layer_def generate_layer_id_def w1 Let_def prod.case assms(3) [symmetric] mk d(3)
    by (simp add: time_now_def write_file_def)
  moreover have "lookup ?w ?l = Some Dir" using pre(3) by (simp add: fs_simps)
  moreover have "\<forall>q. \<not> prefix (LAYER_STORAGE_DIR @ ''/'') q \<longrightarrow> lookup ?w q = lookup w q"
    using pre(1,2) by (auto simp: fs_simps l1)
  moreover have "allocs ?w = allocs w" by (simp add: frame_simps w1_def)
  ultimately show thesis by (rule that)
qed

text \<open>A value that fits an array of \<open>n\<close> bytes and is read back from the file.\<close>

definition image_fits :: "nat \<Rightarrow> string \<Rightarrow> bool" where
  "image_fits n v \<longleftrightarrow> image_tidy v \<and> length v < n"

lemma image_strncpy: "image_fits n v \<Longrightarrow> image_tidy_buf (strncpy_sz (zbuf n) v) \<and> str (strncpy_sz (zbuf n) v) = v"
  using cstr_strncpy_sz [of n "zbuf n" v]
  by (cases "n = 0") (auto simp: image_fits_def image_tidy_def clean_def image_tidy_buf_def str_def)

lemma image_strcpy: "strcpy b v = Some b' \<Longrightarrow> image_tidy v \<Longrightarrow> image_tidy_buf b' \<and> str b' = v"
  by (auto simp: image_tidy_buf_def str_def cstr_strcpy image_tidy_def clean_def)

lemma image_key_digits: "k \<in> set image_keys \<Longrightarrow> \<exists>c \<in> set k. \<not> isdigit c \<and> c \<noteq> CHR ''-''"
  by (auto simp: image_keys_def isdigit_def)

lemma image_tidy_number: "image_tidy (snprintf 32 (dec_int n))"
proof -
  have "snprintf 32 (dec_int n) \<notin> set image_keys"
  proof
    assume "snprintf 32 (dec_int n) \<in> set image_keys"
    then obtain c where "c \<in> set (dec_int n)" "\<not> isdigit c" "c \<noteq> CHR ''-''"
      using image_key_digits by (metis in_set_takeD snprintf_def)
    then show False using dec_int_chars by blast
  qed
  moreover have "clean (snprintf 32 (dec_int n))"
    using dec_int_clean [of n] by (auto simp: clean_def snprintf_def dest: in_set_takeD)
  ultimately show ?thesis by (simp add: image_tidy_def snprintf_def)
qed

lemma image_tidy_stamp: "image_tidy (''layer_'' @ stamp t)" "image_tidy (''sha256:'' @ stamp t)"
  using stamp_props [of t] by (auto simp: image_tidy_def clean_def image_keys_def)

lemma image_number_buf: "image_tidy_buf (snprintf_buf (zbuf 32) (dec_int n))"
  using image_tidy_number [of n] cstr_snprintf_buf [of "zbuf 32" "dec_int n"] by (auto simp: image_tidy_buf_def zbuf_def)

lemma image_zbuf: "0 < n \<Longrightarrow> image_tidy_buf (zbuf n)"
  by (simp add: image_tidy_buf_def cstr_zbuf image_tidy_def clean_def image_keys_def)

lemma image_full_name:
  assumes "length name < 256" "length t < 64" "t \<noteq> []" "t = or_default tag ''latest''"
  shows "get_image_full_name name tag = name @ '':'' @ t" "get_image_full_name name (Some t) = name @ '':'' @ t"
    "snprintf 322 (name @ '':'' @ t) = name @ '':'' @ t"
  using assms by (auto simp: get_image_full_name_def or_default_def snprintf_id split: option.splits)

definition sane_pipe :: "os \<Rightarrow> bool" where
  "sane_pipe os \<longleftrightarrow> (\<forall>p w. calculate_directory_size os p w \<noteq> None)"

text \<open>
  C7. An image that \<open>create_image\<close> stores can be found under its full name: on a store that has
  its directories, creating succeeds, \<open>image_exists\<close> answers yes, and reading \<open>name:tag\<close> gives
  the name, the tag and the identifier of the first clock reading. The layer directory is the one
  named after the fourth clock reading.
\<close>

theorem create_image_found:
  assumes "no_layers w" "lookup w METADATA_DIR = Some Dir" "calm os" "alloc os (allocs w)" "sane_pipe os"
    and "image_fits 256 name" "image_fits 64 t" "t = or_default tag ''latest''" "name \<noteq> []" "t \<noteq> []"
    and "CHR ''/'' \<notin> set name" "CHR ''/'' \<notin> set t" "k = name @ '':'' @ t" "lookup w (image_metadata_path k) \<noteq> Some Dir"
    and "length (l_id g) = 64" "length (l_command g) = 1024" "image_sized g'"
  shows "\<exists>w' im. create_image os g name tag df None w = Some (0, w') \<and> image_exists name tag w' \<and>
    read_image_metadata os k g' w' = Some (0, im) \<and>
    cstr (i_name im) = Some name \<and> cstr (i_tag im) = Some t \<and>
    cstr (i_id im) = Some (image_id_at (clock os (ticks w))) \<and>
    lookup w' (layer_path (layer_id_at (clock os (ticks w + 3)))) = Some Dir"
proof -
  have nt: "length name < 256" "length t < 64" using assms(6,7) by (auto simp: image_fits_def)
  note fn = image_full_name [OF nt assms(10,8)]
  have k: "length k < 400" "CHR ''/'' \<notin> set k" using nt assms(11-13) by auto
  let ?m = "image_metadata_path k"
  define w3 where "w3 = w\<lparr>ticks := ticks w + 3\<rparr>"
  define lid where "lid = layer_id_at (clock os (Suc (Suc (ticks w))))"
  define lnew where "lnew = layer_id_at (clock os (ticks w3))"
  have l3: "lookup w3 q = lookup w q" for q by (simp add: w3_def fs_simps)
  have a3: "allocs w3 = allocs w" by (simp add: w3_def)
  have nl: "no_layers w3" using assms(1) by (simp add: no_layers_def l3)
  obtain w4 where w4: "create_layer os None (Some ''FROM scratch'') None w3 = (0, w4)"
    "lookup w4 (layer_path lnew) = Some Dir"
    "\<forall>q. \<not> prefix (LAYER_STORAGE_DIR @ ''/'') q \<longrightarrow> lookup w4 q = lookup w q" "allocs w4 = allocs w"
    using create_layer_run [OF nl assms(3) lnew_def, of None "Some ''FROM scratch''"] unfolding l3 a3 by blast
  define w5 where "w5 = w4\<lparr>allocs := Suc (allocs w4)\<rparr>"
  obtain size where size: "calculate_directory_size os (layer_path lid) w5 = Some size"
    using assms(5) by (auto simp: sane_pipe_def)
  define im where "im = zero_image
      \<lparr>i_id := image_id_at (clock os (ticks w)) @ NUL # drop (Suc 23) (zbuf 64), i_name := strncpy_sz (zbuf 256) name,
       i_tag := strncpy_sz (zbuf 64) t, i_architecture := the (strcpy (zbuf 32) ''amd64''),
       i_os := the (strcpy (zbuf 32) ''linux''), i_author := the (strcpy (zbuf 128) ''docker-clone''),
       i_created := snprintf_buf (zbuf 32) (dec_int (sint (clock os (Suc (ticks w))))),
       i_layers := [g\<lparr>l_id := lid @ NUL # drop (Suc 22) (l_id g), l_command := the (strcpy (l_command g) ''FROM scratch'')\<rparr>],
       i_layer_count := 1, i_size := snprintf_buf (zbuf 32) (dec_int size)\<rparr>"
  have li: "length (image_id_at x) = 23" "clean (image_id_at x)" for x
    using stamp_props [of x] by (simp_all add: image_id_eq clean_def)
  have ll: "length lid = 22" "clean lid" using layer_dirs(5,6) [OF lid_def] by auto
  have lt: "image_tidy lid" "image_tidy (image_id_at x)" for x
    unfolding lid_def layer_id_eq image_id_eq by (rule image_tidy_stamp)+
  have "image_tidy_buf (lid @ NUL # drop 23 (l_id g))" "image_tidy_buf (image_id_at (clock os (ticks w)) @ NUL # drop 24 (zbuf 64))"
    using ll(2) li(2) lt by (simp_all add: image_tidy_buf_def cstr_string clean_def)
  moreover have "image_tidy_buf (the (strcpy (zbuf 32) ''amd64''))" "image_tidy_buf (the (strcpy (zbuf 32) ''linux''))"
    "image_tidy_buf (the (strcpy (zbuf 128) ''docker-clone''))"
    by (simp_all add: strcpy_def image_tidy_buf_def cstr_def image_tidy_def clean_def image_keys_def)
  ultimately have ti: "tidy_image im"
    using image_strncpy [OF assms(6)] image_strncpy [OF assms(7)]
    by (simp add: im_def tidy_image_def image_bufs_def zero_image_def image_zbuf image_number_buf)
  have si: "image_sized im" using li(1) by (simp add: im_def image_sized_def zero_image_def)
  have nm: "str (i_name im) = name" "str (i_tag im) = t" "str (i_id im) = image_id_at (clock os (ticks w))"
    using image_strncpy [OF assms(6)] image_strncpy [OF assms(7)] li(2) by (simp_all add: im_def str_def cstr_string clean_def)
  have pm: "?m = image_metadata_path (snprintf 322 (get_image_full_name (str (i_name im)) (Some (str (i_tag im)))))"
    using fn nm assms(13) by simp
  have mp: "?m = METADATA_DIR @ ''/'' @ k @ ''.json''" using k(1) by (rule image_paths)
  have np: "\<not> prefix (LAYER_STORAGE_DIR @ ''/'') ?m" "\<not> prefix (LAYER_STORAGE_DIR @ ''/'') METADATA_DIR"
    by (simp_all add: mp LAYER_STORAGE_DIR_def METADATA_DIR_def)
  have "parent ?m = METADATA_DIR" using parent_slash [of "k @ ''.json''" METADATA_DIR] k(2) by (simp add: mp)
  then have mw: "may_write os ?m w5"
    using assms(2,3,14) w4(3) np mp
    by (auto simp: may_write_def parent_ok_def w5_def fs_simps calm_def split: option.splits node.splits)
  obtain w6 where w6: "write_image_metadata os im w5 = Some (0, w6)" "\<forall>q. q \<noteq> ?m \<longrightarrow> lookup w6 q = lookup w5 q"
    "lookup w6 ?m \<noteq> None" "read_image_metadata os k g' w6 = Some (0, image_reload g' im)"
    using image_write_then_read [OF ti si assms(17) pm mw refl] assms(3) by (auto simp: calm_def)
  have tk: "time_now os w = (clock os (ticks w), w\<lparr>ticks := Suc (ticks w)\<rparr>)" for w
    by (simp add: time_now_def)
  have sc: "strcpy (zbuf 64) (image_id_at x) = Some (image_id_at x @ NUL # drop 24 (zbuf 64))"
    "strcpy (l_id g) lid = Some (lid @ NUL # drop 23 (l_id g))" for x
    using li(1) ll(1) assms(15) by (simp_all add: strcpy_def)
  obtain b1 b2 b3 b4 where b: "strcpy (zbuf 32) ''amd64'' = Some b1" "strcpy (zbuf 32) ''linux'' = Some b2"
    "strcpy (zbuf 128) ''docker-clone'' = Some b3" "strcpy (l_command g) ''FROM scratch'' = Some b4"
    using assms(16) by (simp add: strcpy_def)
  have w3': "w\<lparr>ticks := Suc (Suc (Suc (ticks w)))\<rparr> = w3" by (simp add: w3_def eval_nat_numeral)
  have run: "create_image os g name tag df None w = Some (0, w6)"
    using w4(1) w6(1) size assms(4)
    by (simp add: create_image_def Let_def generate_image_id_def generate_layer_id_def tk w3' sc b malloc_def w5_def
        w4(4) lid_def [symmetric] im_def assms(8) [symmetric])
  have "image_exists name tag w6" using fn w6(3) assms(13) by (simp add: image_exists_def access_ok_def)
  moreover have "lookup w6 (layer_path lnew) = Some Dir"
  proof -
    have "prefix (LAYER_STORAGE_DIR @ ''/'') (layer_path lnew)" using layer_dirs(1) [OF lnew_def] by simp
    then have "layer_path lnew \<noteq> ?m" using np(1) by metis
    then show ?thesis using w6(2) w4(2) by (simp add: w5_def fs_simps)
  qed
  moreover have "cstr (i_name (image_reload g' im)) = Some name \<and> cstr (i_tag (image_reload g' im)) = Some t \<and>
      cstr (i_id (image_reload g' im)) = Some (image_id_at (clock os (ticks w)))"
    using assms(6,7,9,10) li [of "clock os (ticks w)"]
    by (cases "image_id_at (clock os (ticks w))") (auto simp: image_reload_def nm cstr_refill image_fits_def image_tidy_def)
  ultimately show ?thesis using run w6(4) by (auto simp: lnew_def w3_def)
qed

definition store_world :: world where
  "store_world = empty_world\<lparr>files := [(''/tmp'', Dir), (LAYER_STORAGE_DIR, Dir), (METADATA_DIR, Dir)]\<rparr>"

definition zero_layer :: layer_info where
  "zero_layer = \<lparr>l_id = zbuf 64, l_parent_id = zbuf 64, l_command = zbuf 1024, l_created = zbuf 32, l_size = zbuf 32,
     l_diff_id = zbuf 64\<rparr>"

lemma lookup_store_world:
  "lookup store_world p = (if p = ''/tmp'' \<or> p = LAYER_STORAGE_DIR \<or> p = METADATA_DIR then Some Dir else None)"
  by (simp add: store_world_def lookup_def)

lemma store_world_empty: "no_layers store_world"
  by (auto simp: no_layers_def lookup_store_world LAYER_STORAGE_DIR_def METADATA_DIR_def)

theorem create_image_found_witness:
  "\<exists>w' im. create_image calm_os zero_layer ''nginx'' None None None store_world = Some (0, w') \<and>
     image_exists ''nginx'' None w' \<and> read_image_metadata calm_os ''nginx:latest'' zero_image w' = Some (0, im) \<and>
     cstr (i_name im) = Some ''nginx''"
proof -
  have c: "calm calm_os" "alloc calm_os (allocs store_world)" "sane_pipe calm_os"
    by (simp_all add: calm_def calm_os_def sane_pipe_def calculate_directory_size_def)
  have f: "image_fits 256 ''nginx''" "image_fits 64 ''latest''" "''latest'' = or_default None ''latest''"
    "''nginx'' \<noteq> []" "''latest'' \<noteq> []" "CHR ''/'' \<notin> set ''nginx''" "CHR ''/'' \<notin> set ''latest''"
    "''nginx:latest'' = ''nginx'' @ '':'' @ ''latest''"
    by (simp_all add: image_fits_def image_tidy_def clean_def image_keys_def or_default_def)
  have d: "lookup store_world METADATA_DIR = Some Dir" "lookup store_world (image_metadata_path ''nginx:latest'') \<noteq> Some Dir"
    by (auto simp: lookup_store_world image_paths METADATA_DIR_def LAYER_STORAGE_DIR_def)
  have z: "length (l_id zero_layer) = 64" "length (l_command zero_layer) = 1024" "image_sized zero_image"
    by (simp_all add: zero_layer_def image_sized_def zero_image_def)
  show ?thesis
    using create_image_found [OF store_world_empty d(1) c f d(2) z] by blast
qed

section \<open>Directories, listing, removing\<close>

lemma init_images_dirs:
  assumes "init_image_system os w = (r, w')"
  shows "q \<noteq> IMAGE_STORAGE_DIR \<Longrightarrow> q \<noteq> METADATA_DIR \<Longrightarrow> lookup w' q = lookup w q"
    "r = 0 \<Longrightarrow> lookup w' IMAGE_STORAGE_DIR \<noteq> None \<and> lookup w' METADATA_DIR \<noteq> None"
proof -
  have mk: "mkdir os d v = (e, v') \<Longrightarrow> e = None \<or> e = Some EEXIST \<Longrightarrow> lookup v' d \<noteq> None" for d v v' e
    by (auto simp: mkdir_def fs_simps split: if_split_asm)
  have mono: "mkdir os d v = (e, v') \<Longrightarrow> lookup v q \<noteq> None \<Longrightarrow> lookup v' q \<noteq> None" for d v v' e q
    by (auto simp: mkdir_def fs_simps split: if_split_asm)
  obtain e1 w1 e2 w2 where m: "mkdir os IMAGE_STORAGE_DIR w = (e1, w1)" "mkdir os METADATA_DIR w1 = (e2, w2)"
    by (meson surj_pair)
  have r: "(r, w') = (if e1 \<noteq> None \<and> e1 \<noteq> Some EEXIST then (- 1, w1)
                      else if e2 \<noteq> None \<and> e2 \<noteq> Some EEXIST then (- 1, w2) else (0, w2))"
    using assms m
    by (auto simp: init_image_system_def create_directory_structure_def image_dirs_loop.simps eval_nat_numeral split: if_split_asm)
  show "q \<noteq> IMAGE_STORAGE_DIR \<Longrightarrow> q \<noteq> METADATA_DIR \<Longrightarrow> lookup w' q = lookup w q"
    using r mkdir_frame [OF m(1)] mkdir_frame [OF m(2)] by (auto split: if_split_asm)
  show "r = 0 \<Longrightarrow> lookup w' IMAGE_STORAGE_DIR \<noteq> None \<and> lookup w' METADATA_DIR \<noteq> None"
    using r mk [OF m(1)] mk [OF m(2)] mono [OF m(2)] by (auto split: if_split_asm)
qed

lemma create_layer_no_dir:
  assumes "lookup w LAYER_STORAGE_DIR \<noteq> Some Dir" "\<forall>q. prefix (LAYER_STORAGE_DIR @ ''/'') q \<longrightarrow> lookup w q = None"
  shows "create_layer os p c d w = (- 1, w\<lparr>ticks := Suc (ticks w)\<rparr>)"
proof -
  let ?lid = "layer_id_at (clock os (ticks w))"
  note d = layer_dirs [of ?lid, OF refl]
  have "lookup w (layer_path ?lid) = None" using assms(2) d(1) by simp
  then have "mkdir os (layer_path ?lid) (w\<lparr>ticks := Suc (ticks w)\<rparr>) = (Some ENOENT, w\<lparr>ticks := Suc (ticks w)\<rparr>)"
    using assms(1) d(2) by (auto simp: mkdir_def parent_ok_def fs_simps LAYER_STORAGE_DIR_def)
  then show ?thesis by (simp add: create_layer_def generate_layer_id_def time_now_def Let_def)
qed

lemma create_image_no_dir:
  assumes "lookup w LAYER_STORAGE_DIR \<noteq> Some Dir" "\<forall>q. prefix (LAYER_STORAGE_DIR @ ''/'') q \<longrightarrow> lookup w q = None"
  shows "create_image os g name tag df ctx w = Some (- 1, w\<lparr>ticks := ticks w + 4\<rparr>)"
proof -
  have tk: "time_now os w = (clock os (ticks w), w\<lparr>ticks := Suc (ticks w)\<rparr>)" for w
    by (simp add: time_now_def)
  have s: "length (image_id_at x) < 64" for x using stamp_props [of x] by (simp add: image_id_eq)
  show ?thesis
    using assms create_layer_no_dir [of "w\<lparr>ticks := Suc (Suc (Suc (ticks w)))\<rparr>"]
    by (simp add: create_image_def generate_image_id_def generate_layer_id_def tk strcpy_def s Let_def fs_simps)
qed

text \<open>
  C29. \<open>init_image_system\<close> never touches the layer directory: its loop steps over every second
  entry. Success leaves the image and the metadata directory in place; on any outcome the layer directory
  is as before, so on a system without it every later \<open>create_image\<close> fails and stores nothing.
\<close>

theorem images_never_created:
  assumes "lookup w LAYER_STORAGE_DIR = None" "\<forall>q. prefix (LAYER_STORAGE_DIR @ ''/'') q \<longrightarrow> lookup w q = None"
    and "init_image_system os w = (r, w1)"
  shows "(r = 0 \<longrightarrow> lookup w1 IMAGE_STORAGE_DIR \<noteq> None \<and> lookup w1 METADATA_DIR \<noteq> None) \<and>
    lookup w1 LAYER_STORAGE_DIR = None \<and>
    (\<exists>w2. create_image os g name tag df ctx w1 = Some (- 1, w2) \<and> (\<forall>q. lookup w2 q = lookup w1 q))"
proof -
  have ne: "LAYER_STORAGE_DIR \<noteq> IMAGE_STORAGE_DIR" "LAYER_STORAGE_DIR \<noteq> METADATA_DIR"
    "\<not> prefix (LAYER_STORAGE_DIR @ ''/'') IMAGE_STORAGE_DIR" "\<not> prefix (LAYER_STORAGE_DIR @ ''/'') METADATA_DIR"
    by (simp_all add: LAYER_STORAGE_DIR_def IMAGE_STORAGE_DIR_def METADATA_DIR_def)
  have "lookup w1 q = None" if "q = LAYER_STORAGE_DIR \<or> prefix (LAYER_STORAGE_DIR @ ''/'') q" for q
    using init_images_dirs(1) [OF assms(3), of q] that ne assms(1,2) by auto
  then show ?thesis
    using create_image_no_dir [of w1 os g name tag df ctx] init_images_dirs(2) [OF assms(3)] by (simp add: fs_simps)
qed

theorem images_never_created_witness:
  "\<exists>w1. init_image_system calm_os empty_world = (0, w1) \<and> create_image calm_os zero_layer ''nginx'' None None None w1 \<noteq> None \<and>
     lookup w1 LAYER_STORAGE_DIR = None"
proof -
  have "fst (init_image_system calm_os empty_world) = 0" by code_simp
  then obtain w1 where i: "init_image_system calm_os empty_world = (0, w1)" by (metis prod.collapse)
  have "lookup empty_world LAYER_STORAGE_DIR = None" "\<forall>q. prefix (LAYER_STORAGE_DIR @ ''/'') q \<longrightarrow> lookup empty_world q = None"
    by (auto simp: lookup_def empty_world_def LAYER_STORAGE_DIR_def)
  then show ?thesis
    using images_never_created [OF _ _ i, of zero_layer "''nginx''" None None None] i by fastforce
qed

lemma list_images_path:
  "prefix (METADATA_DIR @ ''//tmp'') (image_metadata_path (snprintf 512 (METADATA_DIR @ ''/'' @ e)))"
proof -
  have "image_metadata_path (snprintf 512 (METADATA_DIR @ ''/'' @ e)) =
      (METADATA_DIR @ ''//tmp'') @ take 486 (''/docker-metadata/'' @ take 490 e @ ''.json'')"
    by (simp add: image_metadata_path_def snprintf_def METADATA_DIR_def)
  then show ?thesis by (metis prefixI)
qed

lemma list_images_loop_empty:
  "\<forall>q. prefix (METADATA_DIR @ ''//tmp'') q \<longrightarrow> lookup w q = None \<Longrightarrow> list_images_loop os gs w es acc = Some acc"
  by (induction es arbitrary: acc)
    (use list_images_path in \<open>auto simp: read_image_metadata_def read_file_def\<close>)

text \<open>
  \<open>list_images\<close> lists nothing: each entry is read under a path with the directory name twice,
  and no file is ever stored there. The result is the empty list whatever images exist.
\<close>

theorem list_images_empty:
  assumes "\<forall>q. prefix (METADATA_DIR @ ''//tmp'') q \<longrightarrow> lookup w q = None"
  shows "\<exists>r w'. list_images os gs w = Some (r, w') \<and> (r = None \<or> r = Some [])"
proof -
  have "\<forall>q. prefix (METADATA_DIR @ ''//tmp'') q \<longrightarrow> lookup (w\<lparr>allocs := a\<rparr>) q = None" for a
    using assms by (simp add: fs_simps)
  then show ?thesis
    by (auto simp: list_images_def malloc_def list_images_loop_empty split: option.splits)
qed

theorem list_images_empty_witness:
  "\<exists>w r w'. image_exists ''nginx'' None w \<and> list_images calm_os (\<lambda>n. zero_image) w = Some (r, w') \<and> (r = None \<or> r = Some [])"
proof -
  let ?w = "put (image_metadata_path ''nginx:latest'') (File []) store_world"
  have "image_exists ''nginx'' None ?w"
    by (simp add: image_exists_def access_ok_def fs_simps get_image_full_name_def snprintf_def)
  moreover have "\<forall>q. prefix (METADATA_DIR @ ''//tmp'') q \<longrightarrow> lookup ?w q = None"
    by (auto simp: fs_simps lookup_store_world image_paths METADATA_DIR_def LAYER_STORAGE_DIR_def prefix_def)
  ultimately show ?thesis using list_images_empty by blast
qed

text \<open>
  C31. \<open>remove_image\<close>: with a working \<open>rm -rf\<close> it succeeds exactly when the argument names a
  stored metadata file that may be removed, and then that file and everything below the layer directory of the
  same name are gone and nothing else changed; otherwise it fails and changes nothing.
\<close>

theorem remove_image_correct:
  assumes "rm_rf (shell os)" "plain_path (layer_path k)"
  shows "\<exists>r w'. remove_image os k w = (r, w') \<and>
    (r = 0 \<longleftrightarrow> (\<exists>s. lookup w (image_metadata_path k) = Some (File s)) \<and> \<not> deny os (image_metadata_path k)) \<and>
    (r = 0 \<longrightarrow> (\<forall>q. lookup w' q = (if q = image_metadata_path k \<or> under (layer_path k) q then None else lookup w q))) \<and>
    (r \<noteq> 0 \<longrightarrow> r = - 1 \<and> w' = w)"
proof -
  let ?m = "image_metadata_path k" and ?f = "layer_path k"
  have len: "length (''rm -rf '' @ ?f) < 1024"
    using length_snprintf [of 512 "LAYER_STORAGE_DIR @ ''/'' @ k"] by (simp add: layer_path_def)
  obtain w2 where w2: "system os (''rm -rf '' @ ?f) (del ?m w) = (0, w2)"
    "\<And>q. lookup w2 q = (if under ?f q then None else lookup (del ?m w) q)"
    using system_rm [OF assms(1), of "[?f]" "del ?m w"] assms(2) by auto
  show ?thesis
  proof (cases "(\<exists>s. lookup w ?m = Some (File s)) \<and> \<not> deny os ?m")
    case True
    then have "unlink os ?m w = (None, del ?m w)" by (auto simp: unlink_def)
    then have "remove_image os k w = (0, w2)"
      using w2(1) len by (simp add: remove_image_def snprintf_id)
    then show ?thesis using True w2(2) by (simp add: fs_simps)
  next
    case False
    then have "\<exists>e. unlink os ?m w = (Some e, w)" by (auto simp: unlink_def split: option.splits node.splits)
    then have "remove_image os k w = (- 1, w)" by (auto simp: remove_image_def)
    then show ?thesis using False by simp
  qed
qed

theorem remove_image_correct_witness:
  "\<exists>w w'. image_exists ''nginx'' None w \<and> remove_image calm_os ''nginx:latest'' w = (0, w') \<and> \<not> image_exists ''nginx'' None w'"
proof -
  let ?w = "put (image_metadata_path ''nginx:latest'') (File []) store_world"
  have rm: "rm_rf (shell calm_os)" by (simp add: calm_os_def rm_rf_rm_shell)
  have pl: "plain_path (layer_path ''nginx:latest'')" by code_simp
  have ex: "image_exists ''nginx'' None v \<longleftrightarrow> lookup v (image_metadata_path ''nginx:latest'') \<noteq> None" for v
    by (simp add: image_exists_def access_ok_def get_image_full_name_def snprintf_def)
  have nd: "\<not> deny calm_os q" for q by (simp add: calm_os_def)
  obtain w' where w': "remove_image calm_os ''nginx:latest'' ?w = (0, w')"
    "lookup w' (image_metadata_path ''nginx:latest'') = None"
    using remove_image_correct [OF rm pl, of ?w] nd by (auto simp: fs_simps)
  have "image_exists ''nginx'' None ?w" by (simp add: ex fs_simps)
  then show ?thesis using w' ex by blast
qed

end
