(* ===== verification/Dockerfile.thy ===== *)
theory Dockerfile imports Image begin

text \<open>
  The Dockerfile parser and builder, \<open>core/dockerfile.c\<close> and \<open>core/dockerfile.h\<close>. The file
  includes \<open>image.h\<close> after its own header, so \<open>MAX_ENV_VAR_LEN\<close> is 512 in the guards of the parser
  while the arrays \<open>env_vars\<close> and \<open>labels\<close> were declared with 256 entries; both numbers are kept.
\<close>

section \<open>Data\<close>

datatype instruction_type = INSTR_UNKNOWN | INSTR_FROM | INSTR_RUN | INSTR_CMD | INSTR_LABEL | INSTR_EXPOSE | INSTR_ENV
  | INSTR_ADD | INSTR_COPY | INSTR_ENTRYPOINT | INSTR_VOLUME | INSTR_USER | INSTR_WORKDIR | INSTR_ARG | INSTR_ONBUILD
  | INSTR_STOPSIGNAL | INSTR_HEALTHCHECK | INSTR_SHELL

record dockerfile_instruction =
  itype :: instruction_type
  instruction :: buf
  iargs :: buf
  isrc :: buf
  idest :: buf
  line_number :: nat

definition zero_instruction :: dockerfile_instruction where
  "zero_instruction = \<lparr>itype = INSTR_UNKNOWN, instruction = zbuf 32, iargs = zbuf 512, isrc = zbuf 512,
     idest = zbuf 512, line_number = 0\<rparr>"

text \<open>The filled parts of the arrays: \<open>count\<close> is the length of \<open>instructions\<close>, \<open>env_count\<close>
  that of \<open>env_vars\<close>, and so on. An entry is \<open>None\<close> when \<open>strdup\<close> returned null.\<close>

record dockerfile =
  instructions :: "dockerfile_instruction list"
  capacity :: nat
  base_image :: buf
  working_dir :: buf
  user :: buf
  dshell :: buf
  entrypoint :: buf
  dcmd :: buf
  env_vars :: "string option list"
  exposed_ports :: "string option list"
  volumes :: "string option list"
  labels :: "string option list"

definition zero_dockerfile :: dockerfile where
  "zero_dockerfile = \<lparr>instructions = [], capacity = 0, base_image = zbuf 512, working_dir = zbuf 512, user = zbuf 512,
     dshell = zbuf 512, entrypoint = zbuf 512, dcmd = zbuf 512, env_vars = [], exposed_ports = [], volumes = [], labels = []\<rparr>"

definition ENV_ARRAY :: nat where "ENV_ARRAY = 256"
definition MAX_ENV_VAR_LEN :: nat where "MAX_ENV_VAR_LEN = 512"
definition MAX_PORT_LEN :: nat where "MAX_PORT_LEN = 32"
definition MAX_VOLUME_LEN :: nat where "MAX_VOLUME_LEN = 256"

section \<open>Text helpers\<close>

definition get_instruction_type :: "string \<Rightarrow> instruction_type" where
  "get_instruction_type s =
     (if s = ''FROM'' then INSTR_FROM
      else if s = ''RUN'' then INSTR_RUN
      else if s = ''CMD'' then INSTR_CMD
      else if s = ''LABEL'' then INSTR_LABEL
      else if s = ''EXPOSE'' then INSTR_EXPOSE
      else if s = ''ENV'' then INSTR_ENV
      else if s = ''ADD'' then INSTR_ADD
      else if s = ''COPY'' then INSTR_COPY
      else if s = ''ENTRYPOINT'' then INSTR_ENTRYPOINT
      else if s = ''VOLUME'' then INSTR_VOLUME
      else if s = ''USER'' then INSTR_USER
      else if s = ''WORKDIR'' then INSTR_WORKDIR
      else if s = ''ARG'' then INSTR_ARG
      else if s = ''ONBUILD'' then INSTR_ONBUILD
      else if s = ''STOPSIGNAL'' then INSTR_STOPSIGNAL
      else if s = ''HEALTHCHECK'' then INSTR_HEALTHCHECK
      else if s = ''SHELL'' then INSTR_SHELL
      else INSTR_UNKNOWN)"

definition blank :: "char \<Rightarrow> bool" where
  "blank c \<longleftrightarrow> c = CHR '' '' \<or> c = TAB"

definition trailing :: "char \<Rightarrow> bool" where
  "trailing c \<longleftrightarrow> c = CHR '' '' \<or> c = TAB \<or> c = LF \<or> c = CR"

text \<open>The trailing loop stops at the first character of the text, whatever it is.\<close>

definition trim_whitespace :: "string \<Rightarrow> string" where
  "trim_whitespace s =
     (case dropWhile blank s of [] \<Rightarrow> [] | c # r \<Rightarrow> c # rev (dropWhile trailing (rev r)))"

definition is_continuation_line :: "string \<Rightarrow> bool" where
  "is_continuation_line line \<longleftrightarrow> trim_whitespace line = [CHR 0x5C]"

definition parse_quoted_string :: "string \<Rightarrow> string option" where
  "parse_quoted_string s =
     (case strchr s DQ of
        None \<Rightarrow> Some (take 511 s)
      | Some from_quote \<Rightarrow>
          (let start = length s - length from_quote + 1
           in case strrchr s DQ of
                None \<Rightarrow> Some (take 511 s)
              | Some last_quote \<Rightarrow>
                  let end = length s - length last_quote
                  in if end \<le> start then Some (take 511 s)
                     else if 512 \<le> end - start then None
                     else Some (take (end - start) (drop start s))))"

section \<open>Parsing\<close>

definition strdup :: "os \<Rightarrow> string \<Rightarrow> world \<Rightarrow> string option \<times> world" where
  "strdup os s w = (let (ok, w1) = malloc os w in (if ok then Some s else None, w1))"

text \<open>The guarded append to one of the pointer arrays: \<open>guard\<close> is the constant of the test,
  \<open>room\<close> the declared number of entries. A store past the end is undefined.\<close>

definition push_arg ::
  "os \<Rightarrow> nat \<Rightarrow> nat \<Rightarrow> string option list \<Rightarrow> string \<Rightarrow> world \<Rightarrow> (string option list \<times> world) option" where
  "push_arg os guard room xs args w =
     (if length xs < guard then
        let (p, w1) = strdup os args w
        in if length xs < room then Some (xs @ [p], w1) else None
      else Some (xs, w))"

text \<open>The switch on the instruction type.\<close>

fun apply_instruction ::
  "os \<Rightarrow> instruction_type \<Rightarrow> string \<Rightarrow> dockerfile \<Rightarrow> world \<Rightarrow> (dockerfile \<times> world) option" where
  "apply_instruction os INSTR_FROM args d w = Some (d\<lparr>base_image := strncpy_sz (base_image d) args\<rparr>, w)"
| "apply_instruction os INSTR_WORKDIR args d w = Some (d\<lparr>working_dir := strncpy_sz (working_dir d) args\<rparr>, w)"
| "apply_instruction os INSTR_USER args d w = Some (d\<lparr>user := strncpy_sz (user d) args\<rparr>, w)"
| "apply_instruction os INSTR_SHELL args d w = Some (d\<lparr>dshell := strncpy_sz (dshell d) args\<rparr>, w)"
| "apply_instruction os INSTR_ENTRYPOINT args d w = Some (d\<lparr>entrypoint := strncpy_sz (entrypoint d) args\<rparr>, w)"
| "apply_instruction os INSTR_CMD args d w = Some (d\<lparr>dcmd := strncpy_sz (dcmd d) args\<rparr>, w)"
| "apply_instruction os INSTR_ENV args d w =
     push_arg os MAX_ENV_VAR_LEN ENV_ARRAY (env_vars d) args w \<bind> (\<lambda>(xs, w1). Some (d\<lparr>env_vars := xs\<rparr>, w1))"
| "apply_instruction os INSTR_EXPOSE args d w =
     push_arg os MAX_PORT_LEN MAX_PORT_LEN (exposed_ports d) args w \<bind> (\<lambda>(xs, w1). Some (d\<lparr>exposed_ports := xs\<rparr>, w1))"
| "apply_instruction os INSTR_VOLUME args d w =
     push_arg os MAX_VOLUME_LEN MAX_VOLUME_LEN (volumes d) args w \<bind> (\<lambda>(xs, w1). Some (d\<lparr>volumes := xs\<rparr>, w1))"
| "apply_instruction os INSTR_LABEL args d w =
     push_arg os MAX_ENV_VAR_LEN ENV_ARRAY (labels d) args w \<bind> (\<lambda>(xs, w1). Some (d\<lparr>labels := xs\<rparr>, w1))"
| "apply_instruction os _ args d w = Some (d, w)"

text \<open>The body of the loop from "Parse instruction" on; the inner \<open>None\<close> is the return of a null
  pointer when \<open>realloc\<close> fails.\<close>

definition parse_instruction ::
  "os \<Rightarrow> nat \<Rightarrow> string \<Rightarrow> dockerfile \<Rightarrow> world \<Rightarrow> (dockerfile option \<times> world) option" where
  "parse_instruction os n trimmed d w =
     (case strchr trimmed (CHR '' '') of
        None \<Rightarrow> Some (Some d, w)
      | Some space \<Rightarrow>
          let name = take (length trimmed - length space) trimmed;
              args = tl space;
              ty = get_instruction_type name
          in if ty = INSTR_UNKNOWN then Some (Some d, w)
             else
               let grow = capacity d \<le> length (instructions d);
                   (ok, w1) = (if grow then malloc os w else (True, w));
                   d1 = (if grow then d\<lparr>capacity := 2 * capacity d\<rparr> else d)
               in if \<not> ok then Some (None, w1)
                  else if capacity d1 \<le> length (instructions d1) then None
                  else
                    let slot = zero_instruction
                          \<lparr>itype := ty, instruction := strncpy_sz (zbuf 32) name, iargs := strncpy_sz (zbuf 512) args,
                           line_number := n\<rparr>
                    in apply_instruction os ty args (d1\<lparr>instructions := instructions d1 @ [slot]\<rparr>) w1 \<bind>
                         (\<lambda>(d2, w2). Some (Some d2, w2)))"

text \<open>
  The loop over the lines; \<open>cont\<close> is \<open>in_continuation\<close>. The continuation buffer is empty
  whenever a line starts: it is filled and zeroed within one iteration, and \<open>trimmed\<close> points into it
  when the zeroing happens.
\<close>

fun parse_lines ::
  "os \<Rightarrow> nat \<Rightarrow> bool \<Rightarrow> string list \<Rightarrow> dockerfile \<Rightarrow> world \<Rightarrow> (dockerfile option \<times> world) option" where
  "parse_lines os n cont [] d w = Some (Some d, w)"
| "parse_lines os n cont (line # ls) d w =
     (let n1 = Suc n; trimmed = trim_whitespace (c_line line) in
      if trimmed = [] \<or> hd trimmed = CHR ''#'' then parse_lines os n1 cont ls d w
      else if is_continuation_line trimmed then parse_lines os n1 True ls d w
      else do {
        trimmed' \<leftarrow> (if cont
                    then do {
                      b1 \<leftarrow> strcat (zbuf 1024) '' '';
                      b2 \<leftarrow> strcat b1 trimmed;
                      cstr (zbuf (length b2))
                    }
                    else Some trimmed);
        (r, w1) \<leftarrow> parse_instruction os n1 trimmed' d w;
        (case r of None \<Rightarrow> Some (None, w1) | Some d1 \<Rightarrow> parse_lines os n1 False ls d1 w1)
      })"

definition parse_dockerfile :: "os \<Rightarrow> path \<Rightarrow> world \<Rightarrow> (dockerfile option \<times> world) option" where
  "parse_dockerfile os file_path w =
     (case read_file os file_path w of
        None \<Rightarrow> Some (None, w)
      | Some s \<Rightarrow>
          let (ok, w1) = malloc os w in
          if \<not> ok then Some (None, w1)
          else let (ok2, w2) = malloc os w1 in
            if \<not> ok2 then Some (None, w2)
            else parse_lines os 0 False (fgets_lines 1024 s) (zero_dockerfile\<lparr>capacity := 10\<rparr>) w2)"

text \<open>1 for a valid file, as in C; the warning about ENTRYPOINT and CMD has no effect.\<close>

definition validate_dockerfile :: "dockerfile option \<Rightarrow> int" where
  "validate_dockerfile d =
     (case d of
        None \<Rightarrow> 0
      | Some d \<Rightarrow>
          (case instructions d of
             [] \<Rightarrow> 0
           | i # is \<Rightarrow> if itype i \<noteq> INSTR_FROM then 0 else 1))"

section \<open>Building\<close>

text \<open>
  \<open>copy_files\<close> calls itself on the two tokens it found. After a failed \<open>strdup\<close> it would go on
  with the string an earlier \<open>strtok\<close> left behind, which is undefined here.
\<close>

lemma strtok_shorter: "strtok s d = (Some t, r) \<Longrightarrow> r \<noteq> [] \<Longrightarrow> length t < length s"
proof -
  assume a: "strtok s d = (Some t, r)" "r \<noteq> []"
  define s1 where "s1 = dropWhile (\<lambda>c. c \<in> set d) s"
  have t: "t = takeWhile (\<lambda>c. c \<notin> set d) s1" "r = drop 1 (dropWhile (\<lambda>c. c \<notin> set d) s1)"
    using a(1) by (auto simp: strtok_def s1_def Let_def split: if_splits)
  have "length s1 = length t + length (dropWhile (\<lambda>c. c \<notin> set d) s1)"
    using t(1) by (metis length_append takeWhile_dropWhile_id)
  moreover have "length s1 \<le> length s" by (simp add: s1_def length_dropWhile_le)
  moreover have "0 < length (dropWhile (\<lambda>c. c \<notin> set d) s1)" using a(2) t(2) by (cases "dropWhile (\<lambda>c. c \<notin> set d) s1") auto
  ultimately show ?thesis by linarith
qed

lemma strdup_Some: "strdup os s w = (Some t, w') \<Longrightarrow> t = s"
  by (auto simp: strdup_def malloc_def split: if_splits)

lemma strtok_pair_shorter: "strtok s d = (Some t, r) \<Longrightarrow> strtok r d = (Some u, r') \<Longrightarrow> length t < length s"
  using strtok_shorter by (cases "r = []") auto

function copy_files :: "os \<Rightarrow> string \<Rightarrow> string \<Rightarrow> string \<Rightarrow> world \<Rightarrow> (int \<times> world) option" where
  "copy_files os args lpath context_path w =
     (let (p, w1) = strdup os args w in
      case p of
        None \<Rightarrow> None
      | Some args_copy \<Rightarrow>
          (case strtok args_copy '' '' of
             (None, _) \<Rightarrow> Some (- 1, w1)
           | (Some src, rest) \<Rightarrow>
               (case strtok rest '' '' of
                  (None, _) \<Rightarrow> Some (- 1, w1)
                | (Some dest, _) \<Rightarrow> copy_files os src dest context_path w1)))"
  by pat_completeness auto
termination copy_files
proof (relation "measure (\<lambda>(os, args, l, c, w). length args)", goal_cases)
  case 1
  show ?case by simp
next
  case 2
  then show ?case unfolding in_measure prod.case by (metis strdup_Some strtok_pair_shorter)
qed

declare copy_files.simps [simp del]

definition add_files :: "os \<Rightarrow> string \<Rightarrow> string \<Rightarrow> string \<Rightarrow> world \<Rightarrow> (int \<times> world) option" where
  "add_files os args lpath context_path w = copy_files os args lpath context_path w"

definition run_command :: "os \<Rightarrow> string \<Rightarrow> path \<Rightarrow> world \<Rightarrow> int \<times> world" where
  "run_command os command lpath w =
     (let (r1, w1) = system os (snprintf 1024 (''echo '' @ [CHR 0x27] @ ''#!/bin/bash'' @ [LF] @ command @ [CHR 0x27] @
                                 '' > '' @ lpath @ ''/run_command.sh'')) w
      in if r1 \<noteq> 0 then (- 1, w1)
         else let (r2, w2) = system os (snprintf 1024 (''chmod +x '' @ lpath @ ''/run_command.sh'')) w1
           in if r2 \<noteq> 0 then (- 1, w2) else (0, w2))"

definition set_environment_variable :: "os \<Rightarrow> string \<Rightarrow> path \<Rightarrow> world \<Rightarrow> int \<times> world" where
  "set_environment_variable os key_value lpath w =
     (let (ok, w1) = append_file os (snprintf 512 (lpath @ ''/environment'')) (key_value @ [LF]) w
      in if ok then (0, w1) else (- 1, w1))"

definition create_working_directory :: "os \<Rightarrow> string \<Rightarrow> path \<Rightarrow> world \<Rightarrow> int \<times> world" where
  "create_working_directory os p lpath w =
     (let (e, w1) = mkdir os (snprintf 512 (lpath @ p)) w
      in if e \<noteq> None \<and> e \<noteq> Some EEXIST then (- 1, w1) else (0, w1))"

definition set_user :: "os \<Rightarrow> string \<Rightarrow> path \<Rightarrow> world \<Rightarrow> int \<times> world" where
  "set_user os u lpath w =
     (let (ok, w1) = write_file os (snprintf 512 (lpath @ ''/user'')) (u @ [LF]) w
      in if ok then (0, w1) else (- 1, w1))"

definition expose_port :: "os \<Rightarrow> string \<Rightarrow> path \<Rightarrow> world \<Rightarrow> int \<times> world" where
  "expose_port os port lpath w =
     (let (ok, w1) = append_file os (snprintf 512 (lpath @ ''/exposed_ports'')) (port @ [LF]) w
      in if ok then (0, w1) else (- 1, w1))"

definition create_volume :: "os \<Rightarrow> string \<Rightarrow> path \<Rightarrow> world \<Rightarrow> int \<times> world" where
  "create_volume os p lpath w =
     (let (e, w1) = mkdir os (snprintf 512 (lpath @ p)) w
      in if e \<noteq> None \<and> e \<noteq> Some EEXIST then (- 1, w1) else (0, w1))"

definition set_entrypoint :: "os \<Rightarrow> string \<Rightarrow> path \<Rightarrow> world \<Rightarrow> int \<times> world" where
  "set_entrypoint os e lpath w =
     (let (ok, w1) = write_file os (snprintf 512 (lpath @ ''/entrypoint'')) (e @ [LF]) w
      in if ok then (0, w1) else (- 1, w1))"

definition set_cmd :: "os \<Rightarrow> string \<Rightarrow> path \<Rightarrow> world \<Rightarrow> int \<times> world" where
  "set_cmd os c lpath w =
     (let (ok, w1) = write_file os (snprintf 512 (lpath @ ''/cmd'')) (c @ [LF]) w
      in if ok then (0, w1) else (- 1, w1))"

definition set_label :: "os \<Rightarrow> string \<Rightarrow> path \<Rightarrow> world \<Rightarrow> int \<times> world" where
  "set_label os key_value lpath w =
     (let (ok, w1) = append_file os (snprintf 512 (lpath @ ''/labels'')) (key_value @ [LF]) w
      in if ok then (0, w1) else (- 1, w1))"

definition execute_instruction ::
  "os \<Rightarrow> dockerfile_instruction \<Rightarrow> string \<Rightarrow> path \<Rightarrow> world \<Rightarrow> (int \<times> world) option" where
  "execute_instruction os i context_path lpath w =
     cstr (iargs i) \<bind> (\<lambda>args.
       case itype i of
         INSTR_FROM \<Rightarrow> Some (0, w)
       | INSTR_RUN \<Rightarrow> Some (run_command os args lpath w)
       | INSTR_COPY \<Rightarrow> copy_files os args lpath context_path w
       | INSTR_ADD \<Rightarrow> add_files os args lpath context_path w
       | INSTR_WORKDIR \<Rightarrow> Some (create_working_directory os args lpath w)
       | INSTR_ENV \<Rightarrow> Some (set_environment_variable os args lpath w)
       | INSTR_USER \<Rightarrow> Some (set_user os args lpath w)
       | INSTR_EXPOSE \<Rightarrow> Some (expose_port os args lpath w)
       | INSTR_VOLUME \<Rightarrow> Some (create_volume os args lpath w)
       | INSTR_ENTRYPOINT \<Rightarrow> Some (set_entrypoint os args lpath w)
       | INSTR_CMD \<Rightarrow> Some (set_cmd os args lpath w)
       | INSTR_LABEL \<Rightarrow> Some (set_label os args lpath w)
       | _ \<Rightarrow> Some (0, w))"

fun execute_all ::
  "os \<Rightarrow> dockerfile_instruction list \<Rightarrow> string \<Rightarrow> path \<Rightarrow> world \<Rightarrow> (int \<times> world) option" where
  "execute_all os [] context_path lpath w = Some (0, w)"
| "execute_all os (i # is) context_path lpath w =
     execute_instruction os i context_path lpath w \<bind>
       (\<lambda>(r, w1). if r \<noteq> 0 then Some (- 1, w1) else execute_all os is context_path lpath w1)"

definition BUILD_LAYER :: path where
  "BUILD_LAYER = ''/tmp/docker-build-layer''"

definition build_image_from_dockerfile ::
  "os \<Rightarrow> layer_info \<Rightarrow> dockerfile option \<Rightarrow> string \<Rightarrow> string option \<Rightarrow> string \<Rightarrow> world \<Rightarrow> (int \<times> world) option" where
  "build_image_from_dockerfile os g d image_name tag context_path w =
     (if validate_dockerfile d = 0 then Some (- 1, w)
      else do {
        lpath \<leftarrow> strcpy (zbuf 512) BUILD_LAYER \<bind> cstr;
        (let (e, w1) = mkdir os lpath w in
         if e \<noteq> None \<and> e \<noteq> Some EEXIST then Some (- 1, w1)
         else do {
           (r, w2) \<leftarrow> execute_all os (instructions (the d)) context_path lpath w1;
           (if r \<noteq> 0 then Some (- 1, w2)
            else do {
              (r2, w3) \<leftarrow> create_image os g image_name tag None (Some lpath) w2;
              (if r2 \<noteq> 0 then Some (- 1, w3)
               else let (_, w4) = system os (snprintf 1024 (''rm -rf '' @ lpath)) w3 in Some (0, w4))
            })
         })
      })"

section \<open>The report on a parsed file\<close>

definition instruction_report :: "nat \<Rightarrow> dockerfile_instruction \<Rightarrow> string option" where
  "instruction_report i ins = do {
     name \<leftarrow> cstr (instruction ins);
     args \<leftarrow> cstr (iargs ins);
     Some (''  '' @ dec_nat (i + 1) @ ''. '' @ name @ '' '' @ args @ '' (line '' @ dec_nat (line_number ins) @ '')'' @ [LF])
   }"

fun instructions_report :: "nat \<Rightarrow> dockerfile_instruction list \<Rightarrow> string option" where
  "instructions_report i [] = Some []"
| "instructions_report i (ins # r) = do {
     line \<leftarrow> instruction_report i ins;
     rest \<leftarrow> instructions_report (i + 1) r;
     Some (line @ rest)
   }"

definition print_dockerfile_info :: "dockerfile option \<Rightarrow> string option" where
  "print_dockerfile_info dockerfile =
     (case dockerfile of
        None \<Rightarrow> Some (''Dockerfile is NULL'' @ [LF])
      | Some d \<Rightarrow> do {
          base \<leftarrow> cstr (base_image d);
          wd \<leftarrow> cstr (working_dir d);
          u \<leftarrow> cstr (user d);
          sh \<leftarrow> cstr (dshell d);
          ep \<leftarrow> cstr (entrypoint d);
          cm \<leftarrow> cstr (dcmd d);
          list \<leftarrow> instructions_report 0 (instructions d);
          Some (''Dockerfile Information:'' @ [LF] @
            ''  Base Image: '' @ base @ [LF] @
            ''  Working Directory: '' @ wd @ [LF] @
            ''  User: '' @ u @ [LF] @
            ''  Shell: '' @ sh @ [LF] @
            ''  Entrypoint: '' @ ep @ [LF] @
            ''  CMD: '' @ cm @ [LF] @
            ''  Instructions: '' @ dec_nat (length (instructions d)) @ [LF] @
            ''  Environment Variables: '' @ dec_nat (length (env_vars d)) @ [LF] @
            ''  Exposed Ports: '' @ dec_nat (length (exposed_ports d)) @ [LF] @
            ''  Volumes: '' @ dec_nat (length (volumes d)) @ [LF] @
            ''  Labels: '' @ dec_nat (length (labels d)) @ [LF] @
            [LF] @ ''Instructions:'' @ [LF] @ list)
        })"

section \<open>What a Dockerfile means\<close>

text \<open>
  The specification works on whole lines and has no buffers: blank lines and comments are skipped, a
  lone backslash makes the next other line disappear (the parser clears the buffer that it just filled), and
  what remains is an instruction when its first word is a known keyword followed by a space.
\<close>

fun logical_lines :: "bool \<Rightarrow> nat \<Rightarrow> string list \<Rightarrow> (nat \<times> string) list" where
  "logical_lines cont n [] = []"
| "logical_lines cont n (line # ls) =
     (let t = trim_whitespace (c_line line) in
      if t = [] \<or> hd t = CHR ''#'' then logical_lines cont (Suc n) ls
      else if t = [CHR 0x5C] then logical_lines True (Suc n) ls
      else if cont then logical_lines False (Suc n) ls
      else (Suc n, t) # logical_lines False (Suc n) ls)"

type_synonym step = "nat \<times> instruction_type \<times> string"

definition instruction_of :: "nat \<times> string \<Rightarrow> step list" where
  "instruction_of = (\<lambda>(n, t).
     let ty = get_instruction_type (takeWhile (\<lambda>c. c \<noteq> CHR '' '') t)
     in if CHR '' '' \<in> set t \<and> ty \<noteq> INSTR_UNKNOWN then [(n, ty, tl (dropWhile (\<lambda>c. c \<noteq> CHR '' '') t))] else [])"

definition steps_of :: "string list \<Rightarrow> step list" where
  "steps_of ls = concat (map instruction_of (logical_lines False 0 ls))"

definition args_of :: "instruction_type \<Rightarrow> step list \<Rightarrow> string list" where
  "args_of ty is = map (\<lambda>(n, t, a). a) (filter (\<lambda>(n, t, a). t = ty) is)"

definition last_arg :: "instruction_type \<Rightarrow> step list \<Rightarrow> string" where
  "last_arg ty is = (if args_of ty is = [] then [] else take 511 (last (args_of ty is)))"

lemma args_of_simps [simp]:
  "args_of ty [] = []" "args_of ty (is @ [(n, t, a)]) = args_of ty is @ (if t = ty then [a] else [])"
  "args_of ty ((n, t, a) # is) = (if t = ty then a # args_of ty is else args_of ty is)"
  "args_of ty (is @ js) = args_of ty is @ args_of ty js"
  by (auto simp: args_of_def)

lemma last_arg_simps [simp]:
  "last_arg ty [] = []" "last_arg ty (is @ [(n, t, a)]) = (if t = ty then take 511 a else last_arg ty is)"
  by (auto simp: last_arg_def)

text \<open>The parsed file \<open>d\<close> says what the steps say; all its arrays are terminated.\<close>

definition holds_text :: "buf \<Rightarrow> string \<Rightarrow> bool" where
  "holds_text b v \<longleftrightarrow> zterm 512 b \<and> cstr b = Some v"

definition instruction_view :: "dockerfile_instruction \<Rightarrow> nat \<times> instruction_type \<times> string option" where
  "instruction_view i = (line_number i, itype i, cstr (iargs i))"

definition describes :: "dockerfile \<Rightarrow> step list \<Rightarrow> bool" where
  "describes d is \<longleftrightarrow>
     map instruction_view (instructions d) = map (\<lambda>(n, t, a). (n, t, Some (take 511 a))) is \<and>
     env_vars d = map Some (args_of INSTR_ENV is) \<and> labels d = map Some (args_of INSTR_LABEL is) \<and>
     exposed_ports d = map Some (take 32 (args_of INSTR_EXPOSE is)) \<and>
     volumes d = map Some (take 256 (args_of INSTR_VOLUME is)) \<and>
     holds_text (base_image d) (last_arg INSTR_FROM is) \<and> holds_text (working_dir d) (last_arg INSTR_WORKDIR is) \<and>
     holds_text (user d) (last_arg INSTR_USER is) \<and> holds_text (dshell d) (last_arg INSTR_SHELL is) \<and>
     holds_text (entrypoint d) (last_arg INSTR_ENTRYPOINT is) \<and> holds_text (dcmd d) (last_arg INSTR_CMD is) \<and>
     0 < capacity d \<and> length is \<le> capacity d"

definition fits_arrays :: "step list \<Rightarrow> bool" where
  "fits_arrays is \<longleftrightarrow> length (args_of INSTR_ENV is) \<le> ENV_ARRAY \<and> length (args_of INSTR_LABEL is) \<le> ENV_ARRAY"

lemma holds_text_strncpy: "holds_text b v \<Longrightarrow> no_nul a \<Longrightarrow> holds_text (strncpy_sz b a) (take 511 a)"
  using cstr_strncpy_sz [of 512 b a] zterm_strncpy_sz [of 512 b a] by (simp add: holds_text_def)

lemma describes_zero: "describes (zero_dockerfile\<lparr>capacity := 10\<rparr>) []"
  by (simp add: describes_def zero_dockerfile_def holds_text_def cstr_zbuf)

lemma push_arg_run:
  assumes "\<forall>n. alloc os n"
  shows "push_arg os guard room xs a w =
    (if length xs < guard then if length xs < room then Some (xs @ [Some a], w\<lparr>allocs := Suc (allocs w)\<rparr>) else None
     else Some (xs, w))"
  using assms by (simp add: push_arg_def strdup_def malloc_def)

lemma take_snoc: "take n (xs @ [x]) = (if length xs < n then xs @ [x] else take n xs)"
  by simp

text \<open>Storing one instruction keeps the file in step with the specification, or leaves the arrays.\<close>

lemma apply_instruction_step:
  assumes "\<forall>n. alloc os n" "describes d is" "no_nul a" "length is < capacity d" "fits_arrays is" "ty \<noteq> INSTR_UNKNOWN"
    and "instruction_view i = (n, ty, Some (take 511 a))"
  shows "if fits_arrays (is @ [(n, ty, a)])
    then \<exists>d' w'. apply_instruction os ty a (d\<lparr>instructions := instructions d @ [i]\<rparr>) w = Some (d', w') \<and>
                 describes d' (is @ [(n, ty, a)])
    else apply_instruction os ty a (d\<lparr>instructions := instructions d @ [i]\<rparr>) w = None"
  using assms
  by (cases ty)
    (auto simp: describes_def push_arg_run holds_text_strncpy take_snoc fits_arrays_def ENV_ARRAY_def MAX_ENV_VAR_LEN_def
      MAX_PORT_LEN_def MAX_VOLUME_LEN_def)

text \<open>Splitting at the first space, in the two spellings.\<close>

lemma strchr_split:
  "c \<in> set t \<Longrightarrow> strchr t c = Some (dropWhile (\<lambda>x. x \<noteq> c) t)"
  "take (length t - length (dropWhile (\<lambda>x. x \<noteq> c) t)) t = takeWhile (\<lambda>x. x \<noteq> c) t"
proof -
  show "c \<in> set t \<Longrightarrow> strchr t c = Some (dropWhile (\<lambda>x. x \<noteq> c) t)"
    by (auto simp: strchr_def dropWhile_eq_Nil_conv split: list.splits)
  have "length t = length (takeWhile (\<lambda>x. x \<noteq> c) t) + length (dropWhile (\<lambda>x. x \<noteq> c) t)"
    by (metis length_append takeWhile_dropWhile_id)
  then show "take (length t - length (dropWhile (\<lambda>x. x \<noteq> c) t)) t = takeWhile (\<lambda>x. x \<noteq> c) t"
    by (metis add_diff_cancel_right' takeWhile_eq_take)
qed

lemma no_nul_tl_drop: "no_nul t \<Longrightarrow> no_nul (tl (dropWhile P t))"
proof -
  have "set (tl xs) \<subseteq> set xs" for xs :: string by (cases xs) auto
  then have "set (tl (dropWhile P t)) \<subseteq> set (dropWhile P t)" .
  also have "\<dots> \<subseteq> set t" by (auto dest: set_dropWhileD)
  finally show "no_nul t \<Longrightarrow> no_nul (tl (dropWhile P t))" by (auto simp: no_nul_def)
qed

lemma describes_length: "describes d is \<Longrightarrow> length (instructions d) = length is"
  unfolding describes_def by (metis length_map)

lemma describes_grow: "describes d is \<Longrightarrow> describes (d\<lparr>capacity := 2 * capacity d\<rparr>) is"
  by (auto simp: describes_def)

lemma parse_instruction_step:
  assumes "\<forall>n. alloc os n" "describes d is" "no_nul t" "fits_arrays is"
  shows "if fits_arrays (is @ instruction_of (n, t))
    then \<exists>d' w'. parse_instruction os n t d w = Some (Some d', w') \<and> describes d' (is @ instruction_of (n, t))
    else parse_instruction os n t d w = None"
proof (cases "CHR '' '' \<in> set t")
  case False
  then have "strchr t (CHR '' '') = None" by simp
  then have "parse_instruction os n t d w = Some (Some d, w)"
    unfolding parse_instruction_def by (simp del: strchr_None)
  then show ?thesis using False assms by (simp add: instruction_of_def)
next
  case True
  define name where "name = takeWhile (\<lambda>c. c \<noteq> CHR '' '') t"
  define a where "a = tl (dropWhile (\<lambda>c. c \<noteq> CHR '' '') t)"
  define ty where "ty = get_instruction_type name"
  note sp = strchr_split(1) [OF True] strchr_split(2) [of t "CHR '' ''"]
  show ?thesis
  proof (cases "ty = INSTR_UNKNOWN")
    case True
    then show ?thesis using assms sp by (simp add: parse_instruction_def instruction_of_def name_def ty_def)
  next
    case False
    have st: "instruction_of (n, t) = [(n, ty, a)]"
      using True False by (simp add: instruction_of_def name_def ty_def a_def)
    define grow where "grow = (capacity d \<le> length (instructions d))"
    define d1 where "d1 = (if grow then d\<lparr>capacity := 2 * capacity d\<rparr> else d)"
    define w1 where "w1 = (if grow then w\<lparr>allocs := Suc (allocs w)\<rparr> else w)"
    define i where "i = zero_instruction
      \<lparr>itype := ty, instruction := strncpy_sz (zbuf 32) name, iargs := strncpy_sz (zbuf 512) a, line_number := n\<rparr>"
    have d1: "describes d1 is" using assms(2) describes_grow by (simp add: d1_def)
    have cap: "length is < capacity d1" "length (instructions d1) < capacity d1"
      using assms(2) describes_length [OF assms(2)] by (auto simp: d1_def grow_def describes_def)
    have na: "no_nul a" using no_nul_tl_drop assms(3) by (simp add: a_def)
    have iv: "instruction_view i = (n, ty, Some (take 511 a))"
      using cstr_strncpy_sz [of 512 "zbuf 512" a] na by (simp add: instruction_view_def i_def)
    have "parse_instruction os n t d w =
        apply_instruction os ty a (d1\<lparr>instructions := instructions d1 @ [i]\<rparr>) w1 \<bind> (\<lambda>(d2, w2). Some (Some d2, w2))"
      using False assms(1) sp
      by (cases grow)
        (use cap(2) in \<open>simp_all add: parse_instruction_def Let_def grow_def [symmetric] d1_def w1_def i_def
          name_def [symmetric] ty_def [symmetric] a_def [symmetric] malloc_def\<close>)
    then show ?thesis
      using apply_instruction_step [OF assms(1) d1 na cap(1) assms(4) False iv, of w1] by (auto simp: st)
  qed
qed


text \<open>Facts about trimming.\<close>

lemma trim_cons: "\<not> blank c \<Longrightarrow> trim_whitespace (c # r) = c # rev (dropWhile trailing (rev r))"
  by (simp add: trim_whitespace_def)

lemma trim_cases: "trim_whitespace s = [] \<or> (\<exists>c r. dropWhile blank s = c # r \<and> \<not> blank c \<and>
    trim_whitespace s = c # rev (dropWhile trailing (rev r)))"
proof (cases "dropWhile blank s")
  case (Cons c r)
  then have "\<not> blank c" using hd_dropWhile [of blank s] by simp
  then show ?thesis using Cons by (simp add: trim_whitespace_def)
next
  case Nil
  then show ?thesis unfolding trim_whitespace_def by (simp del: dropWhile_eq_Nil_conv)
qed

lemma dropWhile_again [simp]: "dropWhile P (dropWhile P xs) = dropWhile P xs"
  by (induction xs) auto

lemma trim_idem [simp]: "trim_whitespace (trim_whitespace s) = trim_whitespace s"
  using trim_cases [of s] by (auto simp: trim_cons) (simp add: trim_whitespace_def)

lemma trim_subset: "set (trim_whitespace s) \<subseteq> set s" "length (trim_whitespace s) \<le> length s"
proof -
  consider "trim_whitespace s = []" | c r where "dropWhile blank s = c # r"
    "trim_whitespace s = c # rev (dropWhile trailing (rev r))"
    using trim_cases [of s] by blast
  then have "set (trim_whitespace s) \<subseteq> set s \<and> length (trim_whitespace s) \<le> length s"
  proof cases
    case 2
    have "set (dropWhile trailing (rev r)) \<subseteq> set r" "length (dropWhile trailing (rev r)) \<le> length r"
      using length_dropWhile_le [of trailing "rev r"] by (auto dest: set_dropWhileD)
    moreover have "set (c # r) \<subseteq> set s" "length (c # r) \<le> length s"
      using 2(1) length_dropWhile_le [of blank s] set_dropWhileD [of _ blank s] by (metis subsetI, metis)
    ultimately show ?thesis using 2(2) by auto
  qed simp
  then show "set (trim_whitespace s) \<subseteq> set s" "length (trim_whitespace s) \<le> length s" by auto
qed

lemma continuation_trim: "is_continuation_line (trim_whitespace s) \<longleftrightarrow> trim_whitespace s = [CHR 0x5C]"
  by (simp add: is_continuation_line_def)

text \<open>The copy into the continuation buffer fits, and what the parser then looks at is empty.\<close>

lemma continuation_lost:
  assumes "no_nul t" "length t \<le> 1022"
  shows "(strcat (zbuf 1024) '' '' \<bind> (\<lambda>b1. strcat b1 t \<bind> (\<lambda>b2. cstr (zbuf (length b2))))) = Some []"
proof -
  obtain b1 where b1: "strcat (zbuf 1024) '' '' = Some b1" "length b1 = 1024"
    by (simp add: strcat_def cstr_zbuf strcpy_def)
  then have c1: "cstr b1 = Some '' ''" using cstr_strcat [OF b1(1), of "[]"] by (simp add: cstr_zbuf)
  then obtain b2 where "strcat b1 t = Some b2" "length b2 = 1024"
    using assms(2) b1(2) by (simp add: strcat_def strcpy_def)
  then show ?thesis using b1(1) by (simp add: cstr_zbuf)
qed

lemma fits_arrays_mono: "fits_arrays (is @ js) \<Longrightarrow> fits_arrays is"
  by (simp add: fits_arrays_def)

lemma parse_instruction_empty: "parse_instruction os n [] d w = Some (Some d, w)"
  by (simp add: parse_instruction_def strchr_def)

lemma parse_lines_step:
  assumes "\<forall>n. alloc os n" "describes d is" "fits_arrays is" "\<forall>l \<in> set ls. length l \<le> 1022"
  shows "let js = is @ concat (map instruction_of (logical_lines cont n ls)) in
    if fits_arrays js then \<exists>d' w'. parse_lines os n cont ls d w = Some (Some d', w') \<and> describes d' js
    else parse_lines os n cont ls d w = None"
  using assms
proof (induction ls arbitrary: d "is" w n cont)
  case Nil
  then show ?case by simp
next
  case (Cons l ls)
  define t where "t = trim_whitespace (c_line l)"
  have t: "no_nul t" "length t \<le> 1022" "is_continuation_line t \<longleftrightarrow> t = [CHR 0x5C]"
  proof -
    have "no_nul (c_line l)" by (auto simp: c_line_def no_nul_def dest: set_takeWhileD)
    then show "no_nul t" using trim_subset(1) [of "c_line l"] by (auto simp: t_def no_nul_def)
    have "length t \<le> length (c_line l)" unfolding t_def by (rule trim_subset)
    also have "\<dots> \<le> 1022" using Cons.prems(4) length_takeWhile_le [of _ l] by (auto simp: c_line_def intro: le_trans)
    finally show "length t \<le> 1022" .
    show "is_continuation_line t \<longleftrightarrow> t = [CHR 0x5C]" unfolding t_def by (rule continuation_trim)
  qed
  have rest: "\<forall>l \<in> set ls. length l \<le> 1022" using Cons.prems(4) by simp
  note IH = Cons.IH [OF Cons.prems(1) _ _ rest]
  have pl: "parse_lines os n cont (l # ls) d w =
      (if t = [] \<or> hd t = CHR ''#'' then parse_lines os (Suc n) cont ls d w
       else if t = [CHR 0x5C] then parse_lines os (Suc n) True ls d w
       else if cont then parse_lines os (Suc n) False ls d w
       else parse_instruction os (Suc n) t d w \<bind>
              (\<lambda>(r, w1). case r of None \<Rightarrow> Some (None, w1) | Some d1 \<Rightarrow> parse_lines os (Suc n) False ls d1 w1))"
    using continuation_lost [OF t(1,2)]
    by (simp add: t_def [symmetric] Let_def t(3) parse_instruction_empty)
  consider (skip) cont' where "logical_lines cont n (l # ls) = logical_lines cont' (Suc n) ls"
      "parse_lines os n cont (l # ls) d w = parse_lines os (Suc n) cont' ls d w"
    | (instr) "logical_lines cont n (l # ls) = (Suc n, t) # logical_lines False (Suc n) ls"
      "parse_lines os n cont (l # ls) d w = parse_instruction os (Suc n) t d w \<bind>
              (\<lambda>(r, w1). case r of None \<Rightarrow> Some (None, w1) | Some d1 \<Rightarrow> parse_lines os (Suc n) False ls d1 w1)"
    using pl by (auto simp: t_def Let_def split: if_split_asm)
  then show ?case
  proof cases
    case skip
    then show ?thesis using IH [OF Cons.prems(2,3), of cont' "Suc n" w] unfolding skip by blast
  next
    case instr
    let ?js = "is @ instruction_of (Suc n, t)"
    have eq: "is @ concat (map instruction_of (logical_lines cont n (l # ls))) =
        ?js @ concat (map instruction_of (logical_lines False (Suc n) ls))"
      unfolding instr(1) by simp
    note st = parse_instruction_step [OF Cons.prems(1,2) t(1) Cons.prems(3), of "Suc n" w]
    show ?thesis
    proof (cases "fits_arrays ?js")
      case True
      then obtain d1 w1 where d1: "parse_instruction os (Suc n) t d w = Some (Some d1, w1)" "describes d1 ?js"
        using st by auto
      then show ?thesis using IH [OF d1(2) True, of False "Suc n" w1] unfolding eq instr(2) by (auto simp: Let_def split: if_split_asm)
    next
      case False
      then show ?thesis using st fits_arrays_mono [of ?js] unfolding eq instr(2) by (auto simp: Let_def)
    qed
  qed
qed

text \<open>
  C5. The Dockerfile parser implements its specification. With memory available and lines of at
  most 1022 bytes, the parsed file has exactly the instructions of the text, in order, with their line
  numbers and their arguments cut at 511 bytes, and each field holds the last (or every) argument of its
  keyword; and the parse has a defined result exactly when the text has at most 256 ENV and at most 256
  LABEL instructions: the guards compare with 512, so the 257th is stored past the end of its array.
\<close>

theorem parse_dockerfile_correct:
  assumes "\<forall>n. alloc os n" "read_file os p w = Some s" "\<forall>l \<in> set (fgets_lines 1024 s). length l \<le> 1022"
  shows "if fits_arrays (steps_of (fgets_lines 1024 s))
    then \<exists>d w'. parse_dockerfile os p w = Some (Some d, w') \<and> describes d (steps_of (fgets_lines 1024 s))
    else parse_dockerfile os p w = None"
proof -
  have "parse_dockerfile os p w =
      parse_lines os 0 False (fgets_lines 1024 s) (zero_dockerfile\<lparr>capacity := 10\<rparr>) (w\<lparr>allocs := Suc (Suc (allocs w))\<rparr>)"
    using assms(1,2) by (simp add: parse_dockerfile_def malloc_def)
  moreover have "fits_arrays []" by (simp add: fits_arrays_def)
  ultimately show ?thesis
    using parse_lines_step [OF assms(1) describes_zero _ assms(3), of False 0 "w\<lparr>allocs := Suc (Suc (allocs w))\<rparr>"]
    by (auto simp: steps_of_def Let_def split: if_split_asm)
qed

text \<open>The file the examples below parse.\<close>

definition sample_file :: string where
  "sample_file = file_text [''FROM alpine'', '''', ''# tools'', ''ENV A=1'', [CHR 0x5C], ''RUN lost'', ''ENV B=2'', ''CMD sh'']"

definition sample_world :: world where
  "sample_world = put ''/tmp/Dockerfile'' (File sample_file) empty_world"

lemma sample_lines:
  "fgets_lines 1024 sample_file = map (\<lambda>l. l @ [LF])
     [''FROM alpine'', '''', ''# tools'', ''ENV A=1'', [CHR 0x5C], ''RUN lost'', ''ENV B=2'', ''CMD sh'']"
  unfolding sample_file_def by (rule fgets_lines_file_text) simp

theorem parse_dockerfile_correct_witness:
  "\<exists>d w'. parse_dockerfile calm_os ''/tmp/Dockerfile'' sample_world = Some (Some d, w') \<and>
     env_vars d = [Some ''A=1'', Some ''B=2''] \<and> cstr (base_image d) = Some ''alpine'' \<and> length (instructions d) = 4"
proof -
  have st: "steps_of (fgets_lines 1024 sample_file) =
      [(1, INSTR_FROM, ''alpine''), (4, INSTR_ENV, ''A=1''), (7, INSTR_ENV, ''B=2''), (8, INSTR_CMD, ''sh'')]"
    unfolding sample_lines by code_simp
  have a: "\<forall>n. alloc calm_os n" and r: "read_file calm_os ''/tmp/Dockerfile'' sample_world = Some sample_file"
    by (simp_all add: calm_os_def read_file_def sample_world_def fs_simps)
  have l: "\<forall>l \<in> set (fgets_lines 1024 sample_file). length l \<le> 1022" unfolding sample_lines by simp
  have f: "fits_arrays (steps_of (fgets_lines 1024 sample_file))" by (simp add: st fits_arrays_def ENV_ARRAY_def)
  obtain d w' where d: "parse_dockerfile calm_os ''/tmp/Dockerfile'' sample_world = Some (Some d, w')"
    "describes d (steps_of (fgets_lines 1024 sample_file))"
    using parse_dockerfile_correct [OF a r l] f by auto
  then show ?thesis
    using describes_length [OF d(2)] by (auto simp: st describes_def holds_text_def last_arg_def)
qed

section \<open>Keywords, validation, quoting\<close>

fun keyword :: "instruction_type \<Rightarrow> string" where
  "keyword INSTR_UNKNOWN = []"
| "keyword INSTR_FROM = ''FROM''" | "keyword INSTR_RUN = ''RUN''" | "keyword INSTR_CMD = ''CMD''"
| "keyword INSTR_LABEL = ''LABEL''" | "keyword INSTR_EXPOSE = ''EXPOSE''" | "keyword INSTR_ENV = ''ENV''"
| "keyword INSTR_ADD = ''ADD''" | "keyword INSTR_COPY = ''COPY''" | "keyword INSTR_ENTRYPOINT = ''ENTRYPOINT''"
| "keyword INSTR_VOLUME = ''VOLUME''" | "keyword INSTR_USER = ''USER''" | "keyword INSTR_WORKDIR = ''WORKDIR''"
| "keyword INSTR_ARG = ''ARG''" | "keyword INSTR_ONBUILD = ''ONBUILD''" | "keyword INSTR_STOPSIGNAL = ''STOPSIGNAL''"
| "keyword INSTR_HEALTHCHECK = ''HEALTHCHECK''" | "keyword INSTR_SHELL = ''SHELL''"

lemma get_type_keyword: "get_instruction_type (keyword ty) = ty"
  by (cases ty) (simp_all add: get_instruction_type_def)

lemma keyword_get_type: "get_instruction_type s \<noteq> INSTR_UNKNOWN \<Longrightarrow> keyword (get_instruction_type s) = s"
  by (simp add: get_instruction_type_def split: if_split_asm)

text \<open>
  Keywords are recognised exactly: a word has a known instruction type precisely when it is that
  type's keyword, so no keyword is shadowed by an earlier test and no other word is accepted.
\<close>

theorem keyword_roundtrip:
  "get_instruction_type (keyword ty) = ty \<and>
   (get_instruction_type s = INSTR_UNKNOWN \<or> keyword (get_instruction_type s) = s)"
  using get_type_keyword keyword_get_type by blast

text \<open>
  Validation of a parsed file looks at the text only: it accepts exactly when the first instruction
  of the text is FROM.
\<close>

theorem validate_parsed:
  assumes "describes d is"
  shows "validate_dockerfile (Some d) = (case is of [] \<Rightarrow> 0 | (n, ty, a) # _ \<Rightarrow> if ty = INSTR_FROM then 1 else 0)"
proof (cases "is")
  case Nil
  then have "instructions d = []" using describes_length [OF assms] by simp
  then show ?thesis by (simp add: validate_dockerfile_def Nil)
next
  case (Cons s ss)
  obtain n ty a where s: "s = (n, ty, a)" by (cases s) auto
  obtain i js where i: "instructions d = i # js" using describes_length [OF assms] Cons by (cases "instructions d") auto
  have "instruction_view i = (n, ty, Some (take 511 a))"
    using assms by (simp add: describes_def i Cons s)
  then show ?thesis by (simp add: validate_dockerfile_def i Cons s instruction_view_def)
qed

theorem validate_parsed_witness:
  "validate_dockerfile (Some (zero_dockerfile\<lparr>capacity := 10\<rparr>)) = 0"
  using validate_parsed [OF describes_zero] by simp

text \<open>
  A quoted argument is unquoted: text between the first and the last quote is returned, and it is
  undefined exactly when that text does not fit the static array; an empty quotation returns the whole argument.
\<close>

theorem parse_quoted_correct:
  assumes "DQ \<notin> set a" "DQ \<notin> set b"
  shows "parse_quoted_string (a @ DQ # v @ DQ # b) =
    (if v = [] then Some (take 511 (a @ DQ # v @ DQ # b)) else if length v \<le> 511 then Some v else None)"
proof -
  let ?s = "a @ DQ # v @ DQ # b"
  have 1: "strchr ?s DQ = Some (DQ # v @ DQ # b)" using strchr_append [OF assms(1)] by simp
  have "rev ?s = rev b @ DQ # rev (a @ DQ # v)" by simp
  then have "takeWhile (\<lambda>x. x \<noteq> DQ) (rev ?s) = rev b"
    using takeWhile_neq_stop [of DQ "rev b" "rev (a @ DQ # v)"] assms(2) by (metis set_rev)
  then have 2: "strrchr ?s DQ = Some (DQ # b)" by (simp add: strrchr_def)
  have l: "length ?s - length (DQ # v @ DQ # b) + 1 = length a + 1"
    "length ?s - length (DQ # b) = length a + 1 + length v" by simp_all
  have d: "take (length v) (drop (length a + 1) ?s) = v" by simp
  show ?thesis
    unfolding parse_quoted_string_def 1 2 option.case Let_def l using d by auto
qed

theorem parse_quoted_correct_witness:
  "parse_quoted_string ''sh \"-c\" x'' = Some ''-c''"
  using parse_quoted_correct [of "''sh ''" "'' x''" "''-c''"] by simp

section \<open>Copying\<close>

lemma copy_files_result:
  assumes "copy_files os args l c w = Some (r, w')"
  shows "r = - 1 \<and> (\<forall>q. lookup w' q = lookup w q)"
  using assms
proof (induction os args l c w rule: copy_files.induct)
  case (1 os args l c w)
  obtain p w1 where p: "strdup os args w = (p, w1)" by fastforce
  then have f: "lookup w1 q = lookup w q" for q by (auto simp: strdup_def malloc_def fs_simps)
  show ?case
  proof (cases "\<exists>a src rest dest r'. p = Some a \<and> strtok a '' '' = (Some src, rest) \<and> strtok rest '' '' = (Some dest, r')")
    case True
    then obtain a src rest dest r' where t: "p = Some a" "strtok a '' '' = (Some src, rest)" "strtok rest '' '' = (Some dest, r')"
      by blast
    then have "copy_files os src dest c w1 = Some (r, w')"
      using "1.prems" p by (subst (asm) copy_files.simps) simp
    then show ?thesis using "1.IH" p t f by metis
  next
    case False
    then show ?thesis using "1.prems" p f
      by (subst (asm) copy_files.simps) (auto split: option.splits prod.splits)
  qed
qed

lemma copy_files_defined:
  assumes "\<forall>n. alloc os n"
  shows "copy_files os args l c w \<noteq> None"
  using assms
proof (induction os args l c w rule: copy_files.induct)
  case (1 os args l c w)
  show ?case
    by (subst copy_files.simps)
      (use 1 in \<open>auto simp: strdup_def malloc_def split: option.splits prod.splits\<close>)
qed

text \<open>
  COPY and ADD never copy: \<open>copy_files\<close> always returns (it calls itself on the two words it
  found, and the source word has no second word), its result is always the error, and no file changes.
\<close>

theorem copy_files_fails:
  assumes "\<forall>n. alloc os n"
  shows "\<exists>w'. copy_files os args l c w = Some (- 1, w') \<and> (\<forall>q. lookup w' q = lookup w q)"
proof -
  obtain r w' where "copy_files os args l c w = Some (r, w')"
    using copy_files_defined [OF assms, of args l c w] by auto
  then show ?thesis using copy_files_result by metis
qed

theorem copy_files_fails_witness:
  "\<exists>w'. copy_files calm_os ''a.txt /app'' BUILD_LAYER ''.'' empty_world = Some (- 1, w')"
  using copy_files_fails [of calm_os] by (fastforce simp: calm_os_def)

section \<open>Building\<close>

lemma execute_instruction_copy:
  "execute_instruction os i ctx l w = Some (r, w') \<Longrightarrow> itype i = INSTR_COPY \<or> itype i = INSTR_ADD \<Longrightarrow> r = - 1"
  by (auto simp: execute_instruction_def add_files_def bind_Some_iff dest!: copy_files_result)

lemma execute_all_result:
  "execute_all os is ctx l w = Some (r, w') \<Longrightarrow> r = 0 \<or> r = - 1"
  by (induction "is" arbitrary: w) (auto simp: bind_Some_iff split: if_split_asm)

lemma execute_all_copy:
  "execute_all os is ctx l w = Some (r, w') \<Longrightarrow> \<exists>i \<in> set is. itype i = INSTR_COPY \<or> itype i = INSTR_ADD \<Longrightarrow> r = - 1"
  by (induction "is" arbitrary: w)
    (auto simp: bind_Some_iff dest: execute_instruction_copy split: if_split_asm)

text \<open>
  A Dockerfile with a COPY or ADD instruction cannot be built: whatever the file system, the shell
  and the context, the build ends with the error.
\<close>

theorem build_with_copy_fails:
  assumes "build_image_from_dockerfile os g (Some d) name tag ctx w = Some (r, w')"
    and "i \<in> set (instructions d)" "itype i = INSTR_COPY \<or> itype i = INSTR_ADD"
  shows "r = - 1"
proof -
  have "run_ok (build_image_from_dockerfile os g (Some d) name tag ctx w) (\<lambda>(r, w'). r = - 1)"
    unfolding build_image_from_dockerfile_def Let_def run_simps
    using assms(2,3) by (auto dest!: execute_all_copy)
  then show ?thesis using assms(1) by (simp add: run_ok_def)
qed














text \<open>Small instances: one instruction of each kind.\<close>

definition slot :: "nat \<Rightarrow> instruction_type \<Rightarrow> string \<Rightarrow> dockerfile_instruction" where
  "slot n ty a = zero_instruction\<lparr>itype := ty, iargs := strncpy_sz (zbuf 512) a, line_number := n\<rparr>"

lemma slot_args: "no_nul a \<Longrightarrow> length a \<le> 511 \<Longrightarrow> cstr (iargs (slot n ty a)) = Some a" "itype (slot n ty a) = ty"
  using cstr_strncpy_sz [of 512 "zbuf 512" a] by (simp_all add: slot_def)

theorem build_with_copy_fails_witness:
  "\<exists>r w'. build_image_from_dockerfile calm_os zero_layer (Some (zero_dockerfile\<lparr>instructions := [slot 1 INSTR_FROM ''a'', slot 2 INSTR_COPY ''x y'']\<rparr>))
     ''app'' None ''.'' empty_world = Some (r, w') \<and> r = - 1"
proof -
  let ?d = "zero_dockerfile\<lparr>instructions := [slot 1 INSTR_FROM ''a'', slot 2 INSTR_COPY ''x y'']\<rparr>"
  have c: "cstr (iargs (slot 1 INSTR_FROM ''a'')) = Some ''a''" "cstr (iargs (slot 2 INSTR_COPY ''x y'')) = Some ''x y''"
    by (simp_all add: slot_args)
  obtain w1 where w1: "mkdir calm_os BUILD_LAYER empty_world = (None, w1)"
    by (cases "mkdir calm_os BUILD_LAYER empty_world")
      (simp add: mkdir_def parent_ok_def lookup_def empty_world_def BUILD_LAYER_def parent_def calm_os_def)
  obtain w2 where w2: "copy_files calm_os ''x y'' BUILD_LAYER ''.'' w1 = Some (- 1, w2)"
    using copy_files_defined [of calm_os "''x y''" BUILD_LAYER "''.''" w1] copy_files_result by (fastforce simp: calm_os_def)
  have l: "strcpy (zbuf 512) BUILD_LAYER \<bind> cstr = Some BUILD_LAYER"
    by (simp add: strcpy_def BUILD_LAYER_def cstr_def)
  have b: "build_image_from_dockerfile calm_os zero_layer (Some ?d) ''app'' None ''.'' empty_world = Some (- 1, w2)"
    unfolding build_image_from_dockerfile_def l using w1 w2 c
    by (simp add: validate_dockerfile_def slot_args(2) execute_instruction_def)
  then show ?thesis using build_with_copy_fails [OF b, of "slot 2 INSTR_COPY ''x y''"] by (simp add: slot_args(2))
qed


text \<open>Whatever the file, all the char arrays of a parsed file are terminated, so that the report on it and
  the reads of the builder stay inside them.\<close>

definition wf_dockerfile :: "dockerfile \<Rightarrow> bool" where
  "wf_dockerfile d \<longleftrightarrow>
     zterm 512 (base_image d) \<and> zterm 512 (working_dir d) \<and> zterm 512 (user d) \<and> zterm 512 (dshell d) \<and>
     zterm 512 (entrypoint d) \<and> zterm 512 (dcmd d) \<and>
     (\<forall>i \<in> set (instructions d). zterm 32 (instruction i) \<and> zterm 512 (iargs i))"

lemma apply_instruction_wf:
  "wf_dockerfile d \<Longrightarrow> apply_instruction os ty args d w = Some (d', w') \<Longrightarrow> wf_dockerfile d'"
  by (cases ty) (auto simp: wf_dockerfile_def zterm_strncpy_sz bind_Some_iff)

lemma parse_instruction_wf:
  assumes "wf_dockerfile d"
  shows "run_ok (parse_instruction os n t d w) (\<lambda>(r, w'). \<forall>d'. r = Some d' \<longrightarrow> wf_dockerfile d')"
proof -
  have z: "zterm n (strncpy_sz (zbuf n) a)" if "0 < n" for n a
    using that by (intro zterm_strncpy_sz) (simp add: zterm_zbuf)
  have "wf_dockerfile d'"
    if "apply_instruction os ty args ((if b then d\<lparr>capacity := c\<rparr> else d)\<lparr>instructions := instructions (if b then d\<lparr>capacity := c\<rparr> else d) @
      [zero_instruction\<lparr>itype := ty, instruction := strncpy_sz (zbuf 32) name, iargs := strncpy_sz (zbuf 512) a, line_number := n\<rparr>]\<rparr>) w1
      = Some (d', w2)" for b c ty args name a w1 d' w2
    by (rule apply_instruction_wf [OF _ that]) (use assms in \<open>simp add: wf_dockerfile_def z\<close>)
  then show ?thesis using assms
    unfolding parse_instruction_def Let_def run_simps
    by (auto simp: run_simps)
qed

lemma parse_lines_wf:
  assumes "wf_dockerfile d"
  shows "run_ok (parse_lines os n cont ls d w) (\<lambda>(r, w'). \<forall>d'. r = Some d' \<longrightarrow> wf_dockerfile d')"
  using assms
proof (induction ls arbitrary: n cont d w)
  case Nil
  then show ?case by (simp add: run_ok_def)
next
  case (Cons line ls)
  have "wf_dockerfile d1" if "parse_instruction os m t d w = Some (Some d1, w1)" for m t d1 w1
    using run_okI [OF that parse_instruction_wf [OF Cons.prems]] by simp
  then show ?case
    unfolding parse_lines.simps Let_def run_simps
    using Cons.IH [OF Cons.prems] by (auto intro: Cons.IH)
qed

lemma parse_dockerfile_wf:
  assumes "parse_dockerfile os p w = Some (Some d, w')"
  shows "wf_dockerfile d"
proof -
  have "wf_dockerfile (zero_dockerfile\<lparr>capacity := 10\<rparr>)" by (simp add: wf_dockerfile_def zero_dockerfile_def)
  then have "run_ok (parse_dockerfile os p w) (\<lambda>(r, w'). \<forall>d'. r = Some d' \<longrightarrow> wf_dockerfile d')"
    unfolding parse_dockerfile_def Let_def run_simps using parse_lines_wf by simp
  from run_okI [OF assms this] show ?thesis by simp
qed

lemma instructions_report_defined:
  "\<forall>i \<in> set is. zterm 32 (instruction i) \<and> zterm 512 (iargs i) \<Longrightarrow> \<exists>t. instructions_report n is = Some t"
  by (induction "is" arbitrary: n) (auto simp: instruction_report_def bind_Some_iff dest!: zterm_cstr)

lemma report_defined: "wf_dockerfile d \<Longrightarrow> \<exists>t. print_dockerfile_info (Some d) = Some t"
  using instructions_report_defined [of "instructions d" 0]
  by (auto simp: wf_dockerfile_def print_dockerfile_info_def dest!: zterm_cstr)

end
