(* ===== verification/Http.thy ===== *)
theory Http imports Dockerfile begin

text \<open>
  The HTTP server of the daemon, \<open>core/http.c\<close> and \<open>core/http.h\<close>: parsing one request,
  routing it, the handlers, and the text of the response. One call of \<open>handle_client\<close> is one
  connection; the socket calls around it are inputs (what \<open>recv\<close> delivered, whether \<open>send\<close>
  succeeded). The request and response structures are stack variables that nobody initialises, so they
  enter as parameters.
\<close>

section \<open>Data\<close>

record http_request =
  rmethod :: buf
  url :: buf
  rversion :: buf
  rheaders :: buf
  rbody :: buf
  rcontent_length :: int

record http_response =
  version :: buf
  status_code :: int
  status_message :: buf
  headers :: buf
  body :: buf
  content_length :: int

text \<open>What the uninitialised variables of one connection hold.\<close>

record garbage =
  g_request :: http_request
  g_response :: http_response
  g_container :: container_info
  g_containers :: "nat \<Rightarrow> container_info"
  g_id :: "nat \<Rightarrow> buf"
  g_images :: "nat \<Rightarrow> image_info"
  g_layer :: layer_info

section \<open>Parsing a request\<close>

text \<open>
  The header loop: \<open>rest\<close> is the string at the pointer that \<open>strtok\<close> saved. The result carries
  the string saved when the loop ends.
\<close>

function header_loop :: "http_request \<Rightarrow> string \<Rightarrow> (http_request \<times> string) option" where
  "header_loop req rest =
     (case strtok rest [CR, LF] of
        (None, rest1) \<Rightarrow> Some (req, rest1)
      | (Some line, rest1) \<Rightarrow>
          if length line = 0 then Some (req, rest1)
          else do {
            n \<leftarrow> (if contains line ''Content-Length:''
                 then scan_int_into (sscanf line ''Content-Length: %d'') (rcontent_length req)
                 else Some (rcontent_length req));
            h1 \<leftarrow> strcat (rheaders req) line;
            h2 \<leftarrow> strcat h1 [CR, LF];
            header_loop (req\<lparr>rcontent_length := n, rheaders := h2\<rparr>) rest1
          })"
  by pat_completeness auto

lemma strtok_rest_shorter: "strtok s d = (Some t, r) \<Longrightarrow> length r < length s"
proof -
  assume a: "strtok s d = (Some t, r)"
  define s1 where "s1 = dropWhile (\<lambda>c. c \<in> set d) s"
  have ne: "s1 \<noteq> []" and r: "r = drop 1 (dropWhile (\<lambda>c. c \<notin> set d) s1)"
    using a by (auto simp: strtok_def s1_def Let_def split: if_splits)
  have "hd s1 \<notin> set d" using ne hd_dropWhile [of "\<lambda>c. c \<in> set d" s] by (auto simp: s1_def)
  then obtain c cs where s1: "s1 = c # cs" "c \<notin> set d" using ne by (cases s1) auto
  have "length r \<le> length cs"
    using length_dropWhile_le [of "\<lambda>c. c \<notin> set d" cs] by (simp add: r s1)
  then show ?thesis using s1(1) length_dropWhile_le [of "\<lambda>c. c \<in> set d" s] by (simp add: s1_def)
qed

termination header_loop
  by (relation "measure (\<lambda>(req, rest). length rest)") (auto simp: strtok_rest_shorter dest: sym)

declare header_loop.simps [simp del]

text \<open>
  \<open>parse_http_request\<close>. Splitting the request line overwrites the pointer that \<open>strtok\<close> had
  saved behind it, so the header loop continues in the request line, not after it.
\<close>

definition parse_http_request ::
  "os \<Rightarrow> string \<Rightarrow> http_request \<Rightarrow> world \<Rightarrow> (int \<times> http_request \<times> world) option" where
  "parse_http_request os request parsed w =
     (let (p, w1) = strdup os request w in
      case p of
        None \<Rightarrow> Some (- 1, parsed, w1)
      | Some request_copy \<Rightarrow>
          (case fst (strtok request_copy [CR, LF]) of
             None \<Rightarrow> Some (- 1, parsed, w1)
           | Some line \<Rightarrow>
               let (m, rest1) = strtok line '' '';
                   (u, rest2) = strtok rest1 '' '';
                   (v, rest3) = strtok rest2 '' ''
               in case (m, u, v) of
                    (Some meth, Some ur, Some vers) \<Rightarrow> do {
                      let req = parsed\<lparr>rmethod := strncpy_sz (rmethod parsed) meth, url := strncpy_sz (url parsed) ur,
                                       rversion := strncpy_sz (rversion parsed) vers, rheaders := (rheaders parsed)[0 := NUL]\<rparr>;
                      (req1, rest4) \<leftarrow> header_loop req rest3;
                      (case fst (strtok rest4 []) of
                         Some b \<Rightarrow> Some (0, req1\<lparr>rbody := strncpy_sz (rbody req1) b\<rparr>, w1)
                       | None \<Rightarrow> Some (0, req1\<lparr>rbody := (rbody req1)[0 := NUL]\<rparr>, w1))
                    }
                  | _ \<Rightarrow> Some (- 1, parsed, w1)))"

section \<open>Responses\<close>

definition create_http_response ::
  "http_response \<Rightarrow> int \<Rightarrow> string \<Rightarrow> string option \<Rightarrow> http_response option" where
  "create_http_response r code msg bdy = do {
     v \<leftarrow> strcpy (version r) ''HTTP/1.1'';
     let n = (case bdy of Some b \<Rightarrow> int (length b) | None \<Rightarrow> 0);
     Some (r\<lparr>version := v, status_code := code, status_message := strncpy_sz (status_message r) msg,
             body := (case bdy of Some b \<Rightarrow> strncpy_sz (body r) b | None \<Rightarrow> (body r)[0 := NUL]),
             content_length := n,
             headers := snprintf_buf (headers r)
               (''Content-Type: application/json'' @ [CR, LF] @ ''Content-Length: '' @ dec_int n @ [CR, LF] @
                ''Connection: close'' @ [CR, LF])\<rparr>)
   }"

text \<open>The text given to \<open>send\<close>.\<close>

definition response_text :: "http_response \<Rightarrow> string option" where
  "response_text r = do {
     v \<leftarrow> cstr (version r);
     m \<leftarrow> cstr (status_message r);
     h \<leftarrow> cstr (headers r);
     b \<leftarrow> cstr (body r);
     Some (snprintf 8192 (v @ '' '' @ dec_int (status_code r) @ '' '' @ m @ [CR, LF] @ h @ [CR, LF] @ b))
   }"

definition send_http_response :: "bool \<Rightarrow> http_response \<Rightarrow> (int \<times> string) option" where
  "send_http_response sent r = response_text r \<bind> (\<lambda>t. Some (if sent then 0 else - 1, t))"

section \<open>Names in URLs\<close>

text \<open>The inner \<open>None\<close> is the error result.\<close>

definition extract_container_id_from_url :: "string \<Rightarrow> string option" where
  "extract_container_id_from_url u =
     (case strstr u ''/containers/'' of
        None \<Rightarrow> None
      | Some s \<Rightarrow>
          let start = drop (length ''/containers/'') s;
              end = (case strchr start (CHR ''/'') of None \<Rightarrow> [] | Some e \<Rightarrow> e);
              len = length start - length end
          in if 256 \<le> len then None else Some (take len start))"

definition extract_image_name_from_url :: "string \<Rightarrow> string option" where
  "extract_image_name_from_url u =
     (case strstr u ''/images/'' of
        None \<Rightarrow> None
      | Some s \<Rightarrow>
          let start = drop (length ''/images/'') s;
              end = (case strchr start (CHR ''/'') of None \<Rightarrow> [] | Some e \<Rightarrow> e);
              len = length start - length end
          in if 256 \<le> len then None else Some (take len start))"

section \<open>Handlers\<close>

text \<open>\<open>create_http_response\<close> on a body, then \<open>return 0\<close>: how every handler ends.\<close>

definition reply :: "http_response \<Rightarrow> int \<Rightarrow> string \<Rightarrow> string \<Rightarrow> world \<Rightarrow> (int \<times> http_response \<times> world) option" where
  "reply r code msg bdy w = create_http_response r code msg (Some bdy) \<bind> (\<lambda>r1. Some (0, r1, w))"

definition scan_if :: "string \<Rightarrow> string \<Rightarrow> string \<Rightarrow> buf \<Rightarrow> buf option" where
  "scan_if s needle fmt b = (if contains s needle then scan_str_into (sscanf s fmt) b else Some b)"

definition handle_container_create ::
  "os \<Rightarrow> http_request \<Rightarrow> http_response \<Rightarrow> world \<Rightarrow> (int \<times> http_response \<times> world) option" where
  "handle_container_create os req r w = do {
     bdy \<leftarrow> cstr (rbody req);
     img \<leftarrow> scan_if bdy (quoted ''Image'') ''\"Image\":\"%[^\"]\"'' (zbuf 256);
     cmd \<leftarrow> scan_if bdy (quoted ''Cmd'') ''\"Cmd\":[\"%[^\"]\"'' (zbuf 512);
     wd \<leftarrow> scan_if bdy (quoted ''WorkingDir'') ''\"WorkingDir\":\"%[^\"]\"'' (zbuf 256);
     env \<leftarrow> scan_if bdy (quoted ''Env'') ''\"Env\":[\"%[^\"]\"'' (zbuf 512);
     ports \<leftarrow> scan_if bdy (quoted ''PortBindings'') ''\"PortBindings\":\"%[^\"]\"'' (zbuf 256);
     vols \<leftarrow> scan_if bdy (quoted ''Binds'') ''\"Binds\":[\"%[^\"]\"'' (zbuf 256);
     let interactive = (if contains bdy (quoted ''AttachStdin'') then 1 else 0);
     let tty = (if contains bdy (quoted ''AttachStdout'') then 1 else 0);
     let detach = (if contains bdy (quoted ''Detach'') then 1 else 0);
     name \<leftarrow> cstr (zbuf 256);
     image \<leftarrow> cstr img;
     (if length image = 0
      then reply r 400 ''Bad Request'' ''{\"error\": \"Image name required\"}'' w
      else do {
        command \<leftarrow> cstr cmd;
        working \<leftarrow> cstr wd;
        environment \<leftarrow> cstr env;
        port_mappings \<leftarrow> cstr ports;
        volume_mappings \<leftarrow> cstr vols;
        (result, w1) \<leftarrow> create_container os (Some name) image (Some command) (Some working) (Some environment)
                         (Some port_mappings) (Some volume_mappings) interactive tty detach w;
        (if result = 0
         then reply r 201 ''Created'' ''{\"Id\": \"container_created\", \"Warnings\": []}'' w1
         else reply r 500 ''Internal Server Error'' ''{\"error\": \"Failed to create container\"}'' w1)
      })
   }"

definition handle_container_start ::
  "os \<Rightarrow> container_info \<Rightarrow> http_request \<Rightarrow> http_response \<Rightarrow> world \<Rightarrow> (int \<times> http_response \<times> world) option" where
  "handle_container_start os g req r w = do {
     u \<leftarrow> cstr (url req);
     (case extract_container_id_from_url u of
        None \<Rightarrow> reply r 400 ''Bad Request'' ''{\"error\": \"Invalid container ID\"}'' w
      | Some cid \<Rightarrow> start_container os g cid w \<bind> (\<lambda>(result, w1).
          if result = 0 then reply r 204 ''No Content'' [] w1
          else reply r 500 ''Internal Server Error'' ''{\"error\": \"Failed to start container\"}'' w1))
   }"

definition handle_container_stop ::
  "os \<Rightarrow> container_info \<Rightarrow> http_request \<Rightarrow> http_response \<Rightarrow> world \<Rightarrow> (int \<times> http_response \<times> world) option" where
  "handle_container_stop os g req r w = do {
     u \<leftarrow> cstr (url req);
     (case extract_container_id_from_url u of
        None \<Rightarrow> reply r 400 ''Bad Request'' ''{\"error\": \"Invalid container ID\"}'' w
      | Some cid \<Rightarrow> stop_container os g cid w \<bind> (\<lambda>(result, w1).
          if result = 0 then reply r 204 ''No Content'' [] w1
          else reply r 500 ''Internal Server Error'' ''{\"error\": \"Failed to stop container\"}'' w1))
   }"

definition handle_container_remove ::
  "os \<Rightarrow> container_info \<Rightarrow> http_request \<Rightarrow> http_response \<Rightarrow> world \<Rightarrow> (int \<times> http_response \<times> world) option" where
  "handle_container_remove os g req r w = do {
     u \<leftarrow> cstr (url req);
     (case extract_container_id_from_url u of
        None \<Rightarrow> reply r 400 ''Bad Request'' ''{\"error\": \"Invalid container ID\"}'' w
      | Some cid \<Rightarrow> remove_container os g cid w \<bind> (\<lambda>(result, w1).
          if result = 0 then reply r 204 ''No Content'' [] w1
          else reply r 500 ''Internal Server Error'' ''{\"error\": \"Failed to remove container\"}'' w1))
   }"

text \<open>The loops that join the entries of a listing in \<open>json_response\<close>.\<close>

definition container_json :: "container_info \<Rightarrow> string option" where
  "container_json c = do {
     cid \<leftarrow> cstr (c_id c);
     name \<leftarrow> cstr (c_name c);
     img \<leftarrow> cstr (c_image c);
     cmd \<leftarrow> cstr (c_command c);
     created \<leftarrow> cstr (c_created c);
     Some (snprintf 512 (''{\"Id\":\"'' @ cid @ ''\",\"Names\":[\"'' @ name @ ''\"],\"Image\":\"'' @ img @
        ''\",\"Command\":\"'' @ cmd @ ''\",\"Created\":'' @ created @ '',\"Status\":\"'' @
        (if c_state c = state_code CONTAINER_STATE_RUNNING then ''running'' else ''exited'') @ ''\"}''))
   }"

definition image_json :: "image_info \<Rightarrow> string option" where
  "image_json im = do {
     iid \<leftarrow> cstr (i_id im);
     name \<leftarrow> cstr (i_name im);
     tag \<leftarrow> cstr (i_tag im);
     created \<leftarrow> cstr (i_created im);
     sz \<leftarrow> cstr (i_size im);
     Some (snprintf 512 (''{\"Id\":\"'' @ iid @ ''\",\"RepoTags\":[\"'' @ name @ '':'' @ tag @ ''\"],\"Created\":'' @
        created @ '',\"Size\":'' @ sz @ ''}''))
   }"

fun join_entries :: "('a \<Rightarrow> string option) \<Rightarrow> 'a list \<Rightarrow> buf \<Rightarrow> buf option" where
  "join_entries json [] b = Some b"
| "join_entries json (x # xs) b = do {
     entry \<leftarrow> json x;
     b1 \<leftarrow> strcat b entry;
     b2 \<leftarrow> (if xs \<noteq> [] then strcat b1 '','' else Some b1);
     join_entries json xs b2
   }"

definition json_list :: "('a \<Rightarrow> string option) \<Rightarrow> 'a list \<Rightarrow> string option" where
  "json_list json xs = do {
     b0 \<leftarrow> strcpy (zbuf 4096) ''['';
     b1 \<leftarrow> join_entries json xs b0;
     b2 \<leftarrow> strcat b1 '']'';
     cstr b2
   }"

definition handle_container_list ::
  "os \<Rightarrow> (nat \<Rightarrow> buf) \<Rightarrow> (nat \<Rightarrow> container_info) \<Rightarrow> http_response \<Rightarrow> world \<Rightarrow> (int \<times> http_response \<times> world) option" where
  "handle_container_list os gid gs r w =
     list_containers os gid gs w \<bind> (\<lambda>(cs, w1).
       case cs of
         None \<Rightarrow> reply r 500 ''Internal Server Error'' ''{\"error\": \"Failed to list containers\"}'' w1
       | Some cs \<Rightarrow> json_list container_json cs \<bind> (\<lambda>j. reply r 200 ''OK'' j w1))"

definition handle_image_list ::
  "os \<Rightarrow> (nat \<Rightarrow> image_info) \<Rightarrow> http_response \<Rightarrow> world \<Rightarrow> (int \<times> http_response \<times> world) option" where
  "handle_image_list os gs r w =
     list_images os gs w \<bind> (\<lambda>(is, w1).
       case is of
         None \<Rightarrow> reply r 500 ''Internal Server Error'' ''{\"error\": \"Failed to list images\"}'' w1
       | Some is \<Rightarrow> json_list image_json is \<bind> (\<lambda>j. reply r 200 ''OK'' j w1))"

text \<open>A query parameter: the text behind the first occurrence of \<open>key\<close>, up to the next ampersand.\<close>

definition query_param :: "string \<Rightarrow> string \<Rightarrow> buf \<Rightarrow> buf option" where
  "query_param u key b =
     (case strstr u key of None \<Rightarrow> Some b | Some s \<Rightarrow> scan_str_into (sscanf s (key @ ''%[^&]'')) b)"

definition handle_image_build ::
  "os \<Rightarrow> layer_info \<Rightarrow> http_request \<Rightarrow> http_response \<Rightarrow> world \<Rightarrow> (int \<times> http_response \<times> world) option" where
  "handle_image_build os g req r w = do {
     u \<leftarrow> cstr (url req);
     ib \<leftarrow> query_param u ''t='' (zbuf 256);
     db \<leftarrow> query_param u ''dockerfile='' (zbuf 256);
     image_name \<leftarrow> cstr ib;
     df \<leftarrow> cstr db;
     (if length image_name = 0
      then reply r 400 ''Bad Request'' ''{\"error\": \"Image name required\"}'' w
      else do {
        db1 \<leftarrow> (if length df = 0 then strcpy db ''Dockerfile'' else Some db);
        df1 \<leftarrow> cstr db1;
        ctx \<leftarrow> strcpy (zbuf 256) ''.'' \<bind> cstr;
        (d, w1) \<leftarrow> parse_dockerfile os df1 w;
        (case d of
           None \<Rightarrow> reply r 500 ''Internal Server Error'' ''{\"error\": \"Failed to parse Dockerfile\"}'' w1
         | Some d \<Rightarrow> build_image_from_dockerfile os g (Some d) image_name (Some ''latest'') ctx w1 \<bind> (\<lambda>(result, w2).
             if result = 0 then reply r 200 ''OK'' ''{\"message\": \"Image built successfully\"}'' w2
             else reply r 500 ''Internal Server Error'' ''{\"error\": \"Failed to build image\"}'' w2))
      })
   }"

definition handle_image_remove ::
  "os \<Rightarrow> http_request \<Rightarrow> http_response \<Rightarrow> world \<Rightarrow> (int \<times> http_response \<times> world) option" where
  "handle_image_remove os req r w = do {
     u \<leftarrow> cstr (url req);
     (case extract_image_name_from_url u of
        None \<Rightarrow> reply r 400 ''Bad Request'' ''{\"error\": \"Invalid image name\"}'' w
      | Some name \<Rightarrow>
          let (result, w1) = remove_image os name w
          in if result = 0 then reply r 200 ''OK'' ''{\"message\": \"Image removed successfully\"}'' w1
             else reply r 500 ''Internal Server Error'' ''{\"error\": \"Failed to remove image\"}'' w1)
   }"

definition handle_version_api :: "http_response \<Rightarrow> world \<Rightarrow> (int \<times> http_response \<times> world) option" where
  "handle_version_api r w = reply r 200 ''OK''
     ''{\"Version\":\"1.0.0\",\"ApiVersion\":\"1.40\",\"GitCommit\":\"docker-clone\",\"GoVersion\":\"N/A\",\"Os\":\"linux\",\"Arch\":\"amd64\"}'' w"

definition handle_info_api :: "http_response \<Rightarrow> world \<Rightarrow> (int \<times> http_response \<times> world) option" where
  "handle_info_api r w = reply r 200 ''OK''
     ''{\"Containers\":0,\"Images\":0,\"Driver\":\"overlay2\",\"SystemTime\":\"2024-01-01T00:00:00Z\"}'' w"

section \<open>Routing and the connection\<close>

definition handle_containers_api ::
  "os \<Rightarrow> garbage \<Rightarrow> http_request \<Rightarrow> http_response \<Rightarrow> world \<Rightarrow> (int \<times> http_response \<times> world) option" where
  "handle_containers_api os g req r w = do {
     m \<leftarrow> cstr (rmethod req);
     u \<leftarrow> cstr (url req);
     let not_found = reply r 404 ''Not Found'' ''{\"error\": \"Container API endpoint not found\"}'' w;
     (if m = ''GET'' then
        (if contains u ''/containers/json'' then not_found
         else if contains u ''/containers/'' \<and> contains u ''/start'' then handle_container_start os (g_container g) req r w
         else if contains u ''/containers/'' \<and> contains u ''/stop'' then handle_container_stop os (g_container g) req r w
         else if contains u ''/containers/'' \<and> contains u ''/remove'' then handle_container_remove os (g_container g) req r w
         else not_found)
      else if m = ''POST'' then
        (if contains u ''/containers/create'' then handle_container_create os req r w else not_found)
      else not_found)
   }"

definition handle_images_api ::
  "os \<Rightarrow> garbage \<Rightarrow> http_request \<Rightarrow> http_response \<Rightarrow> world \<Rightarrow> (int \<times> http_response \<times> world) option" where
  "handle_images_api os g req r w = do {
     m \<leftarrow> cstr (rmethod req);
     u \<leftarrow> cstr (url req);
     let not_found = reply r 404 ''Not Found'' ''{\"error\": \"Image API endpoint not found\"}'' w;
     (if m = ''GET'' then
        (if contains u ''/images/json'' then handle_image_list os (g_images g) r w else not_found)
      else if m = ''POST'' then
        (if contains u ''/build'' then handle_image_build os (g_layer g) req r w else not_found)
      else if m = ''DELETE'' then
        (if contains u ''/images/'' then handle_image_remove os req r w else not_found)
      else not_found)
   }"

definition handle_api_request ::
  "os \<Rightarrow> garbage \<Rightarrow> http_request \<Rightarrow> http_response \<Rightarrow> world \<Rightarrow> (int \<times> http_response \<times> world) option" where
  "handle_api_request os g req r w = do {
     u \<leftarrow> cstr (url req);
     (if contains u ''/containers'' then handle_containers_api os g req r w
      else if contains u ''/images'' then handle_images_api os g req r w
      else reply r 404 ''Not Found'' ''{\"error\": \"API endpoint not found\"}'' w)
   }"

text \<open>Logging reads the fields and changes nothing.\<close>

definition log_request :: "http_request \<Rightarrow> unit option" where
  "log_request req = do {
     v \<leftarrow> cstr (rversion req);
     m \<leftarrow> cstr (rmethod req);
     u \<leftarrow> cstr (url req);
     Some ()
   }"

definition log_response :: "http_response \<Rightarrow> unit option" where
  "log_response r = do {
     v \<leftarrow> cstr (version r);
     m \<leftarrow> cstr (status_message r);
     Some ()
   }"

text \<open>
  One connection: \<open>received\<close> is what \<open>recv\<close> put into the buffer, empty when it failed or the peer
  closed. The buffer is cut at the first zero byte. The result is the text handed to \<open>send\<close>.
\<close>

definition handle_client ::
  "os \<Rightarrow> garbage \<Rightarrow> bool \<Rightarrow> string \<Rightarrow> world \<Rightarrow> (string option \<times> world) option" where
  "handle_client os g sent received w =
     (if received = [] then Some (None, w)
      else do {
        (p, req, w1) \<leftarrow> parse_http_request os (c_line (take 8191 received)) (g_request g) w;
        (if p \<noteq> 0 then do {
           r \<leftarrow> create_http_response (g_response g) 400 ''Bad Request'' (Some ''Invalid HTTP request'');
           (_, t) \<leftarrow> send_http_response sent r;
           Some (Some t, w1)
         } else do {
           _ \<leftarrow> log_request req;
           (h, r, w2) \<leftarrow> handle_api_request os g req (g_response g) w1;
           r1 \<leftarrow> (if h \<noteq> 0
                 then create_http_response r 500 ''Internal Server Error'' (Some ''Failed to handle request'')
                 else Some r);
           _ \<leftarrow> log_response r1;
           (_, t) \<leftarrow> send_http_response sent r1;
           Some (Some t, w2)
         })
      })"

text \<open>
  \<open>start_http_server\<close>. The results of the four set-up calls are inputs, and so is what each pass of
  the accept loop meets; the loop never ends, so a list of passes is a finite part of a run. The threads run
  one after the other here; theory \<open>Threads\<close> lets them take turns.
\<close>

record network =
  socket_fd :: int
  setsockopt_result :: int
  bind_result :: int
  listen_result :: int

datatype connection = Accept_failed | Thread_failed | Connected garbage bool string

fun serve :: "os \<Rightarrow> connection list \<Rightarrow> world \<Rightarrow> (string option list \<times> world) option" where
  "serve os [] w = Some ([], w)"
| "serve os (Accept_failed # cs) w = serve os cs w"
| "serve os (Thread_failed # cs) w = serve os cs (snd (malloc os w))"
| "serve os (Connected g sent received # cs) w =
     (let (ok, w1) = malloc os w in
      if \<not> ok then serve os cs w1
      else do {
        (t, w2) \<leftarrow> handle_client os g sent received w1;
        (ts, w3) \<leftarrow> serve os cs w2;
        Some (t # ts, w3)
      })"

text \<open>The result is \<open>Some (- 1)\<close> when the server returns, \<open>None\<close> while it serves.\<close>

definition start_http_server ::
  "os \<Rightarrow> network \<Rightarrow> connection list \<Rightarrow> world \<Rightarrow> (int option \<times> string option list \<times> world) option" where
  "start_http_server os net cs w =
     (if socket_fd net < 0 \<or> setsockopt_result net < 0 \<or> bind_result net < 0 \<or> listen_result net < 0
      then Some (Some (- 1), [], w)
      else serve os cs w \<bind> (\<lambda>(ts, w1). Some (None, ts, w1)))"

text \<open>The descriptors that \<open>cleanup_server\<close> closes.\<close>

definition cleanup_server :: "int \<Rightarrow> int list" where
  "cleanup_server server_socket = (if 0 \<le> server_socket then [server_socket] else [])"

section \<open>What a reply is\<close>

definition sized_response :: "http_response \<Rightarrow> bool" where
  "sized_response r \<longleftrightarrow> length (version r) = 16 \<and> length (status_message r) = 64 \<and> length (headers r) = 1024 \<and>
     length (body r) = 8192"

text \<open>The header text for a body of \<open>n\<close> bytes.\<close>

definition header_text :: "int \<Rightarrow> string" where
  "header_text n = ''Content-Type: application/json'' @ [CR, LF] @ ''Content-Length: '' @ dec_int n @ [CR, LF] @
     ''Connection: close'' @ [CR, LF]"

definition answers :: "http_response \<Rightarrow> int \<Rightarrow> string \<Rightarrow> string \<Rightarrow> bool" where
  "answers r code msg bdy \<longleftrightarrow>
     sized_response r \<and> status_code r = code \<and> cstr (version r) = Some ''HTTP/1.1'' \<and>
     cstr (status_message r) = Some msg \<and> cstr (body r) = Some bdy \<and>
     cstr (headers r) = Some (header_text (int (length bdy))) \<and> content_length r = int (length bdy)"

lemma length_header_text: "length bdy < 8192 \<Longrightarrow> length (header_text (int (length bdy))) \<le> 100"
  using length_dec_nat [of "length bdy" 4] by (simp add: header_text_def dec_int_def)

lemma no_nul_header_text: "no_nul (header_text n)"
  by (simp add: header_text_def)

lemma create_http_response_answers:
  assumes "sized_response r" "no_nul msg" "length msg \<le> 62" "no_nul bdy" "length bdy \<le> 8190"
  obtains r' where "create_http_response r code msg (Some bdy) = Some r'" "answers r' code msg bdy"
proof -
  let ?n = "int (length bdy)"
  have len: "length (header_text ?n) < 1024" using length_header_text [of bdy] assms(5) by simp
  obtain v where v: "strcpy (version r) ''HTTP/1.1'' = Some v"
    using assms(1) by (simp add: strcpy_def sized_response_def)
  let ?r = "r\<lparr>version := v, status_code := code, status_message := strncpy_sz (status_message r) msg,
     body := strncpy_sz (body r) bdy, content_length := ?n, headers := snprintf_buf (headers r) (header_text ?n)\<rparr>"
  have "create_http_response r code msg (Some bdy) = Some ?r"
    unfolding create_http_response_def header_text_def v Let_def by simp
  moreover have "cstr v = Some ''HTTP/1.1''" "length v = 16"
    using v assms(1) cstr_strcpy [OF v] length_strcpy [OF v] by (simp_all add: sized_response_def)
  moreover have "cstr (snprintf_buf (headers r) (header_text ?n)) = Some (header_text ?n)"
    using assms(1) len no_nul_header_text [of ?n] cstr_snprintf_buf [of "headers r" "header_text ?n"]
    by (cases "headers r") (simp_all add: sized_response_def snprintf_id)
  moreover have "cstr (strncpy_sz (status_message r) msg) = Some msg" "cstr (strncpy_sz (body r) bdy) = Some bdy"
    using assms by (auto intro!: cstr_strncpy_short simp: sized_response_def)
  moreover have "length (snprintf_buf (headers r) (header_text ?n)) = 1024" using assms(1) by (simp add: sized_response_def)
  ultimately show thesis
    using assms(1) by (intro that [of ?r]) (simp_all add: answers_def sized_response_def)
qed

lemma reply_answers:
  assumes "sized_response r" "no_nul msg" "length msg \<le> 62" "no_nul bdy" "length bdy \<le> 8190"
  shows "\<exists>r'. reply r code msg bdy w = Some (0, r', w) \<and> answers r' code msg bdy"
proof -
  obtain r' where "create_http_response r code msg (Some bdy) = Some r'" "answers r' code msg bdy"
    by (rule create_http_response_answers [OF assms])
  then show ?thesis by (simp add: reply_def)
qed

definition wire :: "int \<Rightarrow> string \<Rightarrow> string \<Rightarrow> string" where
  "wire code msg bdy = snprintf 8192 (''HTTP/1.1 '' @ dec_int code @ '' '' @ msg @ [CR, LF] @
     header_text (int (length bdy)) @ [CR, LF] @ bdy)"

lemma response_text_answers: "answers r code msg bdy \<Longrightarrow> response_text r = Some (wire code msg bdy)"
  by (simp add: response_text_def answers_def wire_def)

section \<open>The request line is all there is\<close>

lemma header_loop_rest: "header_loop req rest = Some (req', r') \<Longrightarrow> r' = [] \<and> rbody req' = rbody req \<and>
    rmethod req' = rmethod req \<and> url req' = url req \<and> rversion req' = rversion req"
proof (induction "length rest" arbitrary: req rest rule: less_induct)
  case less
  show ?case
  proof (cases "fst (strtok rest [CR, LF])")
    case None
    then have "strtok rest [CR, LF] = (None, [])" by (auto simp: strtok_def Let_def split: if_splits)
    then show ?thesis using less.prems by (simp add: header_loop.simps [of req rest])
  next
    case (Some line)
    then obtain rest1 where st: "strtok rest [CR, LF] = (Some line, rest1)" by (cases "strtok rest [CR, LF]") auto
    then have "length line \<noteq> 0" using strtok_Some(1) by auto
    then obtain n h where "header_loop (req\<lparr>rcontent_length := n, rheaders := h\<rparr>) rest1 = Some (req', r')"
      using less.prems st by (auto simp: header_loop.simps [of req rest] bind_Some_iff)
    then show ?thesis using less.hyps [OF strtok_rest_shorter [OF st]] by fastforce
  qed
qed

text \<open>
  The server never sees a request body: whatever bytes arrive, a request that parses has an empty
  body. \<open>strtok\<close> keeps one position, and splitting the request line moves it into that line, so header
  lines and body behind it are out of reach.
\<close>

theorem body_always_empty:
  assumes "parse_http_request os s g w = Some (0, req, w')" "rbody g \<noteq> []"
  shows "cstr (rbody req) = Some []"
proof -
  have "run_ok (parse_http_request os s g w) (\<lambda>(r, req, w'). r = 0 \<longrightarrow> cstr (rbody req) = Some [])"
    unfolding parse_http_request_def Let_def run_simps
    using assms(2)
    by (cases "rbody g") (auto dest!: header_loop_rest simp: cstr_def)
  then show ?thesis using assms(1) by (simp add: run_ok_def)
qed


text \<open>A word of the request line: no blank, no line end, no terminator.\<close>

definition token :: "string \<Rightarrow> bool" where
  "token t \<longleftrightarrow> t \<noteq> [] \<and> no_nul t \<and> CHR '' '' \<notin> set t \<and> CR \<notin> set t \<and> LF \<notin> set t"

lemma token_space: "token t \<Longrightarrow> t \<noteq> [] \<and> (\<forall>c \<in> set t. c \<notin> set '' '')"
  by (auto simp: token_def)

lemma strtok_token:
  "token t \<Longrightarrow> strtok (t @ CHR '' '' # r) '' '' = (Some t, r)" "token t \<Longrightarrow> strtok t '' '' = (Some t, [])"
  using strtok_simple [of t "'' ''" "CHR '' ''" r] strtok_last [of t "'' ''"] by (auto simp: token_def)

definition sized_request :: "http_request \<Rightarrow> bool" where
  "sized_request g \<longleftrightarrow> length (rmethod g) = 16 \<and> length (url g) = 512 \<and> length (rversion g) = 16 \<and>
     length (rheaders g) = 1024 \<and> length (rbody g) = 8192"

text \<open>The request line with its optional further words, and whatever follows its line end.\<close>

definition request_bytes :: "string \<Rightarrow> string \<Rightarrow> string \<Rightarrow> string \<Rightarrow> string \<Rightarrow> string" where
  "request_bytes m u v x beyond = m @ '' '' @ u @ '' '' @ v @ (if x = [] then [] else '' '' @ x) @ [CR, LF] @ beyond"

lemma header_loop_one:
  assumes "x \<noteq> []" "CR \<notin> set x" "LF \<notin> set x" "no_nul x" "\<not> contains x ''Content-Length:''"
    and "cstr (rheaders req) = Some []" "length (rheaders req) = 1024"
  shows "if length x + 2 < 1024
    then \<exists>h. header_loop req x = Some (req\<lparr>rheaders := h\<rparr>, []) \<and> cstr h = Some (x @ [CR, LF])
    else header_loop req x = None"
proof -
  have st: "strtok x [CR, LF] = (Some x, [])" using strtok_last [of x "[CR, LF]"] assms(1-3) by auto
  have hl: "header_loop req x = strcat (rheaders req) x \<bind> (\<lambda>h1. strcat h1 [CR, LF] \<bind>
      (\<lambda>h2. header_loop (req\<lparr>rcontent_length := rcontent_length req, rheaders := h2\<rparr>) []))"
    using assms(1,5) by (simp add: header_loop.simps [of req x] st)
  have nil: "header_loop r [] = Some (r, [])" for r by (simp add: header_loop.simps)
  show ?thesis
  proof (cases "length x < 1024")
    case False
    then have "strcat (rheaders req) x = None" using assms(6,7) by (simp add: strcat_def strcpy_def)
    then show ?thesis using False by (simp add: hl)
  next
    case True
    then obtain h1 where h1: "strcat (rheaders req) x = Some h1" using assms(6,7) by (simp add: strcat_def strcpy_def)
    have c1: "cstr h1 = Some x" "length h1 = 1024"
      using cstr_strcat [OF h1 assms(6,4)] length_strcat [OF h1] assms(7) by simp_all
    show ?thesis
    proof (cases "length x + 2 < 1024")
      case True
      then obtain h2 where h2: "strcat h1 [CR, LF] = Some h2" using c1 by (simp add: strcat_def strcpy_def)
      then show ?thesis using cstr_strcat [OF h2 c1(1)] h1 True by (auto simp: hl nil)
    next
      case False
      then have "strcat h1 [CR, LF] = None" using c1 by (simp add: strcat_def strcpy_def)
      then show ?thesis using False h1 by (simp add: hl)
    qed
  qed
qed

lemma parse_request_words:
  assumes "token m" "token u" "token v" "length m < 15" "length u < 511" "length v < 15"
    and "CR \<notin> set x" "LF \<notin> set x" "no_nul x" "\<not> contains x ''Content-Length:''"
    and "sized_request g" "alloc os (allocs w)"
  shows "if x = [] \<or> length x + 2 < 1024
    then \<exists>req. parse_http_request os (request_bytes m u v x beyond) g w = Some (0, req, w\<lparr>allocs := Suc (allocs w)\<rparr>) \<and>
      cstr (rmethod req) = Some m \<and> cstr (url req) = Some u \<and> cstr (rversion req) = Some v \<and>
      cstr (rheaders req) = Some (if x = [] then [] else x @ [CR, LF]) \<and> cstr (rbody req) = Some []
    else parse_http_request os (request_bytes m u v x beyond) g w = None"
proof -
  let ?rest = "v @ (if x = [] then [] else '' '' @ x)"
  let ?line = "m @ '' '' @ u @ '' '' @ ?rest"
  have l: "strtok (request_bytes m u v x beyond) [CR, LF] = (Some ?line, LF # beyond)"
  proof -
    have "?line \<noteq> []" using assms(1) by (simp add: token_def)
    moreover have "CR \<notin> set ?line" "LF \<notin> set ?line" using assms(1-3,7,8) by (auto simp: token_def)
    then have "c \<in> set ?line \<Longrightarrow> c \<notin> set [CR, LF]" for c by auto
    ultimately have "strtok (?line @ CR # LF # beyond) [CR, LF] = (Some ?line, LF # beyond)"
      by (intro strtok_simple) simp_all
    then show ?thesis by (simp add: request_bytes_def)
  qed
  have 1: "strtok ?line '' '' = (Some m, u @ '' '' @ ?rest)" using strtok_token(1) [OF assms(1)] by simp
  have 2: "strtok (u @ '' '' @ ?rest) '' '' = (Some u, ?rest)" using strtok_token(1) [OF assms(2)] by simp
  have 3: "strtok ?rest '' '' = (Some v, x)" using strtok_token [OF assms(3)] by simp
  obtain ln r1 r2 where k: "strtok (request_bytes m u v x beyond) [CR, LF] = (Some ln, LF # beyond)"
    "strtok ln '' '' = (Some m, r1)" "strtok r1 '' '' = (Some u, r2)" "strtok r2 '' '' = (Some v, x)"
    using l 1 2 3 by blast
  let ?req = "g\<lparr>rmethod := strncpy_sz (rmethod g) m, url := strncpy_sz (url g) u,
     rversion := strncpy_sz (rversion g) v, rheaders := (rheaders g)[0 := NUL]\<rparr>"
  have p: "parse_http_request os (request_bytes m u v x beyond) g w =
      header_loop ?req x \<bind> (\<lambda>(req1, rest4). case fst (strtok rest4 []) of
         Some b \<Rightarrow> Some (0, req1\<lparr>rbody := strncpy_sz (rbody req1) b\<rparr>, w\<lparr>allocs := Suc (allocs w)\<rparr>)
       | None \<Rightarrow> Some (0, req1\<lparr>rbody := (rbody req1)[0 := NUL]\<rparr>, w\<lparr>allocs := Suc (allocs w)\<rparr>))"
    using assms(12) by (simp add: parse_http_request_def strdup_def malloc_def k)
  have s: "cstr ((rheaders g)[0 := NUL]) = Some []" "cstr ((rbody g)[0 := NUL]) = Some []"
    using assms(11) by (cases "rheaders g"; cases "rbody g"; simp add: sized_request_def cstr_def)+
  have f: "cstr (rmethod ?req) = Some m" "cstr (url ?req) = Some u" "cstr (rversion ?req) = Some v"
    using assms(1-6,11) by (auto simp: sized_request_def token_def intro!: cstr_strncpy_short)
  show ?thesis
  proof (cases "x = []")
    case True
    have "header_loop ?req [] = Some (?req, [])" by (simp add: header_loop.simps)
    then show ?thesis unfolding p using True f s by simp
  next
    case False
    have "cstr (rheaders ?req) = Some []" "length (rheaders ?req) = 1024"
      using s assms(11) by (simp_all add: sized_request_def)
    note h = header_loop_one [OF False assms(7-10) this]
    show ?thesis
    proof (cases "length x + 2 < 1024")
      case True
      then obtain h where "header_loop ?req x = Some (?req\<lparr>rheaders := h\<rparr>, [])" "cstr h = Some (x @ [CR, LF])"
        using h by auto
      then show ?thesis using True False f s by (simp add: p)
    next
      case F: False
      then have "header_loop ?req x = None" using h by simp
      then show ?thesis using F False by (simp add: p)
    qed
  qed
qed

text \<open>
  C19. What the server makes of a request line: method, URL and version are its first three words, the
  words after them become the headers, and nothing behind the line is read. It is undefined exactly when the
  further words do not fit the header array with their line end (1022 bytes or beyond): one long request line
  overwrites the stack.
\<close>

theorem parse_request_line:
  assumes "token m" "token u" "token v" "length m < 15" "length u < 511" "length v < 15"
    and "CR \<notin> set x" "LF \<notin> set x" "no_nul x" "\<not> contains x ''Content-Length:''"
    and "sized_request g" "alloc os (allocs w)"
  shows "if x = [] \<or> length x + 2 < 1024
    then \<exists>req. parse_http_request os (request_bytes m u v x beyond) g w = Some (0, req, w\<lparr>allocs := Suc (allocs w)\<rparr>) \<and>
      cstr (rmethod req) = Some m \<and> cstr (url req) = Some u \<and> cstr (rversion req) = Some v \<and>
      cstr (rheaders req) = Some (if x = [] then [] else x @ [CR, LF]) \<and> cstr (rbody req) = Some []
    else parse_http_request os (request_bytes m u v x beyond) g w = None"
  using assms by (rule parse_request_words)

definition zero_request :: http_request where
  "zero_request = \<lparr>rmethod = zbuf 16, url = zbuf 512, rversion = zbuf 16, rheaders = zbuf 1024, rbody = zbuf 8192,
     rcontent_length = 0\<rparr>"

definition zero_response :: http_response where
  "zero_response = \<lparr>version = zbuf 16, status_code = 0, status_message = zbuf 64, headers = zbuf 1024,
     body = zbuf 8192, content_length = 0\<rparr>"

lemma zero_sized [simp]: "sized_request zero_request" "sized_response zero_response"
  by (simp_all add: sized_request_def zero_request_def sized_response_def zero_response_def)

theorem parse_request_line_witness:
  "parse_http_request calm_os (request_bytes ''GET'' ''/'' ''HTTP/1.1'' (replicate 1022 (CHR ''a'')) []) zero_request empty_world = None"
proof -
  have t: "token ''GET''" "token ''/''" "token ''HTTP/1.1''" by (simp_all add: token_def)
  have n: "\<not> contains (replicate 1022 (CHR ''a'')) ''Content-Length:''"
  proof
    assume "contains (replicate 1022 (CHR ''a'')) ''Content-Length:''"
    then have "set ''Content-Length:'' \<subseteq> set (replicate 1022 (CHR ''a''))"
      unfolding contains_sublist by (rule set_mono_sublist)
    then show False by simp
  qed
  show ?thesis
    using parse_request_line [OF t, of "replicate 1022 (CHR ''a'')" zero_request calm_os empty_world "[]"] n
    by (simp add: no_nul_def calm_os_def)
qed

theorem body_always_empty_witness:
  "\<exists>req w'. parse_http_request calm_os (request_bytes ''POST'' ''/containers/create'' ''HTTP/1.1'' [] ''{}'') zero_request empty_world
     = Some (0, req, w') \<and> cstr (rbody req) = Some []"
proof -
  have t: "token ''POST''" "token ''/containers/create''" "token ''HTTP/1.1''" by (simp_all add: token_def)
  obtain req w' where "parse_http_request calm_os (request_bytes ''POST'' ''/containers/create'' ''HTTP/1.1'' [] ''{}'') zero_request empty_world
     = Some (0, req, w')"
    using parse_request_words [OF t, of "[]" zero_request calm_os empty_world "''{}''"]
    by (auto simp: calm_os_def contains_def)
  moreover have "rbody zero_request \<noteq> []" by (simp add: zero_request_def zbuf_def)
  ultimately show ?thesis using body_always_empty by blast
qed

section \<open>The handlers on a container name\<close>

text \<open>A request as the handlers see it.\<close>

definition asks :: "http_request \<Rightarrow> string \<Rightarrow> string \<Rightarrow> bool" where
  "asks req m u \<longleftrightarrow> cstr (rmethod req) = Some m \<and> cstr (url req) = Some u \<and> cstr (rversion req) \<noteq> None \<and>
     cstr (rbody req) = Some []"

text \<open>
  The contract of a handler that names a container and runs one operation: the operation refuses a
  container that does not exist, and the handler answers 400 without a name, 204 when the operation returns
  0 and 500 with its own message otherwise.
\<close>

locale container_endpoint =
  fixes operation :: "os \<Rightarrow> container_info \<Rightarrow> string \<Rightarrow> world \<Rightarrow> (int \<times> world) option"
    and handler :: "os \<Rightarrow> container_info \<Rightarrow> http_request \<Rightarrow> http_response \<Rightarrow> world \<Rightarrow> (int \<times> http_response \<times> world) option"
    and failure :: string
  assumes refuses: "\<not> container_exists cid w \<Longrightarrow> operation os g cid w = Some (- 1, w)"
    and no_name: "cstr (url req) = Some u \<Longrightarrow> extract_container_id_from_url u = None \<Longrightarrow>
      handler os g req r w = reply r 400 ''Bad Request'' ''{\"error\": \"Invalid container ID\"}'' w"
    and runs: "cstr (url req) = Some u \<Longrightarrow> extract_container_id_from_url u = Some cid \<Longrightarrow>
      operation os g cid w = Some (result, w') \<Longrightarrow>
      handler os g req r w = (if result = 0 then reply r 204 ''No Content'' [] w'
                              else reply r 500 ''Internal Server Error'' failure w')"
    and defined: "cstr (url req) = Some u \<Longrightarrow> extract_container_id_from_url u = Some cid \<Longrightarrow>
      operation os g cid w = None \<Longrightarrow> handler os g req r w = None"
    and failure_text: "no_nul failure" "length failure \<le> 100"
begin

lemma unknown_container:
  assumes "asks req m u" "extract_container_id_from_url u = Some cid" "\<not> container_exists cid w" "sized_response r"
  shows "\<exists>r'. handler os g req r w = Some (0, r', w) \<and> answers r' 500 ''Internal Server Error'' failure"
  using runs [OF _ assms(2) refuses [OF assms(3)]] reply_answers [OF assms(4), of "''Internal Server Error''" failure]
    assms(1) failure_text
  by (simp add: asks_def)

lemma endpoint_answer:
  assumes "asks req m u" "sized_response r" "handler os g req r w = Some (h, r', w')"
  shows "h = 0 \<and>
    (answers r' 400 ''Bad Request'' ''{\"error\": \"Invalid container ID\"}'' \<and> extract_container_id_from_url u = None \<and> w' = w \<or>
     (\<exists>cid. extract_container_id_from_url u = Some cid \<and>
        (operation os g cid w = Some (0, w') \<and> answers r' 204 ''No Content'' [] \<or>
         (\<exists>e. e \<noteq> 0 \<and> operation os g cid w = Some (e, w')) \<and> answers r' 500 ''Internal Server Error'' failure)))"
proof (cases "extract_container_id_from_url u")
  case None
  then show ?thesis
    using assms no_name [of req u os g r w]
      reply_answers [OF assms(2), of "''Bad Request''" "''{\"error\": \"Invalid container ID\"}''" 400 w]
    by (auto simp: asks_def)
next
  case (Some cid)
  then obtain e v where o: "operation os g cid w = Some (e, v)"
    using defined [of req u cid os g w r] assms(1,3) by (cases "operation os g cid w") (auto simp: asks_def)
  then show ?thesis
    using Some assms runs [OF _ Some o, of req r] failure_text
      reply_answers [OF assms(2), of "''No Content''" "[]" 204 v]
      reply_answers [OF assms(2), of "''Internal Server Error''" failure 500 v]
    by (auto simp: asks_def split: if_split_asm)
qed

end

interpretation start_endpoint: container_endpoint start_container handle_container_start
  "''{\"error\": \"Failed to start container\"}''"
  by unfold_locales (auto simp: start_refused handle_container_start_def)

interpretation stop_endpoint: container_endpoint stop_container handle_container_stop
  "''{\"error\": \"Failed to stop container\"}''"
  by unfold_locales (auto simp: stop_refused handle_container_stop_def)

interpretation remove_endpoint: container_endpoint remove_container handle_container_remove
  "''{\"error\": \"Failed to remove container\"}''"
  by unfold_locales (auto simp: remove_refused handle_container_remove_def)

section \<open>One connection\<close>

text \<open>The request line that a well-behaved client sends, and the memory it meets.\<close>

definition good_words :: "string \<Rightarrow> string \<Rightarrow> bool" where
  "good_words m u \<longleftrightarrow> token m \<and> token u \<and> length m < 15 \<and> length u < 511"

definition sized_garbage :: "garbage \<Rightarrow> bool" where
  "sized_garbage g \<longleftrightarrow> sized_request (g_request g) \<and> sized_response (g_response g)"

definition http_bytes :: "string \<Rightarrow> string \<Rightarrow> string \<Rightarrow> string" where
  "http_bytes m u beyond = request_bytes m u ''HTTP/1.1'' [] beyond"

lemma received_line:
  assumes "good_words m u"
  shows "http_bytes m u beyond \<noteq> [] \<and> (\<exists>b. c_line (take 8191 (http_bytes m u beyond)) = http_bytes m u b)"
proof -
  let ?l = "m @ '' '' @ u @ '' '' @ ''HTTP/1.1'' @ [CR, LF]"
  have l: "length ?l < 8191" "no_nul ?l" using assms by (simp_all add: good_words_def token_def)
  have b: "http_bytes m u b = ?l @ b" for b by (simp add: http_bytes_def request_bytes_def)
  have "c_line (?l @ b) = ?l @ c_line b" for b
    unfolding c_line_def using l(2) by (intro takeWhile_append2) (auto simp: no_nul_def)
  moreover have "take 8191 (?l @ beyond) = ?l @ take (8191 - length ?l) beyond" using l(1) by (subst take_append) simp
  ultimately have "c_line (take 8191 (http_bytes m u beyond)) = http_bytes m u (c_line (take (8191 - length ?l) beyond))"
    by (simp only: b)
  then show ?thesis using assms by (auto simp: b good_words_def token_def)
qed

lemma handle_client_request:
  assumes "good_words m u" "sized_garbage g" "alloc os (allocs w)"
  obtains req where "asks req m u"
    "handle_client os g sent (http_bytes m u beyond) w =
       handle_api_request os g req (g_response g) (w\<lparr>allocs := Suc (allocs w)\<rparr>) \<bind> (\<lambda>(h, r, w2).
         (if h \<noteq> 0 then create_http_response r 500 ''Internal Server Error'' (Some ''Failed to handle request'') else Some r) \<bind>
         (\<lambda>r1. log_response r1 \<bind> (\<lambda>_. response_text r1 \<bind> (\<lambda>t. Some (Some t, w2)))))"
proof -
  obtain b where b: "c_line (take 8191 (http_bytes m u beyond)) = http_bytes m u b" "http_bytes m u beyond \<noteq> []"
    using received_line [OF assms(1)] by blast
  have "token ''HTTP/1.1''" by (simp add: token_def)
  then obtain req where req: "parse_http_request os (http_bytes m u b) (g_request g) w = Some (0, req, w\<lparr>allocs := Suc (allocs w)\<rparr>)"
    "cstr (rmethod req) = Some m" "cstr (url req) = Some u" "cstr (rversion req) = Some ''HTTP/1.1''" "cstr (rbody req) = Some []"
    using parse_request_words [of m u "''HTTP/1.1''" "[]" "g_request g" os w b] assms
    by (auto simp: good_words_def sized_garbage_def http_bytes_def contains_def)
  have "asks req m u" using req by (simp add: asks_def)
  moreover have "log_request req = Some ()" using req by (simp add: log_request_def)
  ultimately show thesis
    using that [of req] b req(1) by (simp add: handle_client_def send_http_response_def bind_assoc case_prod_unfold)
qed

lemma handle_client_answers:
  assumes "handle_api_request os g req (g_response g) w1 = Some (0, r, w2)" "answers r code msg bdy"
    and "handle_client os g sent s w = handle_api_request os g req (g_response g) w1 \<bind> (\<lambda>(h, r, w2).
         (if h \<noteq> 0 then create_http_response r 500 ''Internal Server Error'' (Some ''Failed to handle request'') else Some r) \<bind>
         (\<lambda>r1. log_response r1 \<bind> (\<lambda>_. response_text r1 \<bind> (\<lambda>t. Some (Some t, w2)))))"
  shows "handle_client os g sent s w = Some (Some (wire code msg bdy), w2)"
  using assms response_text_answers [OF assms(2)] by (simp add: log_response_def answers_def)

section \<open>What the server answers\<close>

text \<open>The requests that reach a handler, by method and URL.\<close>

definition routed :: "string \<Rightarrow> string \<Rightarrow> bool" where
  "routed m u \<longleftrightarrow>
     (if contains u ''/containers''
      then m = ''GET'' \<and> \<not> contains u ''/containers/json'' \<and> contains u ''/containers/'' \<and>
             (contains u ''/start'' \<or> contains u ''/stop'' \<or> contains u ''/remove'') \<or>
           m = ''POST'' \<and> contains u ''/containers/create''
      else contains u ''/images'' \<and>
        (m = ''GET'' \<and> contains u ''/images/json'' \<or> m = ''POST'' \<and> contains u ''/build'' \<or>
         m = ''DELETE'' \<and> contains u ''/images/''))"

definition not_found_text :: "string \<Rightarrow> string" where
  "not_found_text u =
     (if contains u ''/containers'' then ''{\"error\": \"Container API endpoint not found\"}''
      else if contains u ''/images'' then ''{\"error\": \"Image API endpoint not found\"}''
      else ''{\"error\": \"API endpoint not found\"}'')"

lemma api_not_found:
  assumes "asks req m u" "\<not> routed m u"
  shows "handle_api_request os g req r w = reply r 404 ''Not Found'' (not_found_text u) w"
proof (cases "contains u ''/containers''")
  case True
  then show ?thesis using assms
    by (auto simp: handle_api_request_def asks_def routed_def not_found_text_def handle_containers_api_def Let_def)
next
  case False
  show ?thesis
  proof (cases "contains u ''/images''")
    case True
    then show ?thesis using assms False
      by (auto simp: handle_api_request_def asks_def routed_def not_found_text_def handle_images_api_def Let_def)
  next
    case F: False
    then show ?thesis using assms False by (simp add: handle_api_request_def asks_def not_found_text_def)
  qed
qed

text \<open>When the routed handler ends in a reply, that reply is what the client gets.\<close>

lemma serve_reply:
  assumes "good_words m u" "sized_garbage g" "alloc os (allocs w)"
    and "\<And>req. asks req m u \<Longrightarrow>
      handle_api_request os g req (g_response g) (w\<lparr>allocs := Suc (allocs w)\<rparr>) = reply (g_response g) code msg bdy w2"
    and "no_nul msg" "length msg \<le> 62" "no_nul bdy" "length bdy \<le> 8190"
  shows "handle_client os g sent (http_bytes m u beyond) w = Some (Some (wire code msg bdy), w2)"
proof -
  obtain req where req: "asks req m u" and run: "handle_client os g sent (http_bytes m u beyond) w =
       handle_api_request os g req (g_response g) (w\<lparr>allocs := Suc (allocs w)\<rparr>) \<bind> (\<lambda>(h, r, w2).
         (if h \<noteq> 0 then create_http_response r 500 ''Internal Server Error'' (Some ''Failed to handle request'') else Some r) \<bind>
         (\<lambda>r1. log_response r1 \<bind> (\<lambda>_. response_text r1 \<bind> (\<lambda>t. Some (Some t, w2)))))"
    by (rule handle_client_request [OF assms(1-3)])
  have s: "sized_response (g_response g)" using assms(2) by (simp add: sized_garbage_def)
  obtain r' where r': "reply (g_response g) code msg bdy w2 = Some (0, r', w2)" "answers r' code msg bdy"
    using reply_answers [OF s assms(5-8), of code w2] by blast
  show ?thesis using handle_client_answers [OF _ r'(2) run] assms(4) [OF req] r'(1) by simp
qed

text \<open>
  C34. Every request that the routing does not know is answered 404, whatever follows its first line, and
  changes nothing.
\<close>

theorem unrouted_not_found:
  assumes "good_words m u" "sized_garbage g" "alloc os (allocs w)" "\<not> routed m u"
  shows "handle_client os g sent (http_bytes m u beyond) w =
    Some (Some (wire 404 ''Not Found'' (not_found_text u)), w\<lparr>allocs := Suc (allocs w)\<rparr>)"
  by (rule serve_reply [OF assms(1-3) api_not_found [OF _ assms(4)]]) (simp_all add: not_found_text_def)

lemma create_needs_image:
  assumes "asks req m u"
  shows "handle_container_create os req r w = reply r 400 ''Bad Request'' ''{\"error\": \"Image name required\"}'' w"
proof -
  have n: "\<not> contains [] (quoted k)" for k by (simp add: contains_def quoted_def)
  show ?thesis
    using assms by (simp add: handle_container_create_def asks_def scan_if_def n cstr_zbuf Let_def)
qed

text \<open>
  No container is ever created through the API: since the body never arrives, every
  POST to \<open>/containers/create\<close> is answered 400 for the missing image name, whatever body was sent,
  and changes nothing.
\<close>

theorem create_always_refused:
  assumes "good_words ''POST'' u" "contains u ''/containers/create''" "sized_garbage g" "alloc os (allocs w)"
  shows "handle_client os g sent (http_bytes ''POST'' u beyond) w =
    Some (Some (wire 400 ''Bad Request'' ''{\"error\": \"Image name required\"}''), w\<lparr>allocs := Suc (allocs w)\<rparr>)"
proof (rule serve_reply [OF assms(1,3,4)])
  fix req assume req: "asks req ''POST'' u"
  have "sublist ''/containers'' ''/containers/create''" by (simp add: sublist_code)
  then have "contains u ''/containers''"
    using assms(2) unfolding contains_sublist by (rule sublist_order.order_trans)
  then show "handle_api_request os g req (g_response g) (w\<lparr>allocs := Suc (allocs w)\<rparr>) =
      reply (g_response g) 400 ''Bad Request'' ''{\"error\": \"Image name required\"}'' (w\<lparr>allocs := Suc (allocs w)\<rparr>)"
    using req assms(2) create_needs_image [OF req]
    by (simp add: handle_api_request_def handle_containers_api_def asks_def Let_def)
qed simp_all

text \<open>Memory that holds zero bytes everywhere.\<close>

definition zero_garbage :: garbage where
  "zero_garbage = \<lparr>g_request = zero_request, g_response = zero_response, g_container = zero_container,
     g_containers = (\<lambda>n. zero_container), g_id = (\<lambda>n. zbuf 64), g_images = (\<lambda>n. zero_image), g_layer = zero_layer\<rparr>"

lemma zero_garbage_sized [simp]: "sized_garbage zero_garbage"
  by (simp add: zero_garbage_def sized_garbage_def)

lemma calm_alloc [simp]: "alloc calm_os n"
  by (simp add: calm_os_def)

theorem unrouted_not_found_witness:
  "handle_client calm_os zero_garbage True (http_bytes ''GET'' ''/version'' []) empty_world =
    Some (Some (wire 404 ''Not Found'' ''{\"error\": \"API endpoint not found\"}''), empty_world\<lparr>allocs := 1\<rparr>)"
proof -
  have w: "good_words ''GET'' ''/version''" by (simp add: good_words_def token_def)
  have "\<not> contains ''/version'' ''/containers''" "\<not> contains ''/version'' ''/images''"
    by (simp_all add: contains_def)
  then have "\<not> routed ''GET'' ''/version''"
    and t: "not_found_text ''/version'' = ''{\"error\": \"API endpoint not found\"}''"
    by (simp_all add: routed_def not_found_text_def)
  then show ?thesis
    using unrouted_not_found [OF w zero_garbage_sized, of calm_os empty_world True "[]"]
    by (simp add: empty_world_def)
qed

theorem create_always_refused_witness:
  "handle_client calm_os zero_garbage True
     (http_bytes ''POST'' ''/containers/create'' (''Content-Length: 17'' @ [CR, LF, CR, LF] @ ''{\"Image\":\"nginx\"}'')) empty_world =
    Some (Some (wire 400 ''Bad Request'' ''{\"error\": \"Image name required\"}''), empty_world\<lparr>allocs := 1\<rparr>)"
proof -
  have w: "good_words ''POST'' ''/containers/create''" by (simp add: good_words_def token_def)
  have "contains ''/containers/create'' ''/containers/create''" by (simp add: contains_sublist)
  then show ?thesis
    using create_always_refused [OF w _ zero_garbage_sized, of calm_os empty_world True
        "''Content-Length: 17'' @ [CR, LF, CR, LF] @ ''{\"Image\":\"nginx\"}''"]
    by (simp add: empty_world_def)
qed

section \<open>Names in URLs, and the three container requests\<close>

lemma extract_id:
  assumes "CHR ''/'' \<notin> set i"
  shows "extract_container_id_from_url (''/containers/'' @ i @ CHR ''/'' # r) = (if length i < 256 then Some i else None)"
proof -
  have "strstr (''/containers/'' @ i @ CHR ''/'' # r) ''/containers/'' = Some (''/containers/'' @ i @ CHR ''/'' # r)"
    by (rule strstr_at_start) simp
  then show ?thesis
    using strchr_append [OF assms, of r]
    by (simp only: extract_container_id_from_url_def option.case Let_def) simp
qed

lemma extract_name:
  assumes "CHR ''/'' \<notin> set i"
  shows "extract_image_name_from_url (''/images/'' @ i) = (if length i < 256 then Some i else None)"
proof -
  have "strstr (''/images/'' @ i) ''/images/'' = Some (''/images/'' @ i)"
    by (rule strstr_at_start) simp
  moreover have "(case strchr i (CHR ''/'') of None \<Rightarrow> [] | Some e \<Rightarrow> e) = []"
    using assms by (simp add: iffD2 [OF strchr_None])
  ultimately show ?thesis
    by (simp only: extract_image_name_from_url_def option.case Let_def) simp
qed

text \<open>
  Building a URL around a name and extracting it again gives the name back, for container and image
  URLs, as long as the name has no slash and fits the 256-byte array; a longer name is refused rather than cut.
\<close>

theorem url_roundtrip:
  assumes "CHR ''/'' \<notin> set i"
  shows "extract_container_id_from_url (''/containers/'' @ i @ CHR ''/'' # r) = (if length i < 256 then Some i else None) \<and>
    extract_image_name_from_url (''/images/'' @ i) = (if length i < 256 then Some i else None)"
  using extract_id [OF assms] extract_name [OF assms] by blast

theorem url_roundtrip_witness:
  "extract_container_id_from_url ''/containers/web/stop'' = Some ''web'' \<and>
   extract_image_name_from_url ''/images/nginx:latest'' = Some ''nginx:latest''"
  using url_roundtrip [of "''web''" "''stop''"] url_roundtrip [of "''nginx:latest''" "[]"] by simp

lemma contains_slash:
  "contains (CHR ''/'' # r) (CHR ''/'' # k) \<longleftrightarrow> prefix k r \<or> contains r (CHR ''/'' # k)"
  "CHR ''/'' \<notin> set a \<Longrightarrow> contains (a @ CHR ''/'' # r) (CHR ''/'' # k) \<longleftrightarrow> contains (CHR ''/'' # r) (CHR ''/'' # k)"
  "CHR ''/'' \<notin> set a \<Longrightarrow> \<not> contains a (CHR ''/'' # k)"
  using sublist_delimited [of "CHR ''/''" a k r] sublist_absent [of "CHR ''/''" a k]
  by (auto simp: contains_sublist sublist_Cons_right)

lemma prefix_short: "CHR ''/'' \<notin> set k \<Longrightarrow> prefix k (i @ CHR ''/'' # r) \<longleftrightarrow> prefix k i"
proof (induction k arbitrary: i)
  case (Cons x k)
  then show ?case by (cases i) auto
qed simp

text \<open>A container name that the substring tests of the routing do not take for an action.\<close>

definition plain_id :: "string \<Rightarrow> bool" where
  "plain_id i \<longleftrightarrow> token i \<and> CHR ''/'' \<notin> set i \<and> length i < 256 \<and>
     \<not> prefix ''json'' i \<and> \<not> prefix ''start'' i \<and> \<not> prefix ''stop'' i"

definition container_url :: "string \<Rightarrow> string \<Rightarrow> string" where
  "container_url i a = ''/containers/'' @ i @ CHR ''/'' # a"

lemma plain_container_id: "plain_id (container_id_at t)"
proof -
  obtain r where r: "container_id_at t = ''cont_'' @ r" using id_props(3) [of t] by (auto simp: prefix_def)
  show ?thesis
    using id_props [of t] r by (auto simp: plain_id_def token_def clean_def)
qed

lemma container_url_contains:
  assumes "plain_id i" "a \<in> {''start'', ''stop'', ''remove''}"
  shows "contains (container_url i a) ''/containers''" "contains (container_url i a) ''/containers/''"
    "\<not> contains (container_url i a) ''/containers/json''"
    "contains (container_url i a) ''/start'' \<longleftrightarrow> a = ''start''"
    "contains (container_url i a) ''/stop'' \<longleftrightarrow> a = ''stop''"
    "contains (container_url i a) ''/remove'' \<longleftrightarrow> a = ''remove'' \<or> prefix ''remove'' i"
proof -
  have sl: "CHR ''/'' \<notin> set i" "CHR ''/'' \<notin> set a" "CHR ''/'' \<notin> set ''containers''"
    using assms by (auto simp: plain_id_def)
  have u: "container_url i a = CHR ''/'' # ''containers'' @ CHR ''/'' # i @ CHR ''/'' # a"
    by (simp add: container_url_def)
  have c: "contains (container_url i a) (CHR ''/'' # k) \<longleftrightarrow>
      prefix k (''containers'' @ CHR ''/'' # i @ CHR ''/'' # a) \<or> prefix k (i @ CHR ''/'' # a) \<or> prefix k a" for k
    unfolding u contains_slash(1) contains_slash(2) [OF sl(3)] contains_slash(2) [OF sl(1)]
    using contains_slash(3) [OF sl(2)] by simp
  have p: "prefix k (i @ CHR ''/'' # a) \<longleftrightarrow> prefix k i" if "CHR ''/'' \<notin> set k" for k
    using prefix_short [OF that] .
  show "contains (container_url i a) ''/containers''" "contains (container_url i a) ''/containers/''"
    by (simp_all add: c)
  have "prefix (''containers'' @ CHR ''/'' # ''json'') (i @ CHR ''/'' # a) \<longleftrightarrow> ''containers'' = i \<and> prefix ''json'' a"
    by (rule prefix_split [OF sl(3,1)])
  moreover have "\<not> prefix ''json'' a" "\<not> prefix ''containers/json'' a" using assms(2) by auto
  ultimately show "\<not> contains (container_url i a) ''/containers/json''"
    using assms(1) p [of "''json''"] unfolding c by (simp add: plain_id_def)
  show "contains (container_url i a) ''/start'' \<longleftrightarrow> a = ''start''"
    "contains (container_url i a) ''/stop'' \<longleftrightarrow> a = ''stop''"
    "contains (container_url i a) ''/remove'' \<longleftrightarrow> a = ''remove'' \<or> prefix ''remove'' i"
    using assms unfolding c by (auto simp: p plain_id_def)
qed

text \<open>The operation behind each action word of a container URL, and its failure message.\<close>

definition action_of ::
  "string \<Rightarrow> os \<Rightarrow> container_info \<Rightarrow> string \<Rightarrow> world \<Rightarrow> (int \<times> world) option" where
  "action_of a = (if a = ''start'' then start_container else if a = ''stop'' then stop_container else remove_container)"

definition action_failure :: "string \<Rightarrow> string" where
  "action_failure a = ''{\"error\": \"Failed to '' @ a @ '' container\"}''"

lemma action_dispatch:
  assumes "plain_id i" "a \<in> {''start'', ''stop'', ''remove''}"
    and "asks req ''GET'' (container_url i a)" "action_of a os (g_container g) i w = Some (e, w2)"
  shows "handle_api_request os g req r w =
    (if e = 0 then reply r 204 ''No Content'' [] w2 else reply r 500 ''Internal Server Error'' (action_failure a) w2)"
proof -
  have u: "cstr (url req) = Some (container_url i a)" using assms(3) by (simp add: asks_def)
  have x: "extract_container_id_from_url (container_url i a) = Some i"
    using assms(1) extract_id [of i a] by (simp add: container_url_def plain_id_def)
  note c = container_url_contains [OF assms(1,2)]
  have h: "handle_api_request os g req r w =
      (if contains (container_url i a) ''/start'' then handle_container_start os (g_container g) req r w
       else if contains (container_url i a) ''/stop'' then handle_container_stop os (g_container g) req r w
       else if contains (container_url i a) ''/remove'' then handle_container_remove os (g_container g) req r w
       else reply r 404 ''Not Found'' ''{\"error\": \"Container API endpoint not found\"}'' w)"
    using assms(3) c(1-3) by (simp add: handle_api_request_def handle_containers_api_def asks_def Let_def)
  consider "a = ''start''" | "a = ''stop''" | "a = ''remove''" using assms(2) by auto
  then show ?thesis
  proof cases
    case 1
    then show ?thesis
      using start_endpoint.runs [OF u x, of os "g_container g" w e w2 r] assms(4) c(4) unfolding h
      by (simp add: action_of_def action_failure_def)
  next
    case 2
    then show ?thesis
      using stop_endpoint.runs [OF u x, of os "g_container g" w e w2 r] assms(4) c(4,5) unfolding h
      by (simp add: action_of_def action_failure_def)
  next
    case 3
    then show ?thesis
      using remove_endpoint.runs [OF u x, of os "g_container g" w e w2 r] assms(4) c(4-6) unfolding h
      by (simp add: action_of_def action_failure_def)
  qed
qed

text \<open>
  C10. A container action over HTTP: a GET of \<open>/containers/ID/start\<close>, \<open>stop\<close> or
  \<open>remove\<close> runs exactly that operation on exactly that container, and the status tells its
  result: 204 for 0, 500 with the action's message otherwise. This holds for every identifier the program
  generates.
\<close>

theorem container_action_answer:
  assumes "plain_id i" "a \<in> {''start'', ''stop'', ''remove''}" "sized_garbage g" "alloc os (allocs w)"
    and "action_of a os (g_container g) i (w\<lparr>allocs := Suc (allocs w)\<rparr>) = Some (e, w2)"
  shows "handle_client os g sent (http_bytes ''GET'' (container_url i a) beyond) w =
    Some (Some (if e = 0 then wire 204 ''No Content'' [] else wire 500 ''Internal Server Error'' (action_failure a)), w2)"
proof -
  have g: "good_words ''GET'' (container_url i a)"
    using assms(1,2) by (auto simp: good_words_def token_def plain_id_def container_url_def)
  show ?thesis
  proof (cases "e = 0")
    case True
    have "handle_client os g sent (http_bytes ''GET'' (container_url i a) beyond) w = Some (Some (wire 204 ''No Content'' []), w2)"
      by (rule serve_reply [OF g assms(3,4)]) (use action_dispatch [OF assms(1,2) _ assms(5)] True in auto)
    then show ?thesis using True by simp
  next
    case False
    have "handle_client os g sent (http_bytes ''GET'' (container_url i a) beyond) w =
        Some (Some (wire 500 ''Internal Server Error'' (action_failure a)), w2)"
      by (rule serve_reply [OF g assms(3,4)])
        (use action_dispatch [OF assms(1,2) _ assms(5)] False assms(2) in \<open>auto simp: action_failure_def\<close>)
    then show ?thesis using False by simp
  qed
qed

theorem container_action_answer_witness:
  "handle_client calm_os zero_garbage True (http_bytes ''GET'' (container_url web ''stop'') []) empty_world =
    Some (Some (wire 500 ''Internal Server Error'' (action_failure ''stop'')), empty_world\<lparr>allocs := 1\<rparr>)"
proof -
  have "\<not> container_exists web (empty_world\<lparr>allocs := 1\<rparr>)" unfolding web_def by code_simp
  then have "action_of ''stop'' calm_os (g_container zero_garbage) web (empty_world\<lparr>allocs := Suc (allocs empty_world)\<rparr>) =
      Some (- 1, empty_world\<lparr>allocs := 1\<rparr>)"
    by (simp add: action_of_def stop_refused empty_world_def)
  then show ?thesis
    using container_action_answer [of web "''stop''" zero_garbage calm_os empty_world] plain_container_id [of 0]
    by (simp add: web_def)
qed

section \<open>The text of a listing\<close>

text \<open>The entries with commas between them.\<close>

fun commas :: "string list \<Rightarrow> string" where
  "commas [] = []"
| "commas [p] = p"
| "commas (p # q # ps) = p @ '','' @ commas (q # ps)"

lemma strcat_exact:
  assumes "cstr b = Some d" "no_nul s"
  shows "if length (d @ s) < length b then \<exists>b'. strcat b s = Some b' \<and> cstr b' = Some (d @ s) \<and> length b' = length b
    else strcat b s = None"
proof (cases "length (d @ s) < length b")
  case True
  then obtain b' where b: "strcat b s = Some b'" using assms(1) by (simp add: strcat_def strcpy_def)
  then show ?thesis using True cstr_strcat [OF b assms] length_strcat [OF b] by auto
next
  case False
  then show ?thesis using assms(1) by (simp add: strcat_def strcpy_def)
qed

lemma join_entries_exact:
  assumes "cstr b = Some d" "\<forall>x \<in> set xs. json x = Some (f x) \<and> no_nul (f x)"
  shows "if length (d @ commas (map f xs)) < length b
    then \<exists>b'. join_entries json xs b = Some b' \<and> cstr b' = Some (d @ commas (map f xs)) \<and> length b' = length b
    else join_entries json xs b = None"
  using assms
proof (induction xs arbitrary: b d)
  case Nil
  then show ?case using cstr_length [of b d] by simp
next
  case (Cons x xs)
  have x: "json x = Some (f x)" "no_nul (f x)" using Cons.prems(2) by simp_all
  note s = strcat_exact [OF Cons.prems(1) x(2)]
  show ?case
  proof (cases "length (d @ f x) < length b")
    case False
    then have "\<not> length (d @ commas (map f (x # xs))) < length b" by (cases xs) auto
    then show ?thesis using s False x by simp
  next
    case True
    then obtain b1 where b1: "strcat b (f x) = Some b1" "cstr b1 = Some (d @ f x)" "length b1 = length b" using s by auto
    show ?thesis
    proof (cases xs)
      case Nil
      then show ?thesis using True b1 x by simp
    next
      case (Cons y ys)
      have nn: "no_nul '',''" by simp
      note s2 = strcat_exact [OF b1(2) nn]
      show ?thesis
      proof (cases "length ((d @ f x) @ '','') < length b")
        case False
        then have "strcat b1 '','' = None" "\<not> length (d @ commas (map f (x # xs))) < length b"
          using s2 b1(3) Cons by auto
        then show ?thesis using b1(1) x Cons by simp
      next
        case True
        then obtain b2 where b2: "strcat b1 '','' = Some b2" "cstr b2 = Some ((d @ f x) @ '','')" "length b2 = length b"
          using s2 b1(3) by auto
        have e: "((d @ f x) @ '','') @ commas (map f xs) = d @ commas (map f (x # xs))" using Cons by simp
        have j: "join_entries json (x # xs) b = join_entries json xs b2" using b1(1) b2(1) x Cons by simp
        have pr: "\<forall>x \<in> set xs. json x = Some (f x) \<and> no_nul (f x)" using Cons.prems(2) by simp
        show ?thesis using Cons.IH [OF b2(2) pr] unfolding e j b2(3) .
      qed
    qed
  qed
qed

lemma json_list_eq:
  assumes "\<forall>x \<in> set xs. json x = Some (f x) \<and> no_nul (f x)"
  shows "json_list json xs =
    (if length (''['' @ commas (map f xs) @ '']'') < 4096 then Some (''['' @ commas (map f xs) @ '']'') else None)"
proof -
  obtain b0 where b0: "strcpy (zbuf 4096) ''['' = Some b0" by (simp add: strcpy_def)
  have c0: "cstr b0 = Some ''[''" "length b0 = 4096"
    using cstr_strcpy [OF b0] length_strcpy [OF b0] by simp_all
  note j = join_entries_exact [OF c0(1) assms]
  show ?thesis
  proof (cases "length (''['' @ commas (map f xs)) < 4096")
    case False
    then show ?thesis using j c0(2) b0 by (simp add: json_list_def)
  next
    case True
    then obtain b1 where b1: "join_entries json xs b0 = Some b1" "cstr b1 = Some (''['' @ commas (map f xs))" "length b1 = 4096"
      using j c0(2) by auto
    have nn: "no_nul '']''" by simp
    show ?thesis using strcat_exact [OF b1(2) nn] b0 b1 by (auto simp: json_list_def split: if_split_asm)
  qed
qed

text \<open>
  C18. The listing built with \<open>strcat\<close> in a 4096-byte array is the JSON array of its entries, in
  order and separated by commas, when that text with its terminator fits; otherwise the array overflows and
  the run is undefined. Nothing is ever cut off silently.
\<close>

theorem json_list_exact:
  assumes "\<forall>x \<in> set xs. json x = Some (f x) \<and> no_nul (f x)"
  shows "json_list json xs =
    (if length (''['' @ commas (map f xs) @ '']'') < 4096 then Some (''['' @ commas (map f xs) @ '']'') else None)"
  using assms by (rule json_list_eq)

theorem json_list_exact_witness:
  "json_list image_json [zero_image, zero_image] =
    Some ''[{\"Id\":\"\",\"RepoTags\":[\":\"],\"Created\":,\"Size\":},{\"Id\":\"\",\"RepoTags\":[\":\"],\"Created\":,\"Size\":}]''"
proof -
  let ?e = "''{\"Id\":\"\",\"RepoTags\":[\":\"],\"Created\":,\"Size\":}''"
  have "image_json zero_image = Some ?e"
    by (simp add: image_json_def zero_image_def cstr_zbuf snprintf_def)
  then show ?thesis using json_list_exact [of "[zero_image, zero_image]" image_json "\<lambda>x. ?e"] by simp
qed

section \<open>The image requests\<close>

definition image_word :: "string \<Rightarrow> bool" where
  "image_word i \<longleftrightarrow> no_nul i \<and> CHR '' '' \<notin> set i \<and> CR \<notin> set i \<and> LF \<notin> set i \<and> CHR ''/'' \<notin> set i \<and>
     length i < 256 \<and> \<not> prefix ''containers'' i"

lemma images_url:
  assumes "image_word i"
  shows "\<not> contains (''/images/'' @ i) ''/containers''" "contains (''/images/'' @ i) ''/images''"
    "contains (''/images/'' @ i) ''/images/''" "good_words ''DELETE'' (''/images/'' @ i)" "good_words ''GET'' (''/images/'' @ i)"
proof -
  have sl: "CHR ''/'' \<notin> set i" "CHR ''/'' \<notin> set ''images''" using assms by (auto simp: image_word_def)
  have u: "''/images/'' @ i = CHR ''/'' # ''images'' @ CHR ''/'' # i" by simp
  have c: "contains (''/images/'' @ i) (CHR ''/'' # k) \<longleftrightarrow> prefix k (''images'' @ CHR ''/'' # i) \<or> prefix k i" for k
    unfolding u contains_slash(1) contains_slash(2) [OF sl(2)] using contains_slash(3) [OF sl(1)] by simp
  show "\<not> contains (''/images/'' @ i) ''/containers''" "contains (''/images/'' @ i) ''/images''"
    "contains (''/images/'' @ i) ''/images/''"
    using assms unfolding c by (simp_all add: image_word_def)
  show "good_words ''DELETE'' (''/images/'' @ i)" "good_words ''GET'' (''/images/'' @ i)"
    using assms by (simp_all add: good_words_def token_def image_word_def)
qed

lemma image_remove_run:
  assumes "image_word i" "sized_garbage g" "alloc os (allocs w)" "remove_image os i (w\<lparr>allocs := Suc (allocs w)\<rparr>) = (e, w2)"
  shows "handle_client os g sent (http_bytes ''DELETE'' (''/images/'' @ i) beyond) w =
    Some (Some (if e = 0 then wire 200 ''OK'' ''{\"message\": \"Image removed successfully\"}''
                else wire 500 ''Internal Server Error'' ''{\"error\": \"Failed to remove image\"}''), w2)"
proof -
  note u = images_url [OF assms(1)]
  have x: "extract_image_name_from_url (''/images/'' @ i) = Some i"
    using extract_name [of i] assms(1) by (simp add: image_word_def)
  have h: "handle_api_request os g req r (w\<lparr>allocs := Suc (allocs w)\<rparr>) =
      (if e = 0 then reply r 200 ''OK'' ''{\"message\": \"Image removed successfully\"}'' w2
       else reply r 500 ''Internal Server Error'' ''{\"error\": \"Failed to remove image\"}'' w2)"
    if "asks req ''DELETE'' (''/images/'' @ i)" for req r
    using that u(1-3) x assms(4)
    by (simp add: handle_api_request_def handle_images_api_def handle_image_remove_def asks_def Let_def del: append.simps)
  show ?thesis
  proof (cases "e = 0")
    case True
    have "handle_client os g sent (http_bytes ''DELETE'' (''/images/'' @ i) beyond) w =
        Some (Some (wire 200 ''OK'' ''{\"message\": \"Image removed successfully\"}''), w2)"
      by (rule serve_reply [OF u(4) assms(2,3)]) (use h True in auto)
    then show ?thesis using True by simp
  next
    case False
    have "handle_client os g sent (http_bytes ''DELETE'' (''/images/'' @ i) beyond) w =
        Some (Some (wire 500 ''Internal Server Error'' ''{\"error\": \"Failed to remove image\"}''), w2)"
      by (rule serve_reply [OF u(4) assms(2,3)]) (use h False in auto)
    then show ?thesis using False by simp
  qed
qed

lemma list_images_run:
  assumes "\<forall>q. prefix (METADATA_DIR @ ''//tmp'') q \<longrightarrow> lookup w q = None" "\<forall>n. alloc os n"
    and "lookup w METADATA_DIR = Some Dir" "\<not> deny_read os METADATA_DIR"
  obtains k where "list_images os gs w = Some (Some [], w\<lparr>allocs := k\<rparr>)"
proof -
  have e: "\<forall>q. prefix (METADATA_DIR @ ''//tmp'') q \<longrightarrow> lookup (w\<lparr>allocs := a\<rparr>) q = None" for a
    using assms(1) by (simp add: fs_simps)
  obtain names where d: "read_dir os METADATA_DIR (w\<lparr>allocs := Suc (allocs w)\<rparr>) = Some names"
    using assms(3,4) by (simp add: read_dir_def fs_simps)
  have l: "list_images_loop os gs (w\<lparr>allocs := Suc (Suc (allocs w))\<rparr>) names [] = Some []"
    by (rule list_images_loop_empty [OF e])
  show thesis
    using that [of "Suc (allocs w)"] that [of "Suc (Suc (allocs w))"] assms(2) d l
    by (cases "length (filter (\<lambda>e. contains e ''.json'') names) = 0") (simp_all add: list_images_def malloc_def)
qed

lemma images_list_run:
  assumes "sized_garbage g" "\<forall>n. alloc os n" "lookup w METADATA_DIR = Some Dir" "\<not> deny_read os METADATA_DIR"
    and "\<forall>q. prefix (METADATA_DIR @ ''//tmp'') q \<longrightarrow> lookup w q = None"
  obtains k where "handle_client os g sent (http_bytes ''GET'' ''/images/json'' beyond) w =
    Some (Some (wire 200 ''OK'' ''[]''), w\<lparr>allocs := k\<rparr>)"
proof -
  let ?w = "w\<lparr>allocs := Suc (allocs w)\<rparr>"
  have iw: "image_word ''json''" by (simp add: image_word_def)
  note u = images_url [OF iw, simplified]
  have c: "contains ''/images/json'' ''/images/json''" by (simp add: contains_sublist)
  have e: "\<forall>q. prefix (METADATA_DIR @ ''//tmp'') q \<longrightarrow> lookup ?w q = None" "lookup ?w METADATA_DIR = Some Dir"
    using assms(3,5) by (simp_all add: fs_simps)
  obtain k where k: "list_images os (g_images g) ?w = Some (Some [], ?w\<lparr>allocs := k\<rparr>)"
    using list_images_run [OF e(1) assms(2) e(2) assms(4)] by blast
  have j: "json_list image_json [] = Some ''[]''" using json_list_eq [of "[]" image_json "\<lambda>x. []"] by simp
  have h: "handle_api_request os g req r ?w = reply r 200 ''OK'' ''[]'' (?w\<lparr>allocs := k\<rparr>)"
    if "asks req ''GET'' ''/images/json''" for req r
    using that u(1-3) c k j
    by (simp add: handle_api_request_def handle_images_api_def handle_image_list_def asks_def Let_def)
  have "handle_client os g sent (http_bytes ''GET'' ''/images/json'' beyond) w =
      Some (Some (wire 200 ''OK'' ''[]''), ?w\<lparr>allocs := k\<rparr>)"
    by (rule serve_reply [OF u(5) assms(1)]) (use h assms(2) in auto)
  then show thesis using that by simp
qed

end
