(* ===== verification/Effects.thy ===== *)
theory Effects imports Http begin

text \<open>
  What the operations of the daemon can do to its world, once for every relation between worlds that
  the primitive steps respect. The first contract covers the operations that only touch files, the clock and
  the allocator; the second adds \<open>clone\<close>, \<open>kill\<close> and \<open>waitpid\<close> and then covers the whole
  server. The interpretations say which operations leave the processes alone, and what never shrinks.
\<close>

section \<open>Operations on files, clock and allocator\<close>

locale file_steps =
  fixes os :: os and R :: "world \<Rightarrow> world \<Rightarrow> bool"
  assumes R_refl: "R w w" and R_trans: "R u v \<Longrightarrow> R v w \<Longrightarrow> R u w"
    and R_files: "R w (w\<lparr>files := f\<rparr>)" and R_ticks: "R w (w\<lparr>ticks := Suc (ticks w)\<rparr>)"
    and R_allocs: "R w (w\<lparr>allocs := Suc (allocs w)\<rparr>)"
begin

lemma upd:
  "R u w \<Longrightarrow> R u (w\<lparr>files := f\<rparr>)" "R u w \<Longrightarrow> R u (w\<lparr>ticks := Suc (ticks w)\<rparr>)"
  "R u w \<Longrightarrow> R u (w\<lparr>allocs := Suc (allocs w)\<rparr>)" "R u w \<Longrightarrow> R u (put p n w)" "R u w \<Longrightarrow> R u (del p w)"
  by (auto simp: put_def del_def intro: R_trans R_files R_ticks R_allocs)

lemma calls:
  "mkdir os p w = (e, w') \<Longrightarrow> R u w \<Longrightarrow> R u w'"
  "rmdir os p w = (e, w') \<Longrightarrow> R u w \<Longrightarrow> R u w'"
  "unlink os p w = (e, w') \<Longrightarrow> R u w \<Longrightarrow> R u w'"
  "write_file os p s w = (b, w') \<Longrightarrow> R u w \<Longrightarrow> R u w'"
  "append_file os p s w = (b, w') \<Longrightarrow> R u w \<Longrightarrow> R u w'"
  "time_now os w = (t, w') \<Longrightarrow> R u w \<Longrightarrow> R u w'"
  "malloc os w = (b, w') \<Longrightarrow> R u w \<Longrightarrow> R u w'"
  "system os cmd w = (r, w') \<Longrightarrow> R u w \<Longrightarrow> R u w'"
  "strdup os s w = (q, w') \<Longrightarrow> R u w \<Longrightarrow> R u w'"
  by (auto simp: mkdir_def rmdir_def unlink_def write_file_def append_file_def time_now_def malloc_def system_def
      strdup_def Let_def upd split: if_split_asm option.splits node.splits prod.splits)

lemma calls_snd:
  "R u w \<Longrightarrow> R u (snd (mkdir os p w))" "R u w \<Longrightarrow> R u (snd (rmdir os p w))"
  "R u w \<Longrightarrow> R u (snd (unlink os p w))" "R u w \<Longrightarrow> R u (snd (write_file os p s w))"
  "R u w \<Longrightarrow> R u (snd (append_file os p s w))" "R u w \<Longrightarrow> R u (snd (time_now os w))"
  "R u w \<Longrightarrow> R u (snd (malloc os w))" "R u w \<Longrightarrow> R u (snd (system os cmd w))"
  by (metis calls prod.collapse)+

lemma rmdir_all_R: "R u w \<Longrightarrow> R u (rmdir_all os ds w)"
  by (induction ds arbitrary: w) (auto intro: calls_snd)

lemma write_metadata_R: "write_container_metadata os c w = Some (r, w') \<Longrightarrow> R u w \<Longrightarrow> R u w'"
  by (auto simp: write_container_metadata_def bind_Some_iff intro: calls_snd split: if_split_asm)

lemma generate_R: "generate_container_id os w = (i, w') \<Longrightarrow> R u w \<Longrightarrow> R u w'"
  by (auto simp: generate_container_id_def time_now_def intro: upd)

lemma run_R: "run_ok m (\<lambda>p. R u (snd p)) \<Longrightarrow> m = Some (r, w') \<Longrightarrow> R u w'"
  by (simp add: run_ok_def)

lemma create_container_R:
  assumes "R u w" "create_container os name img command wd env pm vm i t d w = Some (r, w')"
  shows "R u w'"
proof (rule run_R [OF _ assms(2)])
  show "run_ok (create_container os name img command wd env pm vm i t d w) (\<lambda>p. R u (snd p))"
    unfolding create_container_def Let_def run_simps snd_conv
    by (safe; fast intro: assms(1) calls write_metadata_R generate_R)
qed

lemmas container_steps = calls calls_snd write_metadata_R generate_R create_container_R

lemma remove_container_R:
  assumes "remove_container os g cid w = Some (r, w')" "R u w"
  shows "R u w'"
proof (rule run_R [OF _ assms(1)])
  show "run_ok (remove_container os g cid w) (\<lambda>p. R u (snd p))"
    unfolding remove_container_def Let_def run_simps snd_conv by (safe; fast intro: assms(2) calls)
qed

lemma container_dirs_R: "R u w \<Longrightarrow> R u (snd (container_dirs_loop os ds i n w))"
proof (induction "length ds - i" arbitrary: i n w rule: less_induct)
  case less
  obtain e w1 where m: "mkdir os (ds ! i) w = (e, w1)" by fastforce
  have "R u w1" by (rule calls(1) [OF m less.prems])
  then show ?case
    using less.hyps [of "i + 1" w1 "n + 1"] less.prems m
    by (simp add: container_dirs_loop.simps [of os ds i n w] rmdir_all_R Let_def)
qed

lemma image_dirs_R: "R u w \<Longrightarrow> R u (snd (image_dirs_loop os ds i n w))"
proof (induction "length ds - i" arbitrary: i n w rule: less_induct)
  case less
  obtain e w1 where m: "mkdir os (ds ! i) w = (e, w1)" by fastforce
  have "R u w1" by (rule calls(1) [OF m less.prems])
  then show ?case
    using less.hyps [of "i + 1 + 1" w1 n] less.prems m
    by (simp add: image_dirs_loop.simps [of os ds i n w] rmdir_all_R Let_def)
qed

lemma init_R: "R u w \<Longrightarrow> R u (snd (init_container_system os w))" "R u w \<Longrightarrow> R u (snd (init_image_system os w))"
  using container_dirs_R image_dirs_R
  by (simp_all add: init_container_system_def create_container_directories_def init_image_system_def
      create_directory_structure_def case_prod_unfold Let_def)

lemma cleanup_R: "R u w \<Longrightarrow> R u (snd (cleanup_container_system os w))" "R u w \<Longrightarrow> R u (snd (cleanup_image_system os w))"
  by (auto simp: cleanup_container_system_def cleanup_image_system_def Let_def intro: calls split: prod.split)

lemma remove_image_R: "remove_image os i w = (r, w') \<Longrightarrow> R u w \<Longrightarrow> R u w'"
  by (auto simp: remove_image_def Let_def intro: calls split: prod.splits if_split_asm)

lemma list_images_R:
  assumes "list_images os gs w = Some (r, w')" "R u w"
  shows "R u w'"
proof (rule run_R [OF _ assms(1)])
  show "run_ok (list_images os gs w) (\<lambda>p. R u (snd p))"
    unfolding list_images_def Let_def run_simps snd_conv by (safe; fast intro: assms(2) calls)
qed

lemma create_layer_R: "create_layer os p c d w = (r, w') \<Longrightarrow> R u w \<Longrightarrow> R u w'"
proof -
  assume a: "create_layer os p c d w = (r, w')" "R u w"
  have "R u (snd (create_layer os p c d w))"
    using a(2) by (auto simp: create_layer_def generate_layer_id_def Let_def case_prod_unfold intro!: calls_snd split: option.split)
  then show ?thesis using a(1) by simp
qed

lemma write_image_R: "write_image_metadata os im w = Some (r, w') \<Longrightarrow> R u w \<Longrightarrow> R u w'"
  by (auto simp: write_image_metadata_def bind_Some_iff Let_def intro: calls_snd split: if_split_asm)

lemma generate_image_R:
  "generate_image_id os w = (i, w') \<Longrightarrow> R u w \<Longrightarrow> R u w'" "generate_layer_id os w = (i, w') \<Longrightarrow> R u w \<Longrightarrow> R u w'"
  by (auto simp: generate_image_id_def generate_layer_id_def time_now_def intro: upd)

lemma create_image_R:
  assumes "create_image os g name tag df ctx w = Some (r, w')" "R u w"
  shows "R u w'"
proof (rule run_R [OF _ assms(1)])
  show "run_ok (create_image os g name tag df ctx w) (\<lambda>p. R u (snd p))"
    unfolding create_image_def Let_def run_simps snd_conv
    by (safe; fast intro: assms(2) calls create_layer_R write_image_R generate_image_R)
qed

subsection \<open>Dockerfiles\<close>

lemma push_arg_R: "push_arg os n m xs a w = Some (r, w') \<Longrightarrow> R u w \<Longrightarrow> R u w'"
  by (auto simp: push_arg_def Let_def intro: calls split: prod.splits if_split_asm)

lemma apply_instruction_R: "apply_instruction os ty args d w = Some (r, w') \<Longrightarrow> R u w \<Longrightarrow> R u w'"
  by (cases ty) (auto simp: bind_Some_iff intro: push_arg_R)

lemma parse_instruction_R:
  assumes "parse_instruction os n t d w = Some (r, w')" "R u w"
  shows "R u w'"
proof (rule run_R [OF _ assms(1)])
  obtain ok w1 where m: "malloc os w = (ok, w1)" by fastforce
  have R1: "R u w1" by (rule calls(7) [OF m assms(2)])
  show "run_ok (parse_instruction os n t d w) (\<lambda>p. R u (snd p))"
    unfolding parse_instruction_def Let_def m
    using R1 assms(2) by (auto simp: run_simps intro: apply_instruction_R)
qed

lemma parse_lines_R: "R u w \<Longrightarrow> run_ok (parse_lines os n c ls d w) (\<lambda>p. R u (snd p))"
proof (induction ls arbitrary: n c d w)
  case Nil
  then show ?case by (simp add: run_simps)
next
  case (Cons l ls)
  then show ?case
    by (auto simp: run_simps Let_def dest: parse_instruction_R split del: if_split)
qed

lemma parse_dockerfile_R:
  assumes "parse_dockerfile os p w = Some (r, w')" "R u w"
  shows "R u w'"
proof (rule run_R [OF _ assms(1)])
  show "run_ok (parse_dockerfile os p w) (\<lambda>p. R u (snd p))"
    unfolding parse_dockerfile_def Let_def run_simps snd_conv
    by (safe; fast intro: assms(2) calls parse_lines_R)
qed

lemma copy_files_R: "copy_files os' a l c w = Some (r, w') \<Longrightarrow> os' = os \<Longrightarrow> R u w \<Longrightarrow> R u w'"
proof (induction os' a l c w rule: copy_files.induct)
  case (1 os' a l c w)
  obtain q w1 where q: "strdup os a w = (q, w1)" by fastforce
  have R1: "R u w1" by (rule calls(9) [OF q "1.prems"(3)])
  show ?case
    using 1 q R1
    by (auto simp: copy_files.simps [of os a l c w] split: option.splits prod.splits)
qed

lemma layer_files_R:
  "run_command os a l w = (r, w') \<Longrightarrow> R u w \<Longrightarrow> R u w'"
  "create_working_directory os a l w = (r, w') \<Longrightarrow> R u w \<Longrightarrow> R u w'"
  "set_environment_variable os a l w = (r, w') \<Longrightarrow> R u w \<Longrightarrow> R u w'"
  "set_user os a l w = (r, w') \<Longrightarrow> R u w \<Longrightarrow> R u w'"
  "expose_port os a l w = (r, w') \<Longrightarrow> R u w \<Longrightarrow> R u w'"
  "create_volume os a l w = (r, w') \<Longrightarrow> R u w \<Longrightarrow> R u w'"
  "set_entrypoint os a l w = (r, w') \<Longrightarrow> R u w \<Longrightarrow> R u w'"
  "set_cmd os a l w = (r, w') \<Longrightarrow> R u w \<Longrightarrow> R u w'"
  "set_label os a l w = (r, w') \<Longrightarrow> R u w \<Longrightarrow> R u w'"
  by (auto simp: run_command_def create_working_directory_def set_environment_variable_def set_user_def expose_port_def
        create_volume_def set_entrypoint_def set_cmd_def set_label_def Let_def intro: calls split: prod.splits if_split_asm)

lemma execute_R:
  assumes "execute_instruction os i c l w = Some (r, w')" "R u w"
  shows "R u w'"
proof -
  obtain a where a: "cstr (iargs i) = Some a"
    using assms(1) by (cases "cstr (iargs i)") (auto simp: execute_instruction_def)
  show ?thesis
    using assms a by (cases "itype i") (auto simp: execute_instruction_def add_files_def intro: layer_files_R copy_files_R)
qed

lemma execute_all_R: "execute_all os is c l w = Some (r, w') \<Longrightarrow> R u w \<Longrightarrow> R u w'"
  by (induction "is" arbitrary: w) (auto simp: bind_Some_iff split: if_split_asm dest: execute_R)

lemma build_R:
  assumes "build_image_from_dockerfile os g d name tag ctx w = Some (r, w')" "R u w"
  shows "R u w'"
proof (rule run_R [OF _ assms(1)])
  show "run_ok (build_image_from_dockerfile os g d name tag ctx w) (\<lambda>p. R u (snd p))"
    unfolding build_image_from_dockerfile_def Let_def run_simps snd_conv
    by (safe; fast intro: assms(2) calls execute_all_R create_image_R)
qed

subsection \<open>Requests\<close>

lemma reply_R: "reply r code msg bdy w = Some (h, r', w') \<Longrightarrow> R u w \<Longrightarrow> R u w'"
  by (auto simp: reply_def bind_Some_iff)

lemma parse_request_R:
  assumes "parse_http_request os s g w = Some (p, req, w')" "R u w"
  shows "R u w'"
proof -
  have "run_ok (parse_http_request os s g w) (\<lambda>p. R u (snd (snd p)))"
    unfolding parse_http_request_def Let_def run_simps snd_conv by (safe; fast intro: assms(2) calls)
  then show ?thesis using assms(1) by (simp add: run_ok_def)
qed

lemma run_R3: "run_ok m (\<lambda>p. R u (snd (snd p))) \<Longrightarrow> m = Some (h, r, w') \<Longrightarrow> R u w'"
  by (simp add: run_ok_def)

lemma run_reply: "R u w \<Longrightarrow> run_ok (reply r code msg bdy w) (\<lambda>p. R u (snd (snd p)))"
  by (auto simp: run_ok_def intro: reply_R)

lemma container_create_R:
  assumes "R u w"
  shows "run_ok (handle_container_create os req r w) (\<lambda>p. R u (snd (snd p)))"
  unfolding handle_container_create_def Let_def run_simps
  by (safe; fast intro: assms run_reply create_container_R)

lemma container_remove_R:
  assumes "R u w"
  shows "run_ok (handle_container_remove os g req r w) (\<lambda>p. R u (snd (snd p)))"
  unfolding handle_container_remove_def Let_def run_simps
  by (safe; fast intro: assms run_reply remove_container_R)

lemma image_list_R:
  assumes "R u w"
  shows "run_ok (handle_image_list os gs r w) (\<lambda>p. R u (snd (snd p)))"
  unfolding handle_image_list_def Let_def run_simps
  by (safe; fast intro: assms run_reply list_images_R)

lemma image_build_R:
  assumes "R u w"
  shows "run_ok (handle_image_build os g req r w) (\<lambda>p. R u (snd (snd p)))"
  unfolding handle_image_build_def Let_def run_simps
  by (safe; fast intro: assms run_reply parse_dockerfile_R build_R)

lemma image_remove_R:
  assumes "R u w"
  shows "run_ok (handle_image_remove os req r w) (\<lambda>p. R u (snd (snd p)))"
  unfolding handle_image_remove_def Let_def run_simps
  by (safe; fast intro: assms run_reply remove_image_R)

lemma images_api_R:
  assumes "R u w"
  shows "run_ok (handle_images_api os g req r w) (\<lambda>p. R u (snd (snd p)))"
  unfolding handle_images_api_def Let_def run_simps
  using assms by (simp add: run_reply image_list_R image_build_R image_remove_R)

text \<open>Only a GET under \<open>/containers\<close> can start or stop anything.\<close>

lemma quiet_api_R:
  assumes "R u w" "cstr (rmethod req) \<noteq> Some ''GET'' \<or> (\<exists>v. cstr (url req) = Some v \<and> \<not> contains v ''/containers/'')"
  shows "run_ok (handle_api_request os g req r w) (\<lambda>p. R u (snd (snd p)))"
  unfolding handle_api_request_def handle_containers_api_def Let_def run_simps
  using assms by (auto simp: run_reply container_create_R images_api_R)

end

section \<open>Operations on processes\<close>

locale process_steps = file_steps +
  assumes R_clone: "R w (snd (clone os w))"
    and R_kill: "kill os p s w = Some (r, w') \<Longrightarrow> R w w'"
    and R_wait: "waitpid os p w = Some (st, w') \<Longrightarrow> R w w'"
begin

lemma process_calls:
  "clone os w = (c, w') \<Longrightarrow> R u w \<Longrightarrow> R u w'"
  "kill os p s w = Some (r, w') \<Longrightarrow> R u w \<Longrightarrow> R u w'"
  "waitpid os p w = Some (st, w') \<Longrightarrow> R u w \<Longrightarrow> R u w'"
  using R_clone R_kill R_wait R_trans by (metis snd_conv)+

lemma start_container_R:
  assumes "start_container os g cid w = Some (r, w')" "R u w"
  shows "R u w'"
proof (rule run_R [OF _ assms(1)])
  show "run_ok (start_container os g cid w) (\<lambda>p. R u (snd p))"
    unfolding start_container_def Let_def run_simps snd_conv
    by (safe; fast intro: assms(2) calls process_calls write_metadata_R)
qed

lemma stop_container_R:
  assumes "stop_container os g cid w = Some (r, w')" "R u w"
  shows "R u w'"
proof (rule run_R [OF _ assms(1)])
  show "run_ok (stop_container os g cid w) (\<lambda>p. R u (snd p))"
    unfolding stop_container_def Let_def run_simps snd_conv
    by (safe; fast intro: assms(2) calls process_calls write_metadata_R)
qed

lemma container_start_R:
  assumes "R u w"
  shows "run_ok (handle_container_start os g req r w) (\<lambda>p. R u (snd (snd p)))"
  unfolding handle_container_start_def Let_def run_simps
  by (safe; fast intro: assms run_reply start_container_R)

lemma container_stop_R:
  assumes "R u w"
  shows "run_ok (handle_container_stop os g req r w) (\<lambda>p. R u (snd (snd p)))"
  unfolding handle_container_stop_def Let_def run_simps
  by (safe; fast intro: assms run_reply stop_container_R)

lemma api_R:
  assumes "R u w"
  shows "run_ok (handle_api_request os g req r w) (\<lambda>p. R u (snd (snd p)))"
  unfolding handle_api_request_def handle_containers_api_def Let_def run_simps
  using assms by (auto simp: run_reply container_create_R container_start_R container_stop_R container_remove_R images_api_R)

lemma api_run_R: "handle_api_request os g req r w = Some (h, r', w') \<Longrightarrow> R u w \<Longrightarrow> R u w'"
  by (rule run_R3 [OF api_R])

lemma handle_client_R:
  assumes "handle_client os g sent s w = Some (t, w')" "R u w"
  shows "R u w'"
proof (rule run_R [OF _ assms(1)])
  show "run_ok (handle_client os g sent s w) (\<lambda>p. R u (snd p))"
    unfolding handle_client_def Let_def run_simps snd_conv
    by (safe; fast intro: assms(2) parse_request_R api_run_R)
qed

lemma serve_R: "serve os cs w = Some (ts, w') \<Longrightarrow> R u w \<Longrightarrow> R u w'"
proof (induction cs arbitrary: w ts)
  case Nil
  then show ?case by simp
next
  case (Cons c cs)
  show ?case
  proof (cases c)
    case Accept_failed
    then show ?thesis using Cons by simp
  next
    case Thread_failed
    then show ?thesis using Cons.prems Cons.IH [of "snd (malloc os w)"] by (simp add: calls_snd)
  next
    case (Connected g sent s)
    obtain ok w1 where m: "malloc os w = (ok, w1)" by fastforce
    have R1: "R u w1" by (rule calls(7) [OF m Cons.prems(2)])
    show ?thesis
      using Cons.prems(1) Cons.IH R1 m Connected
      by (auto simp: bind_Some_iff dest: handle_client_R split: if_split_asm)
  qed
qed

lemma server_R: "start_http_server os net cs w = Some (r, ts, w') \<Longrightarrow> R u w \<Longrightarrow> R u w'"
  by (auto simp: start_http_server_def bind_Some_iff dest: serve_R split: if_split_asm)

end

section \<open>Three relations\<close>

definition same_processes :: "world \<Rightarrow> world \<Rightarrow> bool" where
  "same_processes w w' \<longleftrightarrow> children w' = children w \<and> signals w' = signals w \<and> clones w' = clones w"

interpretation quiet: file_steps os same_processes for os
  by unfold_locales (simp_all add: same_processes_def)

text \<open>The history of a world: counters and the log of signals never shrink.\<close>

definition grows :: "world \<Rightarrow> world \<Rightarrow> bool" where
  "grows w w' \<longleftrightarrow> clones w \<le> clones w' \<and> ticks w \<le> ticks w' \<and> allocs w \<le> allocs w' \<and> prefix (signals w) (signals w')"

interpretation history: process_steps os grows for os
  by unfold_locales (auto simp: grows_def clone_def kill_def waitpid_def Let_def split: if_split_asm)

text \<open>Every process the daemon still has to reap is one that an earlier \<open>clone\<close> returned.\<close>

definition children_cloned :: "os \<Rightarrow> world \<Rightarrow> bool" where
  "children_cloned os w \<longleftrightarrow> (\<forall>p \<in> set (children w). \<exists>n < clones w. spawn os n = p)"

interpretation offspring: process_steps os "\<lambda>w w'. children_cloned os w \<longrightarrow> children_cloned os w'" for os
proof unfold_locales
  show "children_cloned os w \<longrightarrow> children_cloned os (snd (clone os w))" for w
    by (auto simp: children_cloned_def clone_def Let_def less_Suc_eq)
qed (auto simp: children_cloned_def kill_def waitpid_def split: if_split_asm)

text \<open>
  The server's invariants over any sequence of connections: the daemon only ever waits for
  processes that \<open>clone\<close> gave it, and the log of signals, the clock and the process counter only grow.
\<close>

theorem server_invariants:
  assumes "start_http_server os net cs w = Some (r, ts, w')" "children_cloned os w"
  shows "children_cloned os w' \<and> clones w \<le> clones w' \<and> ticks w \<le> ticks w' \<and> prefix (signals w) (signals w')"
  using offspring.server_R [OF assms(1), of w] history.server_R [OF assms(1), of w] assms(2)
  by (simp add: grows_def)

theorem server_invariants_witness:
  "\<exists>ts w'. start_http_server calm_os \<lparr>socket_fd = 3, setsockopt_result = 0, bind_result = 0, listen_result = 0\<rparr>
      [Accept_failed, Connected zero_garbage True (http_bytes ''GET'' ''/version'' [])] empty_world = Some (None, ts, w') \<and>
    children_cloned calm_os w' \<and> prefix (signals empty_world) (signals w')"
proof -
  let ?w = "empty_world\<lparr>allocs := 1\<rparr>"
  let ?net = "\<lparr>socket_fd = 3, setsockopt_result = 0, bind_result = 0, listen_result = 0\<rparr>"
  have g: "good_words ''GET'' ''/version''" by (simp add: good_words_def token_def)
  have n: "\<not> routed ''GET'' ''/version''" by (simp add: routed_def contains_def)
  have "handle_client calm_os zero_garbage True (http_bytes ''GET'' ''/version'' []) ?w =
      Some (Some (wire 404 ''Not Found'' (not_found_text ''/version'')), ?w\<lparr>allocs := Suc (allocs ?w)\<rparr>)"
    by (rule serve_reply [OF g zero_garbage_sized _ api_not_found [OF _ n]]) (simp_all add: not_found_text_def)
  then obtain ts w' where s: "start_http_server calm_os ?net
      [Accept_failed, Connected zero_garbage True (http_bytes ''GET'' ''/version'' [])] empty_world = Some (None, ts, w')"
    by (simp add: start_http_server_def malloc_def empty_world_def)
  have "children_cloned calm_os empty_world" by (simp add: children_cloned_def empty_world_def)
  then show ?thesis using server_invariants [OF s] s by blast
qed

section \<open>Requests that leave the processes alone\<close>

lemma parsed_method:
  assumes "parse_http_request os (m @ CHR '' '' # x) g w = Some (p, req, w')" "token m" "length m < 15" "length (rmethod g) = 16"
  shows "p = 0 \<longrightarrow> cstr (rmethod req) = Some m"
proof -
  let ?line = "m @ CHR '' '' # takeWhile (\<lambda>c. c \<notin> set [CR, LF]) x"
  have s: "fst (strtok (m @ CHR '' '' # x) [CR, LF]) = Some ?line"
  proof -
    have "dropWhile (\<lambda>c. c \<in> set [CR, LF]) (m @ CHR '' '' # x) = m @ CHR '' '' # x"
      using assms(2) by (cases m) (auto simp: token_def)
    moreover have "takeWhile (\<lambda>c. c \<notin> set [CR, LF]) (m @ CHR '' '' # x) = ?line"
      using assms(2) by (subst takeWhile_append2) (auto simp: token_def)
    ultimately show ?thesis by (simp add: strtok_def)
  qed
  obtain r where t: "strtok ?line '' '' = (Some m, r)" using strtok_token(1) [OF assms(2)] by blast
  have c: "cstr (strncpy_sz (rmethod g) m) = Some m"
    using assms(2-4) by (intro cstr_strncpy_short) (simp_all add: token_def)
  have "run_ok (parse_http_request os (m @ CHR '' '' # x) g w) (\<lambda>(p, req, w'). p = 0 \<longrightarrow> cstr (rmethod req) = Some m)"
    unfolding parse_http_request_def Let_def run_simps
    using s t c by (auto simp: strdup_def malloc_def dest!: header_loop_rest split: if_split_asm)
  then show ?thesis using assms(1) by (simp add: run_ok_def)
qed

lemma other_methods_quiet:
  assumes "handle_client os g sent (m @ CHR '' '' # x) w = Some (t, w')" "token m" "length m < 15" "m \<noteq> ''GET''"
    and "length (rmethod (g_request g)) = 16"
  shows "same_processes w w'"
proof -
  let ?s = "c_line (take 8191 (m @ CHR '' '' # x))"
  obtain y where y: "?s = m @ CHR '' '' # y"
  proof -
    have "?s = m @ CHR '' '' # c_line (take (8190 - length m) x)"
    proof -
      have "take 8191 (m @ CHR '' '' # x) = m @ CHR '' '' # take (8190 - length m) x"
        using assms(3) by (simp add: take_Cons')
      moreover have "c_line (m @ CHR '' '' # z) = m @ CHR '' '' # c_line z" for z
        unfolding c_line_def using assms(2) by (subst takeWhile_append2) (auto simp: token_def no_nul_def)
      ultimately show ?thesis by simp
    qed
    then show thesis by (rule that)
  qed
  obtain p req w1 where p: "parse_http_request os ?s (g_request g) w = Some (p, req, w1)"
    using assms(1) by (auto simp: handle_client_def bind_Some_iff)
  have q: "same_processes w w1" by (rule quiet.parse_request_R [OF p]) (simp add: same_processes_def)
  show ?thesis
  proof (cases "p = 0")
    case False
    then show ?thesis using assms(1) p q by (auto simp: handle_client_def bind_Some_iff)
  next
    case True
    have "cstr (rmethod req) = Some m"
      using parsed_method [OF _ assms(2,3,5), of os y w p req w1] p True unfolding y by simp
    then have "run_ok (handle_api_request os g req (g_response g) w1) (\<lambda>p. same_processes w (snd (snd p)))"
      using assms(4) q by (intro quiet.quiet_api_R) auto
    then show ?thesis using assms(1) p True by (auto simp: handle_client_def bind_Some_iff run_ok_def)
  qed
qed

text \<open>
  Whatever a client sends, as long as it does not begin with the word GET, no container process
  is started, signalled or reaped: POST and DELETE requests can only change files.
\<close>

theorem writes_keep_processes:
  assumes "handle_client os g sent (m @ CHR '' '' # x) w = Some (t, w')" "token m" "length m < 15" "m \<noteq> ''GET''"
    and "length (rmethod (g_request g)) = 16"
  shows "children w' = children w \<and> signals w' = signals w \<and> clones w' = clones w"
  using other_methods_quiet [OF assms] by (simp add: same_processes_def)

theorem writes_keep_processes_witness:
  "\<exists>t w'. handle_client calm_os zero_garbage True (http_bytes ''POST'' (container_url web ''stop'') []) empty_world = Some (t, w') \<and>
     signals w' = []"
proof -
  have p: "plain_id web" by (simp add: web_def plain_container_id)
  have g: "good_words ''POST'' (container_url web ''stop'')"
    using p by (auto simp: good_words_def token_def plain_id_def container_url_def)
  have c: "\<not> contains (container_url web ''stop'') ''/containers/create''" unfolding web_def by code_simp
  then have n: "\<not> routed ''POST'' (container_url web ''stop'')"
    using container_url_contains(1) [OF p, of "''stop''"] by (simp add: routed_def)
  have h: "handle_client calm_os zero_garbage True (http_bytes ''POST'' (container_url web ''stop'') []) empty_world =
      Some (Some (wire 404 ''Not Found'' (not_found_text (container_url web ''stop''))), empty_world\<lparr>allocs := Suc (allocs empty_world)\<rparr>)"
    by (rule serve_reply [OF g zero_garbage_sized _ api_not_found [OF _ n]]) (simp_all add: not_found_text_def)
  have "http_bytes ''POST'' u [] = ''POST'' @ CHR '' '' # (u @ '' HTTP/1.1'' @ [CR, LF])" for u
    by (simp add: http_bytes_def request_bytes_def)
  then obtain x where x: "http_bytes ''POST'' (container_url web ''stop'') [] = ''POST'' @ CHR '' '' # x" by blast
  have t: "token ''POST''" "length ''POST'' < 15" "''POST'' \<noteq> ''GET''" "length (rmethod (g_request zero_garbage)) = 16"
    by (simp_all add: token_def zero_garbage_def zero_request_def)
  show ?thesis
    using writes_keep_processes [OF h [unfolded x] t] h by (simp add: empty_world_def)
qed

end
