(* ===== verification/Threads.thy ===== *)
theory Threads imports Effects begin

text \<open>
  The threads of the server, \<open>start_http_server\<close> and \<open>handle_client\<close> of \<open>core/http.c\<close>. Every
  accepted connection has a thread of its own, but \<open>strtok\<close> keeps its position in one static variable of
  the C library, which all threads share. A step of a thread is one call of \<open>strtok\<close>, or the local code
  between two of them, or a whole handler; between two steps any other thread may run.

  A token is a pointer into the copy of the request that some thread made: it carries that thread. Reading
  a token, or continuing from the saved position, is undefined once the owner has freed its copy.
\<close>

section \<open>Threads and what they share\<close>

type_synonym tok = "nat \<times> string"

record shared =
  saved :: "tok option" \<comment> \<open>the position \<open>strtok\<close> saved; null before its first call\<close>
  freed :: "nat list" \<comment> \<open>the threads that freed their copy\<close>
  machine :: world

datatype stage =
    Accepted bool string \<comment> \<open>the accept loop: whether \<open>pthread_create\<close> works, and what will be received\<close>
  | Running string \<comment> \<open>\<open>recv\<close> and \<open>strdup\<close>\<close>
  | Line string \<comment> \<open>\<open>line = strtok(request_copy, ...)\<close>\<close>
  | Method tok \<comment> \<open>\<open>method = strtok(line, ...)\<close>\<close>
  | Url "tok option" \<comment> \<open>\<open>url = strtok(NULL, ...)\<close>\<close>
  | Version "tok option" "tok option" \<comment> \<open>\<open>version = strtok(NULL, ...)\<close>\<close>
  | Words "tok option" "tok option" "tok option" \<comment> \<open>the check and the copies of the three words\<close>
  | Header \<comment> \<open>\<open>header_line = strtok(NULL, ...)\<close>\<close>
  | Header_line tok \<comment> \<open>the body of the header loop\<close>
  | Body \<comment> \<open>\<open>body = strtok(NULL, "")\<close>\<close>
  | Body_copy "tok option"
  | Free int \<comment> \<open>\<open>free(request_copy)\<close> and the result of the parser\<close>
  | Parsed int \<comment> \<open>the handler and the response\<close>
  | Answered "string option"
  | Dropped

record thread =
  stage :: stage
  trequest :: http_request
  stack :: garbage
  sends :: bool

fun finished :: "stage \<Rightarrow> bool" where
  "finished (Answered t) \<longleftrightarrow> True"
| "finished Dropped \<longleftrightarrow> True"
| "finished _ \<longleftrightarrow> False"

section \<open>\<open>strtok\<close> with its static position\<close>

definition strtok_on :: "nat \<Rightarrow> string \<Rightarrow> string \<Rightarrow> shared \<Rightarrow> tok option \<times> shared" where
  "strtok_on owner s delims sh =
     (let (t, rest) = strtok s delims in (map_option (Pair owner) t, sh\<lparr>saved := Some (owner, rest)\<rparr>))"

definition deref :: "tok \<Rightarrow> shared \<Rightarrow> string option" where
  "deref p sh = (if fst p \<in> set (freed sh) then None else Some (snd p))"

definition strtok_null :: "string \<Rightarrow> shared \<Rightarrow> (tok option \<times> shared) option" where
  "strtok_null delims sh =
     (case saved sh of
        None \<Rightarrow> None
      | Some p \<Rightarrow> deref p sh \<bind> (\<lambda>s. Some (strtok_on (fst p) s delims sh)))"

section \<open>The steps\<close>

text \<open>\<open>handle_client\<close> behind the parser, as one step.\<close>

definition respond :: "os \<Rightarrow> garbage \<Rightarrow> bool \<Rightarrow> int \<Rightarrow> http_request \<Rightarrow> world \<Rightarrow> (string option \<times> world) option" where
  "respond os g sent p req w =
     (if p \<noteq> 0 then do {
        r \<leftarrow> create_http_response (g_response g) 400 ''Bad Request'' (Some ''Invalid HTTP request'');
        (_, t) \<leftarrow> send_http_response sent r;
        Some (Some t, w)
      } else do {
        _ \<leftarrow> log_request req;
        (h, r, w1) \<leftarrow> handle_api_request os g req (g_response g) w;
        r1 \<leftarrow> (if h \<noteq> 0
              then create_http_response r 500 ''Internal Server Error'' (Some ''Failed to handle request'')
              else Some r);
        _ \<leftarrow> log_response r1;
        (_, t) \<leftarrow> send_http_response sent r1;
        Some (Some t, w1)
      })"

fun step_on :: "os \<Rightarrow> nat \<Rightarrow> stage \<Rightarrow> thread \<Rightarrow> shared \<Rightarrow> (thread \<times> shared) option" where
  "step_on os me (Accepted created received) t sh =
     (let (ok, w) = malloc os (machine sh)
      in Some (t\<lparr>stage := if ok \<and> created then Running received else Dropped\<rparr>, sh\<lparr>machine := w\<rparr>))"
| "step_on os me (Running received) t sh =
     (if received = [] then Some (t\<lparr>stage := Answered None\<rparr>, sh)
      else let (p, w) = strdup os (c_line (take 8191 received)) (machine sh)
           in Some (t\<lparr>stage := (case p of None \<Rightarrow> Parsed (- 1) | Some copy \<Rightarrow> Line copy)\<rparr>, sh\<lparr>machine := w\<rparr>))"
| "step_on os me (Line copy) t sh =
     (let (line, sh1) = strtok_on me copy [CR, LF] sh
      in Some (t\<lparr>stage := (case line of None \<Rightarrow> Free (- 1) | Some l \<Rightarrow> Method l)\<rparr>, sh1))"
| "step_on os me (Method l) t sh =
     deref l sh \<bind> (\<lambda>line. let (m, sh1) = strtok_on (fst l) line '' '' sh in Some (t\<lparr>stage := Url m\<rparr>, sh1))"
| "step_on os me (Url m) t sh = strtok_null '' '' sh \<bind> (\<lambda>(u, sh1). Some (t\<lparr>stage := Version m u\<rparr>, sh1))"
| "step_on os me (Version m u) t sh = strtok_null '' '' sh \<bind> (\<lambda>(v, sh1). Some (t\<lparr>stage := Words m u v\<rparr>, sh1))"
| "step_on os me (Words (Some m) (Some u) (Some v)) t sh = do {
     meth \<leftarrow> deref m sh;
     ur \<leftarrow> deref u sh;
     vers \<leftarrow> deref v sh;
     let req = trequest t;
     Some (t\<lparr>stage := Header, trequest := req\<lparr>rmethod := strncpy_sz (rmethod req) meth, url := strncpy_sz (url req) ur,
       rversion := strncpy_sz (rversion req) vers, rheaders := (rheaders req)[0 := NUL]\<rparr>\<rparr>, sh)
   }"
| "step_on os me (Words _ _ _) t sh = Some (t\<lparr>stage := Free (- 1)\<rparr>, sh)"
| "step_on os me Header t sh =
     strtok_null [CR, LF] sh \<bind>
       (\<lambda>(l, sh1). Some (t\<lparr>stage := (case l of None \<Rightarrow> Body | Some p \<Rightarrow> Header_line p)\<rparr>, sh1))"
| "step_on os me (Header_line l) t sh = do {
     line \<leftarrow> deref l sh;
     let req = trequest t;
     (if length line = 0 then Some (t\<lparr>stage := Body\<rparr>, sh)
      else do {
        n \<leftarrow> (if contains line ''Content-Length:''
             then scan_int_into (sscanf line ''Content-Length: %d'') (rcontent_length req)
             else Some (rcontent_length req));
        h1 \<leftarrow> strcat (rheaders req) line;
        h2 \<leftarrow> strcat h1 [CR, LF];
        Some (t\<lparr>stage := Header, trequest := req\<lparr>rcontent_length := n, rheaders := h2\<rparr>\<rparr>, sh)
      })
   }"
| "step_on os me Body t sh = strtok_null [] sh \<bind> (\<lambda>(b, sh1). Some (t\<lparr>stage := Body_copy b\<rparr>, sh1))"
| "step_on os me (Body_copy None) t sh =
     (let req = trequest t in Some (t\<lparr>stage := Free 0, trequest := req\<lparr>rbody := (rbody req)[0 := NUL]\<rparr>\<rparr>, sh))"
| "step_on os me (Body_copy (Some p)) t sh =
     deref p sh \<bind> (\<lambda>b. let req = trequest t in
       Some (t\<lparr>stage := Free 0, trequest := req\<lparr>rbody := strncpy_sz (rbody req) b\<rparr>\<rparr>, sh))"
| "step_on os me (Free r) t sh = Some (t\<lparr>stage := Parsed r\<rparr>, sh\<lparr>freed := me # freed sh\<rparr>)"
| "step_on os me (Parsed r) t sh =
     respond os (stack t) (sends t) r (trequest t) (machine sh) \<bind>
       (\<lambda>(a, w). Some (t\<lparr>stage := Answered a\<rparr>, sh\<lparr>machine := w\<rparr>))"
| "step_on os me (Answered a) t sh = None"
| "step_on os me Dropped t sh = None"

definition thread_step :: "os \<Rightarrow> nat \<Rightarrow> thread \<Rightarrow> shared \<Rightarrow> (thread \<times> shared) option" where
  "thread_step os me t sh = step_on os me (stage t) t sh"

text \<open>
  A schedule names the thread that takes each step. Only a thread that has not finished can be named;
  \<open>None\<close> is a schedule that is not possible or a step that is undefined.
\<close>

fun run_schedule :: "os \<Rightarrow> nat list \<Rightarrow> thread list \<times> shared \<Rightarrow> (thread list \<times> shared) option" where
  "run_schedule os [] s = Some s"
| "run_schedule os (i # is) (ts, sh) =
     (if i < length ts then
        thread_step os i (ts ! i) sh \<bind> (\<lambda>(t, sh1). run_schedule os is (ts[i := t], sh1))
      else None)"

text \<open>The threads that a list of connections leads to.\<close>

fun thread_of :: "connection \<Rightarrow> thread" where
  "thread_of Accept_failed = \<lparr>stage = Dropped, trequest = zero_request, stack = zero_garbage, sends = False\<rparr>"
| "thread_of Thread_failed =
     \<lparr>stage = Accepted False [], trequest = zero_request, stack = zero_garbage, sends = False\<rparr>"
| "thread_of (Connected g sent received) =
     \<lparr>stage = Accepted True received, trequest = g_request g, stack = g, sends = sent\<rparr>"

text \<open>The server before its first connection.\<close>

definition started :: "world \<Rightarrow> shared" where
  "started w = \<lparr>saved = None, freed = [], machine = w\<rparr>"

section \<open>A thread that runs alone\<close>

text \<open>
  The outcome of a thread when no other one runs: its answer and the world it leaves, or \<open>None\<close> at an
  undefined step.
\<close>

inductive yields :: "os \<Rightarrow> nat \<Rightarrow> thread \<Rightarrow> shared \<Rightarrow> (string option \<times> world) option \<Rightarrow> bool" for os me where
  answer: "stage t = Answered a \<Longrightarrow> yields os me t sh (Some (a, machine sh))"
| undefined_step: "\<not> finished (stage t) \<Longrightarrow> thread_step os me t sh = None \<Longrightarrow> yields os me t sh None"
| next_step: "thread_step os me t sh = Some (t', sh') \<Longrightarrow> yields os me t' sh' r \<Longrightarrow> yields os me t sh r"

lemma step_stage: "stage t = s \<Longrightarrow> thread_step os me t sh = step_on os me s t sh"
  by (simp add: thread_step_def)

lemma yields_next:
  "stage t = s \<Longrightarrow> step_on os me s t sh = Some (t', sh') \<Longrightarrow> yields os me t' sh' r \<Longrightarrow> yields os me t sh r"
  by (simp add: step_stage next_step)

lemma yields_undefined: "stage t = s \<Longrightarrow> \<not> finished s \<Longrightarrow> step_on os me s t sh = None \<Longrightarrow> yields os me t sh None"
  by (simp add: step_stage undefined_step)

text \<open>From each stage on, the thread does what is left of \<open>handle_client\<close>.\<close>

lemma from_parsed:
  assumes "stage t = Parsed p"
  shows "yields os me t sh (respond os (stack t) (sends t) p (trequest t) (machine sh))"
proof (cases "respond os (stack t) (sends t) p (trequest t) (machine sh)")
  case None
  then show ?thesis by (auto intro: yields_undefined [OF assms])
next
  case (Some a)
  then show ?thesis
    using answer [of "t\<lparr>stage := Answered (fst a)\<rparr>" "fst a" os me "sh\<lparr>machine := snd a\<rparr>"]
    by (auto intro: yields_next [OF assms] simp: case_prod_unfold)
qed

lemma from_free:
  assumes "stage t = Free p"
  shows "yields os me t sh (respond os (stack t) (sends t) p (trequest t) (machine sh))"
  by (rule yields_next [OF assms])
    (use from_parsed [of "t\<lparr>stage := Parsed p\<rparr>" p os me "sh\<lparr>freed := me # freed sh\<rparr>"] in auto)

text \<open>The saved position of a thread that owns it.\<close>

definition holds :: "nat \<Rightarrow> string \<Rightarrow> shared \<Rightarrow> bool" where
  "holds me rest sh \<longleftrightarrow> saved sh = Some (me, rest) \<and> me \<notin> set (freed sh)"

lemma strtok_null_own:
  "holds me rest sh \<Longrightarrow> strtok rest delims = (x, rest1) \<Longrightarrow>
   strtok_null delims sh = Some (map_option (Pair me) x, sh\<lparr>saved := Some (me, rest1)\<rparr>)"
  by (simp add: strtok_null_def strtok_on_def holds_def deref_def)

lemma holds_saved: "holds me rest sh \<Longrightarrow> holds me rest1 (sh\<lparr>saved := Some (me, rest1)\<rparr>)"
  by (simp add: holds_def)

lemma deref_own: "holds me rest sh \<Longrightarrow> deref (me, s) sh = Some s"
  by (simp add: holds_def deref_def)

definition with_body :: "http_request \<Rightarrow> string \<Rightarrow> http_request" where
  "with_body req rest = (case fst (strtok rest []) of
     Some b \<Rightarrow> req\<lparr>rbody := strncpy_sz (rbody req) b\<rparr> | None \<Rightarrow> req\<lparr>rbody := (rbody req)[0 := NUL]\<rparr>)"

lemma from_body:
  assumes "stage t = Body" "holds me rest sh"
  shows "yields os me t sh (respond os (stack t) (sends t) 0 (with_body (trequest t) rest) (machine sh))"
proof (cases "strtok rest []")
  case (Pair b rest1)
  let ?t = "t\<lparr>stage := Body_copy (map_option (Pair me) b)\<rparr>" and ?sh = "sh\<lparr>saved := Some (me, rest1)\<rparr>"
  let ?t2 = "t\<lparr>stage := Free 0, trequest := with_body (trequest t) rest\<rparr>"
  have "yields os me ?t2 ?sh (respond os (stack t) (sends t) 0 (with_body (trequest t) rest) (machine sh))"
    using from_free [of ?t2 0 os me ?sh] by simp
  then have "yields os me ?t ?sh (respond os (stack t) (sends t) 0 (with_body (trequest t) rest) (machine sh))"
    by (intro yields_next [of ?t "Body_copy (map_option (Pair me) b)"])
      (use Pair deref_own [OF holds_saved [OF assms(2)]] in \<open>auto simp: with_body_def Let_def split: option.splits\<close>)
  then show ?thesis
    by (intro yields_next [OF assms(1)]) (auto simp: strtok_null_own [OF assms(2) Pair])
qed

lemma from_header:
  assumes "stage t = Header" "holds me rest sh"
  shows "yields os me t sh (header_loop (trequest t) rest \<bind>
    (\<lambda>(req, rest4). respond os (stack t) (sends t) 0 (with_body req rest4) (machine sh)))"
  using assms
proof (induction "length rest" arbitrary: t rest sh rule: less_induct)
  case less
  let ?req = "trequest t"
  let ?out = "header_loop ?req rest \<bind> (\<lambda>(req, rest4). respond os (stack t) (sends t) 0 (with_body req rest4) (machine sh))"
  obtain l rest1 where st: "strtok rest [CR, LF] = (l, rest1)" by fastforce
  let ?sh = "sh\<lparr>saved := Some (me, rest1)\<rparr>"
  have h: "holds me rest1 ?sh" by (rule holds_saved [OF less.prems(2)])
  show ?case
  proof (cases l)
    case None
    have "yields os me (t\<lparr>stage := Body\<rparr>) ?sh ?out"
      using from_body [OF _ h, of "t\<lparr>stage := Body\<rparr>"] st None by (simp add: header_loop.simps [of ?req rest])
    then show ?thesis
      by (intro yields_next [OF less.prems(1)]) (auto simp: strtok_null_own [OF less.prems(2) st] None)
  next
    case (Some line)
    let ?t = "t\<lparr>stage := Header_line (me, line)\<rparr>"
    have d: "deref (me, line) ?sh = Some line" by (rule deref_own [OF h])
    have t: "stage ?t = Header_line (me, line)" by simp
    have ne: "line \<noteq> []" using strtok_Some(1) st Some by auto
    let ?add = "do {
        n \<leftarrow> (if contains line ''Content-Length:'' then scan_int_into (sscanf line ''Content-Length: %d'') (rcontent_length ?req)
             else Some (rcontent_length ?req));
        h1 \<leftarrow> strcat (rheaders ?req) line;
        h2 \<leftarrow> strcat h1 [CR, LF];
        Some (?req\<lparr>rcontent_length := n, rheaders := h2\<rparr>) }"
    have hl: "header_loop ?req rest = ?add \<bind> (\<lambda>r. header_loop r rest1)"
      using ne st Some by (simp add: header_loop.simps [of ?req rest])
    have so: "step_on os me (Header_line (me, line)) ?t ?sh = ?add \<bind> (\<lambda>r. Some (t\<lparr>stage := Header, trequest := r\<rparr>, ?sh))"
      using ne d by (simp add: Let_def)
    have "yields os me ?t ?sh ?out"
    proof (cases ?add)
      case None
      have "yields os me ?t ?sh None" by (rule yields_undefined [OF t]) (simp, unfold so None, simp)
      then show ?thesis by (simp only: hl None, simp)
    next
      case (Some r)
      have "yields os me (t\<lparr>stage := Header, trequest := r\<rparr>) ?sh (header_loop r rest1 \<bind>
          (\<lambda>(req, rest4). respond os (stack t) (sends t) 0 (with_body req rest4) (machine sh)))"
        using less.hyps [OF _ _ h, of "t\<lparr>stage := Header, trequest := r\<rparr>"] strtok_rest_shorter st \<open>l = Some line\<close> by simp
      then have "yields os me ?t ?sh (header_loop r rest1 \<bind>
          (\<lambda>(req, rest4). respond os (stack t) (sends t) 0 (with_body req rest4) (machine sh)))"
        by (rule yields_next [OF t, rotated]) (unfold so Some, simp)
      then show ?thesis by (simp only: hl Some, simp)
    qed
    then show ?thesis
      by (intro yields_next [OF less.prems(1)]) (auto simp: strtok_null_own [OF less.prems(2) st] Some)
  qed
qed

text \<open>The parser behind \<open>strdup\<close>.\<close>

definition word_fields :: "http_request \<Rightarrow> string \<Rightarrow> string \<Rightarrow> string \<Rightarrow> http_request" where
  "word_fields req m u v = req\<lparr>rmethod := strncpy_sz (rmethod req) m, url := strncpy_sz (url req) u,
     rversion := strncpy_sz (rversion req) v, rheaders := (rheaders req)[0 := NUL]\<rparr>"

definition parse_copy :: "string \<Rightarrow> http_request \<Rightarrow> (int \<times> http_request) option" where
  "parse_copy copy req =
     (case fst (strtok copy [CR, LF]) of
        None \<Rightarrow> Some (- 1, req)
      | Some line \<Rightarrow>
          let (m, rest1) = strtok line '' ''; (u, rest2) = strtok rest1 '' ''; (v, rest3) = strtok rest2 '' ''
          in case (m, u, v) of
               (Some meth, Some ur, Some vers) \<Rightarrow>
                 header_loop (word_fields req meth ur vers) rest3 \<bind> (\<lambda>(req1, rest4). Some (0, with_body req1 rest4))
             | _ \<Rightarrow> Some (- 1, req))"

lemma parse_is_copy:
  "parse_http_request os s req w =
    (let (p, w1) = strdup os s w in
     case p of None \<Rightarrow> Some (- 1, req, w1) | Some copy \<Rightarrow> parse_copy copy req \<bind> (\<lambda>(r, req1). Some (r, req1, w1)))"
proof -
  have b: "(case fst (strtok rest4 []) of
      Some b \<Rightarrow> Some (0, r\<lparr>rbody := strncpy_sz (rbody r) b\<rparr>, w1)
    | None \<Rightarrow> Some (0, r\<lparr>rbody := (rbody r)[0 := NUL]\<rparr>, w1)) = Some (0 :: int, with_body r rest4, w1)" for r :: http_request and rest4 w1
    by (simp add: with_body_def split: option.split)
  obtain p w1 where p: "strdup os s w = (p, w1)" by fastforce
  show ?thesis
  proof (cases p)
    case None
    then show ?thesis by (simp add: parse_http_request_def p)
  next
    case (Some c)
    show ?thesis
    proof (cases "fst (strtok c [CR, LF])")
      case None
      then show ?thesis by (simp add: parse_http_request_def parse_copy_def p Some)
    next
      case l: (Some line)
      obtain m r1 u r2 v r3 where "strtok line '' '' = (m, r1)" "strtok r1 '' '' = (u, r2)" "strtok r2 '' '' = (v, r3)"
        by (meson surj_pair)
      then show ?thesis
        unfolding parse_http_request_def b parse_copy_def
        by (cases m; cases u; cases v) (simp_all add: p Some l word_fields_def case_prod_unfold)
    qed
  qed
qed

lemma handle_client_respond:
  "handle_client os g sent received w =
    (if received = [] then Some (None, w)
     else parse_http_request os (c_line (take 8191 received)) (g_request g) w \<bind> (\<lambda>(p, req, w1). respond os g sent p req w1))"
  by (simp only: handle_client_def respond_def)

lemma from_words:
  assumes "stage t = Words (map_option (Pair me) m) (map_option (Pair me) u) (map_option (Pair me) v)" "holds me rest sh"
  shows "yields os me t sh
    ((case (m, u, v) of
        (Some meth, Some ur, Some vers) \<Rightarrow>
          header_loop (word_fields (trequest t) meth ur vers) rest \<bind> (\<lambda>(req1, rest4). Some (0, with_body req1 rest4))
      | _ \<Rightarrow> Some (- 1, trequest t)) \<bind> (\<lambda>(p, req). respond os (stack t) (sends t) p req (machine sh)))"
proof (cases "m = None \<or> u = None \<or> v = None")
  case True
  then have s: "step_on os me (stage t) t sh = Some (t\<lparr>stage := Free (- 1)\<rparr>, sh)"
    by (cases m; cases u; cases v) (simp_all add: assms(1))
  have o: "(case (m, u, v) of
      (Some meth, Some ur, Some vers) \<Rightarrow>
        header_loop (word_fields (trequest t) meth ur vers) rest \<bind> (\<lambda>(req1, rest4). Some (0, with_body req1 rest4))
    | _ \<Rightarrow> Some (- 1, trequest t)) = Some (- 1, trequest t)"
    using True by (cases m; cases u; cases v) simp_all
  have "yields os me (t\<lparr>stage := Free (- 1)\<rparr>) sh (respond os (stack t) (sends t) (- 1) (trequest t) (machine sh))"
    using from_free [of "t\<lparr>stage := Free (- 1)\<rparr>" "- 1" os me sh] by simp
  then show ?thesis unfolding o using yields_next [OF refl s] by simp
next
  case False
  then obtain a b c where w: "m = Some a" "u = Some b" "v = Some c" by auto
  let ?t = "t\<lparr>stage := Header, trequest := word_fields (trequest t) a b c\<rparr>"
  have s: "step_on os me (stage t) t sh = Some (?t, sh)"
    using w by (simp add: assms(1) deref_own [OF assms(2)] word_fields_def Let_def)
  have "yields os me ?t sh (header_loop (word_fields (trequest t) a b c) rest \<bind>
      (\<lambda>(req, rest4). respond os (stack t) (sends t) 0 (with_body req rest4) (machine sh)))"
    using from_header [of ?t me rest sh os] assms(2) by simp
  then show ?thesis using yields_next [OF refl s] by (simp add: w case_prod_unfold)
qed

lemma from_line:
  assumes "stage t = Line copy" "me \<notin> set (freed sh)"
  shows "yields os me t sh (parse_copy copy (trequest t) \<bind> (\<lambda>(p, req). respond os (stack t) (sends t) p req (machine sh)))"
proof -
  obtain l rest0 where l: "strtok copy [CR, LF] = (l, rest0)" by fastforce
  show ?thesis
  proof (cases l)
    case None
    then show ?thesis
      using from_free [of "t\<lparr>stage := Free (- 1)\<rparr>" "- 1" os me "sh\<lparr>saved := Some (me, rest0)\<rparr>"] l
      by (intro yields_next [OF assms(1)]) (auto simp: strtok_on_def parse_copy_def)
  next
    case (Some line)
    obtain m r1 u r2 v r3 where s: "strtok line '' '' = (m, r1)" "strtok r1 '' '' = (u, r2)" "strtok r2 '' '' = (v, r3)"
      by (meson surj_pair)
    let ?sh = "\<lambda>r. sh\<lparr>saved := Some (me, r)\<rparr>" and ?p = "map_option (Pair me)"
    let ?out = "parse_copy copy (trequest t) \<bind> (\<lambda>(p, req). respond os (stack t) (sends t) p req (machine sh))"
    have h: "holds me r (?sh r)" for r using assms(2) by (simp add: holds_def)
    have "yields os me (t\<lparr>stage := Words (?p m) (?p u) (?p v)\<rparr>) (?sh r3) ?out"
      using from_words [OF _ h, of "t\<lparr>stage := Words (?p m) (?p u) (?p v)\<rparr>" m u v os r3] l Some s by (simp add: parse_copy_def cong: option.case_cong)
    then have "yields os me (t\<lparr>stage := Version (?p m) (?p u)\<rparr>) (?sh r2) ?out"
      by (rule yields_next [OF _ _, rotated 2]) (auto simp: strtok_null_own [OF h s(3)])
    then have "yields os me (t\<lparr>stage := Url (?p m)\<rparr>) (?sh r1) ?out"
      by (rule yields_next [OF _ _, rotated 2]) (auto simp: strtok_null_own [OF h s(2)])
    then have "yields os me (t\<lparr>stage := Method (me, line)\<rparr>) (?sh rest0) ?out"
      by (rule yields_next [OF _ _, rotated 2]) (auto simp: deref_own [OF h] strtok_on_def s(1))
    then show ?thesis by (rule yields_next [OF assms(1), rotated]) (simp add: strtok_on_def l Some)
  qed
qed

lemma from_running:
  assumes "stage t = Running received" "me \<notin> set (freed sh)" "trequest t = g_request (stack t)"
  shows "yields os me t sh (handle_client os (stack t) (sends t) received (machine sh))"
proof (cases "received = []")
  case True
  have "yields os me (t\<lparr>stage := Answered None\<rparr>) sh (Some (None, machine sh))" by (rule answer) simp
  then show ?thesis using True by (intro yields_next [OF assms(1)]) (auto simp: handle_client_respond)
next
  case False
  obtain p w where d: "strdup os (c_line (take 8191 received)) (machine sh) = (p, w)" by fastforce
  let ?s = "case p of None \<Rightarrow> Parsed (- 1) | Some copy \<Rightarrow> Line copy"
  have "yields os me (t\<lparr>stage := ?s\<rparr>) (sh\<lparr>machine := w\<rparr>) (handle_client os (stack t) (sends t) received (machine sh))"
    using from_parsed [of "t\<lparr>stage := Parsed (- 1)\<rparr>" "- 1" os me "sh\<lparr>machine := w\<rparr>"] False d assms(2,3)
      from_line [of "t\<lparr>stage := ?s\<rparr>" "the p" me "sh\<lparr>machine := w\<rparr>" os]
    by (cases p) (simp_all add: handle_client_respond parse_is_copy case_prod_unfold)
  then show ?thesis using False d by (intro yields_next [OF assms(1)]) auto
qed

lemma step_answered: "stage t = Answered a \<Longrightarrow> thread_step os me t sh = None"
  by (simp add: thread_step_def)

lemma step_not_finished: "thread_step os me t sh = Some s \<Longrightarrow> \<not> finished (stage t)"
  by (cases "stage t") (auto simp: thread_step_def)

lemma yields_unique: "yields os me t sh r \<Longrightarrow> yields os me t sh r' \<Longrightarrow> r' = r"
proof (induction arbitrary: r' rule: yields.induct)
  case (answer t a sh)
  from answer.prems answer.hyps show ?case by cases (auto simp: step_answered)
next
  case (undefined_step t sh)
  from undefined_step.prems undefined_step.hyps show ?case by cases auto
next
  case (next_step t sh t' sh' r)
  from next_step.prems next_step.hyps show ?case
    by cases (auto simp: step_answered intro: next_step.IH)
qed

section \<open>Schedules\<close>

lemma run_schedule_append:
  "run_schedule os (is @ js) s = run_schedule os is s \<bind> run_schedule os js"
  by (induction os "is" s rule: run_schedule.induct) (auto split: Option.bind_split)

lemma step_freed: "step_on os me s t sh = Some (t', sh') \<Longrightarrow> set (freed sh') \<subseteq> insert me (set (freed sh))"
  by (cases "(os, me, s, t, sh)" rule: step_on.cases)
    (auto simp: Let_def bind_Some_iff strtok_null_def strtok_on_def case_prod_unfold split: if_split_asm option.splits prod.splits)

lemma yields_schedule:
  assumes "yields os i t sh r" "r = Some (a, w)" "i < length ts" "ts ! i = t"
  shows "\<exists>n t' sh'. run_schedule os (replicate n i) (ts, sh) = Some (ts[i := t'], sh') \<and> stage t' = Answered a \<and>
    machine sh' = w \<and> set (freed sh') \<subseteq> insert i (set (freed sh))"
  using assms
proof (induction arbitrary: ts rule: yields.induct)
  case (answer t b sh)
  then show ?case by (intro exI [of _ 0] exI [of _ t] exI [of _ sh]) auto
next
  case (next_step t sh t1 sh1 r)
  obtain n t' sh' where n: "run_schedule os (replicate n i) (ts[i := t1], sh1) = Some (ts[i := t1, i := t'], sh')"
    "stage t' = Answered a" "machine sh' = w" "set (freed sh') \<subseteq> insert i (set (freed sh1))"
    using next_step.IH [of "ts[i := t1]"] next_step.prems by auto
  have "set (freed sh1) \<subseteq> insert i (set (freed sh))" using step_freed next_step.hyps(1) unfolding thread_step_def by blast
  then show ?case
    using n next_step.hyps(1) next_step.prems by (intro exI [of _ "Suc n"] exI [of _ t'] exI [of _ sh']) auto
qed simp

section \<open>One thread after the other\<close>

text \<open>The answers of the threads that have one, in the order of the connections.\<close>

definition given_answers :: "thread list \<Rightarrow> string option list" where
  "given_answers ts = concat (map (\<lambda>t. case stage t of Answered a \<Rightarrow> [a] | _ \<Rightarrow> []) ts)"

lemma given_answers_simps [simp]:
  "given_answers [] = []" "stage t = Answered a \<Longrightarrow> given_answers (t # ts) = a # given_answers ts"
  "stage t = Dropped \<Longrightarrow> given_answers (t # ts) = given_answers ts"
  by (simp_all add: given_answers_def)

lemma serve_schedule:
  assumes "serve os cs (machine sh) = Some (as, w')" "\<forall>j \<in> set (freed sh). j < length before"
  shows "\<exists>sched ts sh'. run_schedule os sched (before @ map thread_of cs, sh) = Some (before @ ts, sh') \<and>
    list_all (\<lambda>t. finished (stage t)) ts \<and> given_answers ts = as \<and> machine sh' = w'"
  using assms
proof (induction cs arbitrary: before sh as)
  case Nil
  then show ?case by (intro exI [of _ "[]"] exI [of _ "[]"] exI [of _ sh]) simp
next
  case (Cons c cs)
  let ?i = "length before"
  have free: "?i \<notin> set (freed sh)" using Cons.prems(2) by blast
  have rest: "\<exists>sched ts sh'. run_schedule os sched (before @ map thread_of (c # cs), sh) = Some (before @ ts, sh') \<and>
      list_all (\<lambda>t. finished (stage t)) ts \<and> given_answers ts = as \<and> machine sh' = w'"
    if first: "run_schedule os sched (before @ map thread_of (c # cs), sh) = Some ((before @ map thread_of (c # cs))[?i := t], sh1)"
      and t: "finished (stage t)" "set (freed sh1) \<subseteq> insert ?i (set (freed sh))"
      and s: "serve os cs (machine sh1) = Some (as1, w')" "as = (case stage t of Answered a \<Rightarrow> a # as1 | _ \<Rightarrow> as1)"
    for sched t sh1 as1
  proof -
    obtain sched2 ts sh2 where r: "run_schedule os sched2 ((before @ [t]) @ map thread_of cs, sh1) = Some ((before @ [t]) @ ts, sh2)"
      "list_all (\<lambda>t. finished (stage t)) ts" "given_answers ts = as1" "machine sh2 = w'"
      using Cons.IH [OF s(1), of "before @ [t]"] t(2) Cons.prems(2) by fastforce
    have "run_schedule os (sched @ sched2) (before @ map thread_of (c # cs), sh) = Some (before @ t # ts, sh2)"
      using first r(1) by (simp add: run_schedule_append)
    moreover have "given_answers (t # ts) = as" using t(1) s(2) r(3) by (cases "stage t") auto
    ultimately show ?thesis using r t(1) by (intro exI [of _ "sched @ sched2"] exI [of _ "t # ts"] exI [of _ sh2]) simp
  qed
  show ?case
  proof (cases c)
    case Accept_failed
    then show ?thesis using Cons.prems(1) by (intro rest [of "[]" "thread_of c" sh as]) (auto simp: list_update_append)
  next
    case Thread_failed
    then show ?thesis using Cons.prems(1)
      by (intro rest [of "[?i]" "(thread_of c)\<lparr>stage := Dropped\<rparr>" "sh\<lparr>machine := snd (malloc os (machine sh))\<rparr>" as])
        (auto simp: thread_step_def nth_append case_prod_unfold Let_def)
  next
    case (Connected g sent received)
    obtain ok w1 where m: "malloc os (machine sh) = (ok, w1)" by fastforce
    let ?sh = "sh\<lparr>machine := w1\<rparr>"
    let ?t = "(thread_of c)\<lparr>stage := if ok then Running received else Dropped\<rparr>"
    let ?all = "before @ map thread_of (c # cs)"
    have one: "run_schedule os [?i] (?all, sh) = Some (?all[?i := ?t], ?sh)"
      using Connected m by (simp add: thread_step_def nth_append)
    show ?thesis
    proof (cases ok)
      case False
      then show ?thesis using Cons.prems(1) m Connected by (intro rest [OF one, of as]) auto
    next
      case True
      obtain a w2 as1 where h: "handle_client os g sent received w1 = Some (a, w2)" "serve os cs w2 = Some (as1, w')" "as = a # as1"
        using Cons.prems(1) m Connected True by (auto simp: bind_Some_iff)
      have "yields os ?i ?t ?sh (Some (a, w2))"
        using from_running [of ?t received ?i ?sh os] True Connected free h(1) by simp
      then obtain n t' sh' where n: "run_schedule os (replicate n ?i) (?all[?i := ?t], ?sh) = Some (?all[?i := ?t, ?i := t'], sh')"
        "stage t' = Answered a" "machine sh' = w2" "set (freed sh') \<subseteq> insert ?i (set (freed ?sh))"
        using yields_schedule [of os ?i ?t ?sh _ a w2 "?all[?i := ?t]"] by auto
      have "run_schedule os ([?i] @ replicate n ?i) (?all, sh) = Some (?all[?i := t'], sh')"
        unfolding run_schedule_append one using n(1) by simp
      then show ?thesis by (rule rest) (use n h in auto)
    qed
  qed
qed

text \<open>
  C12. The sequential model of the server is one schedule of its threads: whatever \<open>serve\<close> computes for
  a list of connections, some schedule of the threads ends with every thread finished, the same answers and the
  same world.
\<close>

theorem serve_is_a_schedule:
  assumes "serve os cs w = Some (as, w')"
  shows "\<exists>sched ts sh. run_schedule os sched (map thread_of cs, started w) = Some (ts, sh) \<and>
    list_all (\<lambda>t. finished (stage t)) ts \<and> given_answers ts = as \<and> machine sh = w'"
  using serve_schedule [of os cs "started w" as w' "[]"] assms by (auto simp: started_def)

section \<open>Every schedule ends\<close>

fun work :: "stage \<Rightarrow> nat" where
  "work (Accepted b received) = 12 + 2 * length received"
| "work (Running received) = 11 + 2 * length received"
| "work (Line copy) = 10 + 2 * length copy"
| "work (Method l) = 9 + 2 * length (snd l)"
| "work (Url m) = 8"
| "work (Version m u) = 7"
| "work (Words m u v) = 6"
| "work Header = 5"
| "work (Header_line l) = 6"
| "work Body = 4"
| "work (Body_copy b) = 3"
| "work (Free r) = 2"
| "work (Parsed r) = 1"
| "work (Answered a) = 0"
| "work Dropped = 0"

definition left_over :: "shared \<Rightarrow> nat" where
  "left_over sh = (case saved sh of None \<Rightarrow> 0 | Some p \<Rightarrow> 2 * length (snd p))"

lemma strtok_split: "strtok s d = (t, r) \<Longrightarrow> length r + (case t of None \<Rightarrow> 0 | Some x \<Rightarrow> length x) \<le> length s"
proof -
  assume a: "strtok s d = (t, r)"
  let ?s = "dropWhile (\<lambda>c. c \<in> set d) s"
  have "length (takeWhile (\<lambda>c. c \<notin> set d) ?s) + length (dropWhile (\<lambda>c. c \<notin> set d) ?s) = length ?s"
    by (metis length_append takeWhile_dropWhile_id)
  moreover have "length ?s \<le> length s" by (rule length_dropWhile_le)
  ultimately show ?thesis using a by (auto simp: strtok_def Let_def split: if_splits)
qed

lemma strtok_on_left:
  "strtok_on p s d sh = (t, sh') \<Longrightarrow> left_over sh' + (case t of None \<Rightarrow> 0 | Some x \<Rightarrow> 2 * length (snd x)) \<le> 2 * length s"
  using strtok_split [of s d "fst (strtok s d)" "snd (strtok s d)"]
  by (auto simp: strtok_on_def left_over_def case_prod_unfold split: option.splits)

lemma strtok_null_left:
  assumes "strtok_null d sh = Some (t, sh')"
  shows "left_over sh' + (case t of None \<Rightarrow> 0 | Some x \<Rightarrow> 2) \<le> left_over sh"
proof -
  obtain p where p: "saved sh = Some p" "strtok_on (fst p) (snd p) d sh = (t, sh')"
    using assms by (auto simp: strtok_null_def deref_def bind_Some_iff split: option.splits if_split_asm)
  have "x \<noteq> []" if "t = Some (q, x)" for q x
    using p(2) that strtok_Some(1) [of "snd p" d x "snd (strtok (snd p) d)"]
    by (auto simp: strtok_on_def case_prod_unfold prod_eq_iff Let_def)
  then have "(case t of None \<Rightarrow> 0 | Some x \<Rightarrow> 2) \<le> (case t of None \<Rightarrow> 0 | Some x \<Rightarrow> 2 * length (snd x))"
    by (auto simp: Suc_le_eq split: option.split)
  then show ?thesis using strtok_on_left [OF p(2)] p(1) by (simp add: left_over_def)
qed

lemma left_over_upd [simp]: "left_over (sh\<lparr>machine := w\<rparr>) = left_over sh" "left_over (sh\<lparr>freed := l\<rparr>) = left_over sh"
  by (simp_all add: left_over_def)

lemma length_c_line: "length (c_line (take n s)) \<le> length s"
  using length_takeWhile_le [of "\<lambda>c. c \<noteq> NUL" "take n s"] by (simp add: c_line_def)

lemma strtok_on_bounds:
  "left_over (snd (strtok_on p s d sh)) \<le> 2 * length s + k" "left_over (snd (strtok_on p s d sh)) < 8 + (2 * length s + k)"
  "fst (strtok_on p s d sh) = Some (q, x) \<Longrightarrow> 2 * length x + left_over (snd (strtok_on p s d sh)) \<le> 2 * length s + k"
  using strtok_on_left [of p s d sh, OF prod.collapse [symmetric]] by auto

lemma step_work: "step_on os me s t sh = Some (t', sh') \<Longrightarrow> work (stage t') + left_over sh' < work s + left_over sh"
  using length_c_line [of 8191]
  by (cases "(os, me, s, t, sh)" rule: step_on.cases)
    (auto simp: Let_def bind_Some_iff malloc_def strdup_def less_Suc_eq_le deref_def case_prod_unfold strtok_on_bounds
      dest!: strtok_null_left split: if_split_asm option.splits)

lemma sum_list_updated: "i < length xs \<Longrightarrow> sum_list (map f (xs[i := x])) + f (xs ! i) = sum_list (map f xs) + (f x :: nat)"
  by (induction xs arbitrary: i) (auto split: nat.split simp: nth_Cons)

lemma run_schedule_work:
  "run_schedule os sched (ts, sh) = Some (ts', sh') \<Longrightarrow>
   length sched + sum_list (map (work \<circ> stage) ts') + left_over sh' \<le> sum_list (map (work \<circ> stage) ts) + left_over sh"
proof (induction sched arbitrary: ts sh)
  case Nil
  then show ?case by simp
next
  case (Cons i sched)
  then obtain t sh1 where i: "i < length ts" and s: "thread_step os i (ts ! i) sh = Some (t, sh1)"
    and r: "run_schedule os sched (ts[i := t], sh1) = Some (ts', sh')"
    by (auto simp: bind_Some_iff split: if_split_asm)
  have "work (stage t) + left_over sh1 < work (stage (ts ! i)) + left_over sh"
    using step_work s unfolding thread_step_def by blast
  then show ?case using Cons.IH [OF r] sum_list_updated [OF i, of "work \<circ> stage" t] by (simp add: comp_def)
qed

fun request_size :: "connection \<Rightarrow> nat" where
  "request_size (Connected g sent received) = length received"
| "request_size _ = 0"

lemma work_thread_of: "work (stage (thread_of c)) \<le> 12 + 2 * request_size c"
  by (cases c) auto

text \<open>
  C14. Every run of the server's threads ends: however they take turns, and whatever the clients sent, the
  number of steps is bounded by the number of connections and the bytes received, header loops included, although
  the threads move each other's position in the text.
\<close>

theorem schedules_end:
  assumes "run_schedule os sched (map thread_of cs, started w) = Some (ts, sh)"
  shows "length sched \<le> (\<Sum>c\<leftarrow>cs. 12 + 2 * request_size c)"
proof -
  have "sum_list (map (work \<circ> stage) (map thread_of cs)) \<le> (\<Sum>c\<leftarrow>cs. 12 + 2 * request_size c)"
    unfolding map_map by (rule sum_list_mono) (simp add: work_thread_of)
  then show ?thesis using run_schedule_work [OF assms] by (simp add: left_over_def started_def)
qed

section \<open>What holds for every schedule\<close>

text \<open>A relation that the steps of the operations respect is respected by every schedule.\<close>

context process_steps begin

lemma respond_R:
  assumes "respond os g sent p req w = Some (a, w')" "R u w"
  shows "R u w'"
proof (rule run_R [OF _ assms(1)])
  show "run_ok (respond os g sent p req w) (\<lambda>p. R u (snd p))"
    unfolding respond_def Let_def run_simps snd_conv by (safe; fast intro: assms(2) api_run_R)
qed

lemma step_R: "step_on os me s t sh = Some (t', sh') \<Longrightarrow> R u (machine sh) \<Longrightarrow> R u (machine sh')"
  by (cases "(os, me, s, t, sh)" rule: step_on.cases)
    (auto simp: Let_def bind_Some_iff case_prod_unfold strtok_null_def strtok_on_def strdup_def calls_snd intro: calls respond_R
      split: if_split_asm option.splits)

lemma schedule_R: "run_schedule os sched (ts, sh) = Some (ts', sh') \<Longrightarrow> R u (machine sh) \<Longrightarrow> R u (machine sh')"
proof (induction sched arbitrary: ts sh)
  case Nil
  then show ?case by simp
next
  case (Cons i sched)
  then show ?case by (auto simp: bind_Some_iff thread_step_def split: if_split_asm dest: step_R)
qed

end


section \<open>Two requests at the same time\<close>

text \<open>What \<open>strtok\<close> finds in a request that a well-behaved client sends.\<close>

lemma http_tokens:
  assumes "good_words m u"
  obtains line r where "strtok (http_bytes m u b) [CR, LF] = (Some line, LF # b)" "strtok line '' '' = (Some m, r)"
    "strtok r '' '' = (Some u, ''HTTP/1.1'')" "strtok ''HTTP/1.1'' '' '' = (Some ''HTTP/1.1'', [])"
proof -
  have w: "token m" "token u" "token ''HTTP/1.1''" using assms by (simp_all add: good_words_def token_def)
  let ?line = "m @ CHR '' '' # u @ CHR '' '' # ''HTTP/1.1''"
  have "strtok (?line @ CR # LF # b) [CR, LF] = (Some ?line, LF # b)"
    using w by (intro strtok_simple) (auto simp: token_def)
  moreover have "http_bytes m u b = ?line @ CR # LF # b" by (simp add: http_bytes_def request_bytes_def)
  ultimately show thesis
    using that strtok_token(1) [OF w(1)] strtok_token(1) [OF w(2)] strtok_token(2) [OF w(3)] by metis
qed

lemma parse_copy_http:
  assumes "good_words m u"
  shows "parse_copy (http_bytes m u b) req = Some (0, with_body (word_fields req m u ''HTTP/1.1'') [])"
  by (rule http_tokens [OF assms, of b]) (simp add: parse_copy_def header_loop.simps [of _ "[]"] strtok_def)

lemma handle_client_http:
  assumes "good_words m u" "alloc os (allocs w)"
  shows "handle_client os g sent (http_bytes m u beyond) w =
    respond os g sent 0 (with_body (word_fields (g_request g) m u ''HTTP/1.1'') []) (w\<lparr>allocs := Suc (allocs w)\<rparr>)"
proof -
  obtain b where "c_line (take 8191 (http_bytes m u beyond)) = http_bytes m u b" "http_bytes m u beyond \<noteq> []"
    using received_line [OF assms(1)] by blast
  then show ?thesis
    using assms(2) parse_copy_http [OF assms(1)]
    by (simp add: handle_client_respond parse_is_copy strdup_def malloc_def)
qed

lemma respond_bad:
  assumes "sized_garbage g"
  shows "respond os g sent (- 1) req w = Some (Some (wire 400 ''Bad Request'' ''Invalid HTTP request''), w)"
proof -
  obtain r where "create_http_response (g_response g) 400 ''Bad Request'' (Some ''Invalid HTTP request'') = Some r"
    "answers r 400 ''Bad Request'' ''Invalid HTTP request''"
    by (rule create_http_response_answers [of "g_response g" "''Bad Request''" "''Invalid HTTP request''" 400])
      (use assms in \<open>simp_all add: sized_garbage_def\<close>)
  then show ?thesis using response_text_answers by (simp add: respond_def send_http_response_def)
qed

text \<open>
  Both threads have split off their request line and their method when the first one goes on: it takes URL
  and version from the second request.
\<close>

definition crossing :: "nat list" where
  "crossing = [0, 1, 0, 1, 0, 0, 1, 1, 0, 0, 0, 0, 0, 0, 0, 0, 1, 1, 1, 1, 1]"

lemma crossing_run:
  assumes "good_words m1 u1" "good_words m2 u2" "\<forall>n. alloc os n"
    and "respond os g1 s1 0 (with_body (word_fields (g_request g1) m1 u2 ''HTTP/1.1'') []) (w\<lparr>allocs := Suc (Suc (Suc (Suc (allocs w))))\<rparr>) = Some (a, w1)"
    and "respond os g2 s2 (- 1) (g_request g2) w1 = Some (c, w2)"
  shows "\<exists>ts sh. run_schedule os crossing
      (map thread_of [Connected g1 s1 (http_bytes m1 u1 b1), Connected g2 s2 (http_bytes m2 u2 b2)],
       \<lparr>saved = None, freed = [], machine = w\<rparr>) = Some (ts, sh) \<and>
    map stage ts = [Answered a, Answered c] \<and> machine sh = w2"
proof -
  obtain d1 where d1: "c_line (take 8191 (http_bytes m1 u1 b1)) = http_bytes m1 u1 d1" "http_bytes m1 u1 b1 \<noteq> []"
    using received_line [OF assms(1)] by blast
  obtain d2 where d2: "c_line (take 8191 (http_bytes m2 u2 b2)) = http_bytes m2 u2 d2" "http_bytes m2 u2 b2 \<noteq> []"
    using received_line [OF assms(2)] by blast
  obtain l1 r1 where t1: "strtok (http_bytes m1 u1 d1) [CR, LF] = (Some l1, LF # d1)" "strtok l1 '' '' = (Some m1, r1)"
    by (rule http_tokens [OF assms(1), of d1])
  obtain l2 r2 where t2: "strtok (http_bytes m2 u2 d2) [CR, LF] = (Some l2, LF # d2)" "strtok l2 '' '' = (Some m2, r2)"
    "strtok r2 '' '' = (Some u2, ''HTTP/1.1'')" "strtok ''HTTP/1.1'' '' '' = (Some ''HTTP/1.1'', [])"
    by (rule http_tokens [OF assms(2), of d2])
  have e: "strtok [] d = (None, [])" for d by (simp add: strtok_def)
  note wf = assms(4) [unfolded with_body_def word_fields_def e fst_conv option.case]
  show ?thesis
    unfolding crossing_def
    using assms(3,5) wf
    by (simp add: thread_step_def malloc_def strdup_def d1 d2 t1 t2 e strtok_on_def strtok_null_def deref_def Let_def
        del: append.simps)
qed

text \<open>
  C11. Two clients at the same time: some schedule makes the daemon execute the method of the first request on
  the URL of the second, exactly as if a client had sent that request, and answer the second client with 400. With
  a DELETE of one image and a GET about another, the image nobody asked to delete is removed.
\<close>

theorem requests_mixed:
  assumes "good_words m1 u1" "good_words m2 u2" "good_words m1 u2" "sized_garbage g2" "\<forall>n. alloc os n"
    and "handle_client os g1 s1 (http_bytes m1 u2 b) (w\<lparr>allocs := allocs w + 3\<rparr>) = Some (a, w1)"
  shows "\<exists>sched ts sh. run_schedule os sched
      (map thread_of [Connected g1 s1 (http_bytes m1 u1 b1), Connected g2 s2 (http_bytes m2 u2 b2)], started w) = Some (ts, sh) \<and>
    map stage ts = [Answered a, Answered (Some (wire 400 ''Bad Request'' ''Invalid HTTP request''))] \<and> machine sh = w1"
proof -
  have "respond os g1 s1 0 (with_body (word_fields (g_request g1) m1 u2 ''HTTP/1.1'') [])
      (w\<lparr>allocs := Suc (Suc (Suc (Suc (allocs w))))\<rparr>) = Some (a, w1)"
    using assms(6) handle_client_http [OF assms(3), of os "w\<lparr>allocs := allocs w + 3\<rparr>" g1 s1 b] assms(5)
    by (simp add: eval_nat_numeral)
  note r = crossing_run [OF assms(1,2,5) this respond_bad [OF assms(4)], of b1 s2 b2]
  show ?thesis unfolding started_def by (rule exI [of _ crossing]) (rule r)
qed

theorem requests_mixed_witness:
  "\<exists>w sched ts sh. lookup w (image_metadata_path ''new'') \<noteq> None \<and>
    run_schedule calm_os sched
      (map thread_of [Connected zero_garbage True (http_bytes ''DELETE'' ''/images/old'' []),
                      Connected zero_garbage True (http_bytes ''GET'' ''/images/new'' [])], started w) = Some (ts, sh) \<and>
    lookup (machine sh) (image_metadata_path ''new'') = None"
proof -
  let ?w = "put (image_metadata_path ''new'') (File []) store_world"
  have i: "image_word ''new''" by (simp add: image_word_def)
  have g: "good_words ''DELETE'' ''/images/old''" "good_words ''GET'' ''/images/new''" "good_words ''DELETE'' ''/images/new''"
    by (simp_all add: good_words_def token_def)
  obtain e w1 where r: "remove_image calm_os ''new'' (?w\<lparr>allocs := Suc (allocs ?w + 3)\<rparr>) = (e, w1)" by fastforce
  have "lookup (snd (remove_image calm_os ''new'' (?w\<lparr>allocs := Suc (allocs ?w + 3)\<rparr>))) (image_metadata_path ''new'') = None"
    by code_simp
  then have l: "lookup w1 (image_metadata_path ''new'') = None" using r by simp
  obtain a where h: "handle_client calm_os zero_garbage True (http_bytes ''DELETE'' ''/images/new'' []) (?w\<lparr>allocs := allocs ?w + 3\<rparr>) =
      Some (a, w1)"
    using image_remove_run [OF i zero_garbage_sized, of calm_os "?w\<lparr>allocs := allocs ?w + 3\<rparr>" e w1 True "[]"] r by simp
  have al: "\<forall>n. alloc calm_os n" by simp
  obtain sched ts sh where "run_schedule calm_os sched
      (map thread_of [Connected zero_garbage True (http_bytes ''DELETE'' ''/images/old'' []),
                      Connected zero_garbage True (http_bytes ''GET'' ''/images/new'' [])], started ?w) = Some (ts, sh)"
    "machine sh = w1"
    using requests_mixed [OF g zero_garbage_sized al h, of "[]" True "[]"] by (elim exE conjE)
  then show ?thesis using l by (intro exI [of _ ?w] exI [of _ sched] exI [of _ ts] exI [of _ sh]) (simp add: fs_simps)
qed

section \<open>Requests that leave the processes alone, in every schedule\<close>

text \<open>
  A thread whose request begins with the method \<open>m\<close>, at every stage: whatever the other threads do, its
  method word is its own.
\<close>

definition asks_with :: "string \<Rightarrow> string \<Rightarrow> bool" where
  "asks_with m s \<longleftrightarrow> (\<exists>x. s = m @ CHR '' '' # x)"

fun keeps_method :: "string \<Rightarrow> stage \<Rightarrow> http_request \<Rightarrow> bool" where
  "keeps_method m (Accepted b s) req \<longleftrightarrow> asks_with m s \<and> length (rmethod req) = 16 \<or> \<not> b"
| "keeps_method m (Running s) req \<longleftrightarrow> asks_with m s \<and> length (rmethod req) = 16"
| "keeps_method m (Line s) req \<longleftrightarrow> asks_with m s \<and> length (rmethod req) = 16"
| "keeps_method m (Method l) req \<longleftrightarrow> asks_with m (snd l) \<and> length (rmethod req) = 16"
| "keeps_method m (Url t) req \<longleftrightarrow> map_option snd t = Some m \<and> length (rmethod req) = 16"
| "keeps_method m (Version t u) req \<longleftrightarrow> map_option snd t = Some m \<and> length (rmethod req) = 16"
| "keeps_method m (Words t u v) req \<longleftrightarrow> map_option snd t = Some m \<and> length (rmethod req) = 16"
| "keeps_method m (Free r) req \<longleftrightarrow> r = 0 \<longrightarrow> cstr (rmethod req) = Some m"
| "keeps_method m (Parsed r) req \<longleftrightarrow> r = 0 \<longrightarrow> cstr (rmethod req) = Some m"
| "keeps_method m (Answered a) req \<longleftrightarrow> True"
| "keeps_method m Dropped req \<longleftrightarrow> True"
| "keeps_method m _ req \<longleftrightarrow> cstr (rmethod req) = Some m"

lemma asks_with_line:
  assumes "asks_with m s" "token m"
  shows "\<exists>line r. strtok s [CR, LF] = (Some line, r) \<and> asks_with m line"
proof -
  obtain x where s: "s = m @ CHR '' '' # x" using assms(1) by (auto simp: asks_with_def)
  have "dropWhile (\<lambda>c. c \<in> set [CR, LF]) s = s" using assms(2) by (cases m) (auto simp: s token_def)
  moreover have "takeWhile (\<lambda>c. c \<notin> set [CR, LF]) s = m @ CHR '' '' # takeWhile (\<lambda>c. c \<notin> set [CR, LF]) x"
    unfolding s using assms(2) by (subst takeWhile_append2) (auto simp: token_def)
  ultimately show ?thesis by (auto simp: strtok_def asks_with_def s)
qed

lemma asks_with_method: "asks_with m s \<Longrightarrow> token m \<Longrightarrow> \<exists>r. strtok s '' '' = (Some m, r)"
  using strtok_token(1) by (auto simp: asks_with_def)

lemma asks_with_c_line:
  assumes "asks_with m s" "token m" "length m < 15"
  shows "asks_with m (c_line (take 8191 s))"
proof -
  obtain x where s: "s = m @ CHR '' '' # x" using assms(1) by (auto simp: asks_with_def)
  have "take 8191 s = m @ CHR '' '' # take (8190 - length m) x" using assms(3) by (simp add: s take_Cons')
  moreover have "c_line (m @ CHR '' '' # z) = m @ CHR '' '' # c_line z" for z
    unfolding c_line_def using assms(2) by (subst takeWhile_append2) (auto simp: token_def no_nul_def)
  ultimately show ?thesis by (auto simp: asks_with_def)
qed

lemma step_keeps_method:
  assumes "step_on os me s t sh = Some (t', sh')" "keeps_method m s (trequest t)" "token m" "length m < 15"
  shows "keeps_method m (stage t') (trequest t')"
proof -
  have c: "cstr (strncpy_sz b m) = Some m" if "length b = 16" for b
    using assms(3,4) that by (intro cstr_strncpy_short) (simp_all add: token_def)
  show ?thesis
  proof (cases s)
    case (Line copy)
    then obtain l r where "strtok copy [CR, LF] = (Some l, r)" "asks_with m l"
      using asks_with_line assms(2,3) by fastforce
    then show ?thesis using assms(1,2) Line by (auto simp: strtok_on_def)
  next
    case (Method l)
    then obtain r where "strtok (snd l) '' '' = (Some m, r)" using asks_with_method assms(2,3) by fastforce
    then show ?thesis using assms(1,2) Method by (auto simp: strtok_on_def deref_def split: if_split_asm)
  next
    case (Words a b d)
    then show ?thesis using assms(1,2) c
      by (cases a; cases b; cases d) (auto simp: deref_def Let_def split: if_split_asm)
  next
    case (Running s)
    then show ?thesis using assms(1,2) asks_with_c_line [OF _ assms(3,4)]
      by (auto simp: Let_def strdup_def malloc_def split: if_split_asm)
  next
    case (Body_copy b)
    then show ?thesis using assms(1,2) by (cases b) (auto simp: Let_def bind_Some_iff)
  qed (use assms(1,2) in \<open>auto simp: Let_def bind_Some_iff malloc_def split: if_split_asm option.splits\<close>)
qed

lemma respond_quiet:
  assumes "respond os g sent p req w = Some (a, w')" "p = 0 \<longrightarrow> cstr (rmethod req) \<noteq> Some ''GET''"
  shows "same_processes w w'"
proof (rule run_okI [of _ "(a, w')" "\<lambda>x. same_processes w (snd x)", OF assms(1), simplified])
  have "run_ok (handle_api_request os g req r w) (\<lambda>x. same_processes w (snd (snd x)))" if "p = 0" for r
    using assms(2) that by (intro quiet.quiet_api_R) (auto simp: quiet.R_refl)
  then show "run_ok (respond os g sent p req w) (\<lambda>x. same_processes w (snd x))"
    by (auto simp: respond_def run_simps quiet.R_refl) (auto simp: run_ok_def)
qed

lemma step_quiet:
  assumes "step_on os me s t sh = Some (t', sh')" "keeps_method m s (trequest t)" "m \<noteq> ''GET''"
  shows "same_processes (machine sh) (machine sh')"
  using assms
  by (cases "(os, me, s, t, sh)" rule: step_on.cases)
    (auto simp: Let_def bind_Some_iff case_prod_unfold strtok_null_def strtok_on_def strdup_def malloc_def quiet.R_refl
      same_processes_def dest!: respond_quiet [unfolded same_processes_def] split: if_split_asm option.splits)

definition writing :: "thread \<Rightarrow> bool" where
  "writing t \<longleftrightarrow> (\<exists>m. token m \<and> length m < 15 \<and> m \<noteq> ''GET'' \<and> keeps_method m (stage t) (trequest t))"

lemma schedule_quiet:
  "run_schedule os sched (ts, sh) = Some (ts', sh') \<Longrightarrow> \<forall>t \<in> set ts. writing t \<Longrightarrow> same_processes (machine sh) (machine sh')"
proof (induction sched arbitrary: ts sh)
  case Nil
  then show ?case by (simp add: quiet.R_refl)
next
  case (Cons i sched)
  then obtain t sh1 where i: "i < length ts" and s: "step_on os i (stage (ts ! i)) (ts ! i) sh = Some (t, sh1)"
    and r: "run_schedule os sched (ts[i := t], sh1) = Some (ts', sh')"
    by (auto simp: bind_Some_iff thread_step_def split: if_split_asm)
  obtain m where m: "token m" "length m < 15" "m \<noteq> ''GET''" "keeps_method m (stage (ts ! i)) (trequest (ts ! i))"
    using Cons.prems(2) i nth_mem unfolding writing_def by blast
  have "writing t" using step_keeps_method [OF s m(4,1,2)] m unfolding writing_def by blast
  then have "\<forall>t \<in> set (ts[i := t]). writing t" using Cons.prems(2) set_update_subset_insert by fastforce
  then show ?case using Cons.IH [OF r] step_quiet [OF s m(4,3)] quiet.R_trans by blast
qed

text \<open>A connection whose client does not begin with the word GET.\<close>

fun writer :: "connection \<Rightarrow> bool" where
  "writer (Connected g sent received) \<longleftrightarrow>
     (\<exists>m. token m \<and> length m < 15 \<and> m \<noteq> ''GET'' \<and> asks_with m received) \<and> length (rmethod (g_request g)) = 16"
| "writer _ \<longleftrightarrow> True"

lemma writer_writing:
  assumes "writer c"
  shows "writing (thread_of c)"
proof (cases c)
  case (Connected g sent received)
  then show ?thesis using assms unfolding writing_def by auto
qed (auto simp: writing_def token_def no_nul_def intro!: exI [of _ "''PUT''"])

text \<open>
  C13. When no client begins its request with the word GET, no interleaving of the threads starts, signals
  or reaps a process: URL and headers may come from another client, the method of a thread is always its own.
\<close>

theorem writers_keep_processes:
  assumes "run_schedule os sched (map thread_of cs, started w) = Some (ts, sh)" "list_all writer cs"
  shows "children (machine sh) = children w \<and> signals (machine sh) = signals w \<and> clones (machine sh) = clones w"
proof -
  have "\<forall>t \<in> set (map thread_of cs). writing t" using assms(2) writer_writing by (auto simp: list_all_iff)
  from schedule_quiet [OF assms(1) this] show ?thesis by (simp add: same_processes_def started_def)
qed

text \<open>
  C23. A thread that no other thread interrupts computes \<open>handle_client\<close>, from whatever position and
  world the others left: the same answer and world, and an undefined step exactly where \<open>handle_client\<close> is
  undefined.
\<close>

theorem thread_alone:
  assumes "stage t = Running received" "trequest t = g_request (stack t)" "me \<notin> set (freed sh)"
  shows "yields os me t sh r \<longleftrightarrow> r = handle_client os (stack t) (sends t) received (machine sh)"
  using from_running [OF assms(1,3,2)] yields_unique by blast

section \<open>Instances\<close>

lemma version_answer:
  assumes "m = ''GET'' \<or> m = ''POST''"
  shows "handle_client calm_os zero_garbage True (http_bytes m ''/version'' []) w =
    Some (Some (wire 404 ''Not Found'' (not_found_text ''/version'')), w\<lparr>allocs := Suc (allocs w)\<rparr>)"
proof -
  have g: "good_words m ''/version''" using assms by (auto simp: good_words_def token_def)
  have n: "\<not> routed m ''/version''" by (simp add: routed_def contains_def)
  show ?thesis by (rule serve_reply [OF g zero_garbage_sized _ api_not_found [OF _ n]]) (simp_all add: not_found_text_def)
qed

definition two_posts :: "connection list" where
  "two_posts = [Connected zero_garbage True (http_bytes ''POST'' ''/version'' []),
                Connected zero_garbage True (http_bytes ''POST'' ''/version'' [])]"

lemma two_posts_run: "\<exists>ts sh. run_schedule calm_os crossing (map thread_of two_posts, started empty_world) = Some (ts, sh)"
proof -
  have g: "good_words ''POST'' ''/version''" by (simp add: good_words_def token_def)
  let ?w = "empty_world\<lparr>allocs := Suc (Suc (Suc (allocs empty_world)))\<rparr>"
  obtain a w1 where r: "respond calm_os zero_garbage True 0 (with_body (word_fields (g_request zero_garbage) ''POST'' ''/version'' ''HTTP/1.1'') [])
      (?w\<lparr>allocs := Suc (allocs ?w)\<rparr>) = Some (a, w1)"
    using version_answer [of "''POST''" ?w] handle_client_http [OF g calm_alloc, where w = ?w and g = zero_garbage and sent = True and beyond = "[]"] by auto
  have al: "\<forall>n. alloc calm_os n" by simp
  show ?thesis
    using crossing_run [OF g g al _ respond_bad [OF zero_garbage_sized]] r
    unfolding two_posts_def started_def by (simp add: world.simps) blast
qed

theorem thread_alone_witness:
  "yields calm_os 7 \<lparr>stage = Running (http_bytes ''GET'' ''/version'' []), trequest = g_request zero_garbage, stack = zero_garbage, sends = True\<rparr>
     \<lparr>saved = Some (3, ''left over''), freed = [3], machine = empty_world\<rparr>
     (Some (Some (wire 404 ''Not Found'' (not_found_text ''/version'')), empty_world\<lparr>allocs := 1\<rparr>))"
  using thread_alone [of "\<lparr>stage = Running (http_bytes ''GET'' ''/version'' []), trequest = g_request zero_garbage, stack = zero_garbage, sends = True\<rparr>"
      "http_bytes ''GET'' ''/version'' []" 7 "\<lparr>saved = Some (3, ''left over''), freed = [3], machine = empty_world\<rparr>" calm_os]
    version_answer [of "''GET''" empty_world]
  by (simp add: empty_world_def)

theorem serve_is_a_schedule_witness:
  "\<exists>sched ts sh. run_schedule calm_os sched
      (map thread_of [Accept_failed, Connected zero_garbage True (http_bytes ''GET'' ''/version'' [])], started empty_world) = Some (ts, sh) \<and>
    list_all (\<lambda>t. finished (stage t)) ts \<and> given_answers ts = [Some (wire 404 ''Not Found'' (not_found_text ''/version''))]"
proof -
  have "serve calm_os [Accept_failed, Connected zero_garbage True (http_bytes ''GET'' ''/version'' [])] empty_world =
      Some ([Some (wire 404 ''Not Found'' (not_found_text ''/version''))], empty_world\<lparr>allocs := 2\<rparr>)"
    using version_answer [of "''GET''"] by (simp add: malloc_def empty_world_def)
  from serve_is_a_schedule [OF this] show ?thesis by blast
qed

theorem schedules_end_witness:
  "\<exists>ts sh. run_schedule calm_os crossing (map thread_of two_posts, started empty_world) = Some (ts, sh) \<and>
    length crossing \<le> (\<Sum>c\<leftarrow>two_posts. 12 + 2 * request_size c)"
  using two_posts_run schedules_end by blast


theorem writers_keep_processes_witness:
  "\<exists>ts sh. run_schedule calm_os crossing (map thread_of two_posts, started empty_world) = Some (ts, sh) \<and> signals (machine sh) = []"
proof -
  obtain ts sh where r: "run_schedule calm_os crossing (map thread_of two_posts, started empty_world) = Some (ts, sh)"
    using two_posts_run by blast
  have "token ''POST''" "length ''POST'' < 15" "''POST'' \<noteq> ''GET''" "asks_with ''POST'' (http_bytes ''POST'' ''/version'' [])"
    by (simp_all add: token_def asks_with_def http_bytes_def request_bytes_def)
  then have "list_all writer two_posts" by (auto simp: two_posts_def zero_garbage_def zero_request_def)
  from writers_keep_processes [OF r this] r show ?thesis by (simp add: empty_world_def)
qed

end
