(* ===== verification/Client.thy ===== *)
theory Client imports Effects begin

text \<open>
  The command line client's calls to the daemon, \<open>core/client.c\<close>: connecting, the request text, the
  answer, and one function per command. The socket calls are inputs, collected in the record \<open>peer\<close>;
  the daemon at the other end is a function on its own state \<open>'d\<close>, so that the model can be connected
  to the server of \<open>Http\<close>. A command's result is its return value, what it prints on the standard
  output, and the daemon's new state.
\<close>

section \<open>The connection\<close>

record 'd peer =
  p_socket :: int \<comment> \<open>what \<open>socket\<close> returns\<close>
  p_inet :: int \<comment> \<open>what \<open>inet_pton\<close> returns for the host\<close>
  p_connect :: int \<comment> \<open>what \<open>connect\<close> returns\<close>
  p_send :: int \<comment> \<open>what \<open>send\<close> returns\<close>
  p_exchange :: "string \<Rightarrow> 'd \<Rightarrow> (string option \<times> 'd) option"
    \<comment> \<open>what \<open>recv\<close> delivers after the text was sent; \<open>None\<close> when it fails\<close>
  p_status :: int \<comment> \<open>the uninitialised \<open>status_code\<close>\<close>
  p_body :: buf \<comment> \<open>the uninitialised \<open>response_body\<close>\<close>

definition connect_to_daemon :: "'d peer \<Rightarrow> int" where
  "connect_to_daemon l =
     (if p_socket l < 0 then - 1
      else if p_inet l \<le> 0 then - 1
      else if p_connect l < 0 then - 1
      else p_socket l)"

definition create_http_request :: "string \<Rightarrow> string \<Rightarrow> string option \<Rightarrow> string" where
  "create_http_request meth ur bdy =
     (let body_length = (case bdy of Some b \<Rightarrow> int (length b) | None \<Rightarrow> 0)
      in snprintf 4096
           (meth @ '' '' @ ur @ '' HTTP/1.1'' @ [CR, LF] @ ''Host: localhost'' @ [CR, LF] @
            ''Content-Type: application/json'' @ [CR, LF] @ ''Content-Length: '' @ dec_int body_length @ [CR, LF] @
            ''Connection: close'' @ [CR, LF] @ [CR, LF] @ (case bdy of Some b \<Rightarrow> b | None \<Rightarrow> [])))"

text \<open>The daemon reads until the client waits for the answer, so what it will deliver is settled here;
  when \<open>send\<close> fails it sees a connection without a request.\<close>

definition send_request_to_daemon ::
  "'d peer \<Rightarrow> string \<Rightarrow> string \<Rightarrow> string option \<Rightarrow> 'd \<Rightarrow> (int \<times> string option \<times> 'd) option" where
  "send_request_to_daemon l meth ur bdy d =
     (let request = create_http_request meth ur bdy
      in if p_send l < 0 then p_exchange l [] d \<bind> (\<lambda>(answer, d1). Some (- 1, answer, d1))
         else p_exchange l request d \<bind> (\<lambda>(answer, d1). Some (0, answer, d1)))"

definition receive_response_from_daemon :: "string option \<Rightarrow> nat \<Rightarrow> int \<times> string" where
  "receive_response_from_daemon answer max_size =
     (case answer of
        None \<Rightarrow> (- 1, [])
      | Some s \<Rightarrow> let response = take (max_size - 1) s in (int (length response), c_line response))"

definition parse_http_response :: "string \<Rightarrow> int \<Rightarrow> buf \<Rightarrow> (int \<times> int \<times> buf) option" where
  "parse_http_response response code bdy =
     (case strstr response ''HTTP/1.1 '' of
        None \<Rightarrow> Some (- 1, code, bdy)
      | Some status_line \<Rightarrow>
          scan_int_into (sscanf status_line ''HTTP/1.1 %d'') code \<bind> (\<lambda>code1.
            case strstr response [CR, LF, CR, LF] of
              None \<Rightarrow> Some (- 1, code1, bdy)
            | Some body_start \<Rightarrow> strcpy bdy (drop 4 body_start) \<bind> (\<lambda>bdy1. Some (0, code1, bdy1))))"

text \<open>Connecting, sending, receiving and parsing, the steps that open every command; \<open>None\<close> inside is
  one of the four early returns.\<close>

definition talk ::
  "'d peer \<Rightarrow> string \<Rightarrow> string \<Rightarrow> string option \<Rightarrow> 'd \<Rightarrow> ((int \<times> string) option \<times> 'd) option" where
  "talk l meth ur bdy d =
     (if connect_to_daemon l < 0 then Some (None, d)
      else do {
        (s, answer, d1) \<leftarrow> send_request_to_daemon l meth ur bdy d;
        (if s \<noteq> 0 then Some (None, d1)
         else
           let (n, response) = receive_response_from_daemon answer 8192 in
           if n < 0 then Some (None, d1)
           else do {
             (p, code, b) \<leftarrow> parse_http_response response (p_status l) (p_body l);
             (if p \<noteq> 0 then Some (None, d1)
              else cstr b \<bind> (\<lambda>t. Some (Some (code, t), d1)))
           })
      })"

section \<open>Printing listings\<close>

text \<open>
  The text between \<open>off\<close> bytes behind the first occurrence of \<open>key\<close> and the next \<open>stop\<close>; the
  inner \<open>None\<close> prints nothing. Reading behind the terminator is undefined.
\<close>

definition skip_key :: "string \<Rightarrow> string \<Rightarrow> nat \<Rightarrow> string option option" where
  "skip_key json key off =
     (case strstr json key of
        None \<Rightarrow> Some None
      | Some s \<Rightarrow> if length s < off then None else Some (Some (drop off s)))"

definition upto_char :: "string \<Rightarrow> char \<Rightarrow> string option" where
  "upto_char s stop = (case strchr s stop of None \<Rightarrow> None | Some e \<Rightarrow> Some (take (length s - length e) s))"

definition column :: "string option \<Rightarrow> string \<Rightarrow> string" where
  "column t sep = (case t of None \<Rightarrow> [] | Some s \<Rightarrow> s @ sep)"

definition quoted_field :: "string \<Rightarrow> string \<Rightarrow> nat \<Rightarrow> string \<Rightarrow> string option" where
  "quoted_field json key off sep =
     skip_key json key off \<bind> (\<lambda>s. Some (column (s \<bind> (\<lambda>t. upto_char t DQ)) sep))"

definition number_field :: "string \<Rightarrow> string \<Rightarrow> nat \<Rightarrow> string \<Rightarrow> string option" where
  "number_field json key off sep =
     skip_key json key off \<bind> (\<lambda>s. Some (column (s \<bind> (\<lambda>t.
       case upto_char t (CHR '','') of Some e \<Rightarrow> Some e | None \<Rightarrow> upto_char t (CHR ''}''))) sep))"

definition print_containers_json :: "string \<Rightarrow> string option" where
  "print_containers_json json = do {
     cid \<leftarrow> quoted_field json ''\"Id\":\"'' 6 ''    '';
     name \<leftarrow> quoted_field json ''\"Names\":[\"'' 11 ''    '';
     img \<leftarrow> quoted_field json ''\"Image\":\"'' 9 ''    '';
     cmd \<leftarrow> quoted_field json ''\"Command\":\"'' 11 ''    '';
     created \<leftarrow> number_field json ''\"Created\":'' 10 ''    '';
     status \<leftarrow> quoted_field json ''\"Status\":\"'' 10 [LF];
     Some (''CONTAINER ID    IMAGE    COMMAND    CREATED    STATUS'' @ [LF] @
           ''----------------------------------------------------'' @ [LF] @
           cid @ name @ img @ cmd @ created @ status)
   }"

definition print_images_json :: "string \<Rightarrow> string option" where
  "print_images_json json = do {
     tags \<leftarrow> skip_key json ''\"RepoTags\":[\"'' 13;
     let repo = column (tags \<bind> (\<lambda>t. upto_char t (CHR '':''))) ''    '';
     let tag = column (tags \<bind> (\<lambda>t. strchr t (CHR '':'') \<bind> (\<lambda>c. upto_char (tl c) DQ))) ''    '';
     iid \<leftarrow> quoted_field json ''\"Id\":\"'' 6 ''    '';
     created \<leftarrow> number_field json ''\"Created\":'' 10 ''    '';
     sz \<leftarrow> number_field json ''\"Size\":'' 7 [LF];
     Some (''REPOSITORY    TAG    IMAGE ID    CREATED    SIZE'' @ [LF] @
           ''------------------------------------------------'' @ [LF] @
           repo @ tag @ iid @ created @ sz)
   }"

section \<open>The commands\<close>

definition run_request_body ::
  "string option \<Rightarrow> string option \<Rightarrow> string option \<Rightarrow> string option \<Rightarrow> string option \<Rightarrow> string option \<Rightarrow>
   int \<Rightarrow> int \<Rightarrow> int \<Rightarrow> string" where
  "run_request_body img command wd env ports vols interactive tty detach =
     snprintf 1024
        (''{\"Image\":\"'' @ or_default img ''ubuntu'' @ ''\",\"Cmd\":[\"'' @ or_default command [] @
         ''\"],\"WorkingDir\":\"'' @ or_default wd ''/'' @ ''\",\"Env\":[\"'' @ or_default env [] @
         ''\"],\"PortBindings\":\"'' @ or_default ports [] @ ''\",\"Binds\":[\"'' @ or_default vols [] @
         ''\"],\"AttachStdin\":'' @ (if interactive \<noteq> 0 then ''true'' else ''false'') @
         '',\"AttachStdout\":'' @ (if tty \<noteq> 0 then ''true'' else ''false'') @
         '',\"Detach\":'' @ (if detach \<noteq> 0 then ''true'' else ''false'') @ ''}'')"

definition docker_run ::
  "'d peer \<Rightarrow> string option \<Rightarrow> string option \<Rightarrow> string option \<Rightarrow> string option \<Rightarrow> string option \<Rightarrow> string option \<Rightarrow>
   string option \<Rightarrow> int \<Rightarrow> int \<Rightarrow> int \<Rightarrow> 'd \<Rightarrow> (int \<times> string \<times> 'd) option" where
  "docker_run l img command name wd env ports vols interactive tty detach d =
     (let request_body = run_request_body img command wd env ports vols interactive tty detach
      in talk l ''POST'' ''/containers/create'' (Some request_body) d \<bind> (\<lambda>(a, d1).
        case a of
          None \<Rightarrow> Some (- 1, [], d1)
        | Some (code, b) \<Rightarrow>
            if code = 201 then Some (0, ''Container created successfully'' @ [LF], d1) else Some (- 1, [], d1)))"

definition docker_build ::
  "'d peer \<Rightarrow> string option \<Rightarrow> string option \<Rightarrow> string option \<Rightarrow> 'd \<Rightarrow> (int \<times> string \<times> 'd) option" where
  "docker_build l image_name dockerfile_path context_path d =
     (let ur = snprintf 512 (''/build?t='' @ or_default image_name ''myimage'' @ ''&dockerfile='' @
                             or_default dockerfile_path ''Dockerfile'')
      in talk l ''POST'' ur None d \<bind> (\<lambda>(a, d1).
        case a of
          None \<Rightarrow> Some (- 1, [], d1)
        | Some (code, b) \<Rightarrow>
            if code = 200 then Some (0, ''Image built successfully'' @ [LF], d1) else Some (- 1, [], d1)))"

definition docker_images :: "'d peer \<Rightarrow> 'd \<Rightarrow> (int \<times> string \<times> 'd) option" where
  "docker_images l d =
     talk l ''GET'' ''/images/json'' None d \<bind> (\<lambda>(a, d1).
       case a of
         None \<Rightarrow> Some (- 1, [], d1)
       | Some (code, b) \<Rightarrow>
           if code = 200 then print_images_json b \<bind> (\<lambda>t. Some (0, t, d1)) else Some (- 1, [], d1))"

definition docker_containers :: "'d peer \<Rightarrow> 'd \<Rightarrow> (int \<times> string \<times> 'd) option" where
  "docker_containers l d =
     talk l ''GET'' ''/containers/json'' None d \<bind> (\<lambda>(a, d1).
       case a of
         None \<Rightarrow> Some (- 1, [], d1)
       | Some (code, b) \<Rightarrow>
           if code = 200 then print_containers_json b \<bind> (\<lambda>t. Some (0, t, d1)) else Some (- 1, [], d1))"

definition docker_ps :: "'d peer \<Rightarrow> 'd \<Rightarrow> (int \<times> string \<times> 'd) option" where
  "docker_ps l d = docker_containers l d"

definition docker_stop :: "'d peer \<Rightarrow> string option \<Rightarrow> 'd \<Rightarrow> (int \<times> string \<times> 'd) option" where
  "docker_stop l container_id d =
     (case container_id of
        None \<Rightarrow> Some (- 1, [], d)
      | Some cid \<Rightarrow>
          talk l ''POST'' (snprintf 512 (''/containers/'' @ cid @ ''/stop'')) None d \<bind> (\<lambda>(a, d1).
            case a of
              None \<Rightarrow> Some (- 1, [], d1)
            | Some (code, b) \<Rightarrow>
                if code = 204 then Some (0, ''Container '' @ cid @ '' stopped'' @ [LF], d1) else Some (- 1, [], d1)))"

definition docker_rm :: "'d peer \<Rightarrow> string option \<Rightarrow> 'd \<Rightarrow> (int \<times> string \<times> 'd) option" where
  "docker_rm l container_id d =
     (case container_id of
        None \<Rightarrow> Some (- 1, [], d)
      | Some cid \<Rightarrow>
          talk l ''DELETE'' (snprintf 512 (''/containers/'' @ cid @ ''/remove'')) None d \<bind> (\<lambda>(a, d1).
            case a of
              None \<Rightarrow> Some (- 1, [], d1)
            | Some (code, b) \<Rightarrow>
                if code = 204 then Some (0, ''Container '' @ cid @ '' removed'' @ [LF], d1) else Some (- 1, [], d1)))"

definition docker_rmi :: "'d peer \<Rightarrow> string option \<Rightarrow> 'd \<Rightarrow> (int \<times> string \<times> 'd) option" where
  "docker_rmi l image_name d =
     (case image_name of
        None \<Rightarrow> Some (- 1, [], d)
      | Some name \<Rightarrow>
          talk l ''DELETE'' (snprintf 512 (''/images/'' @ name)) None d \<bind> (\<lambda>(a, d1).
            case a of
              None \<Rightarrow> Some (- 1, [], d1)
            | Some (code, b) \<Rightarrow>
                if code = 200 then Some (0, ''Image '' @ name @ '' removed'' @ [LF], d1) else Some (- 1, [], d1)))"

text \<open>Three commands are stubs: they print and never call the daemon.\<close>

definition docker_logs :: "string option \<Rightarrow> int \<times> string" where
  "docker_logs container_id =
     (case container_id of
        None \<Rightarrow> (- 1, [])
      | Some cid \<Rightarrow> (0, ''Logs for container '' @ cid @ '':'' @ [LF] @ ''(Logs functionality not yet implemented)'' @ [LF]))"

definition docker_exec :: "string option \<Rightarrow> string option \<Rightarrow> int \<times> string" where
  "docker_exec container_id command =
     (case (container_id, command) of
        (Some cid, Some cmd) \<Rightarrow>
          (0, ''Executing '' @ [CHR 0x27] @ cmd @ [CHR 0x27] @ '' in container '' @ cid @ [LF] @
              ''(Exec functionality not yet implemented)'' @ [LF])
      | _ \<Rightarrow> (- 1, []))"

definition docker_commit :: "string option \<Rightarrow> string option \<Rightarrow> string option \<Rightarrow> int \<times> string" where
  "docker_commit container_id image_name message =
     (case (container_id, image_name) of
        (Some cid, Some name) \<Rightarrow>
          (0, ''Committing container '' @ cid @ '' to image '' @ name @ [LF] @
              (case message of None \<Rightarrow> [] | Some m \<Rightarrow> ''Message: '' @ m @ [LF]) @
              ''(Commit functionality not yet implemented)'' @ [LF])
      | _ \<Rightarrow> (- 1, []))"

definition docker_version :: "'d peer \<Rightarrow> 'd \<Rightarrow> (int \<times> string \<times> 'd) option" where
  "docker_version l d =
     talk l ''GET'' ''/version'' None d \<bind> (\<lambda>(a, d1).
       case a of
         None \<Rightarrow> Some (- 1, [], d1)
       | Some (code, b) \<Rightarrow>
           if code = 200 then Some (0, ''Docker version information:'' @ [LF] @ b @ [LF], d1) else Some (- 1, [], d1))"

definition docker_info :: "'d peer \<Rightarrow> 'd \<Rightarrow> (int \<times> string \<times> 'd) option" where
  "docker_info l d =
     talk l ''GET'' ''/info'' None d \<bind> (\<lambda>(a, d1).
       case a of
         None \<Rightarrow> Some (- 1, [], d1)
       | Some (code, b) \<Rightarrow>
           if code = 200 then Some (0, ''Docker system information:'' @ [LF] @ b @ [LF], d1) else Some (- 1, [], d1))"

section \<open>The contract of a command\<close>

text \<open>
  Nine commands make one request and accept one status code. The contract names their method, URL and
  body, the code, and what they print; what follows from it holds for all of them.
\<close>

locale daemon_command =
  fixes run :: "'d peer \<Rightarrow> 'd \<Rightarrow> (int \<times> string \<times> 'd) option"
    and meth :: string and ur :: string and bdy :: "string option" and ok :: int and shown :: "string \<Rightarrow> string option"
  assumes run_eq: "run l d = talk l meth ur bdy d \<bind> (\<lambda>(a, d1).
    case a of
      None \<Rightarrow> Some (- 1, [], d1)
    | Some (code, b) \<Rightarrow> if code = ok then shown b \<bind> (\<lambda>t. Some (0, t, d1)) else Some (- 1, [], d1))"
begin

lemma result: "run l d = Some (r, out, d') \<Longrightarrow> r = 0 \<or> r = - 1 \<and> out = []"
  by (auto simp: run_eq bind_Some_iff split: option.splits if_split_asm)

lemma succeeds: "run l d = Some (0, out, d') \<Longrightarrow> \<exists>b. talk l meth ur bdy d = Some (Some (ok, b), d') \<and> shown b = Some out"
  by (auto simp: run_eq bind_Some_iff split: option.splits if_split_asm)

lemma run_talk: "run l d = Some (r, out, d') \<Longrightarrow> \<exists>a. talk l meth ur bdy d = Some (a, d')"
  by (auto simp: run_eq bind_Some_iff split: option.splits if_split_asm)

lemma no_daemon: "connect_to_daemon l < 0 \<Longrightarrow> run l d = Some (- 1, [], d)"
  by (simp add: run_eq talk_def)

lemma other_status: "talk l meth ur bdy d = Some (Some (code, b), d') \<Longrightarrow> code \<noteq> ok \<Longrightarrow> run l d = Some (- 1, [], d')"
  by (simp add: run_eq)

lemma accepted:
  "talk l meth ur bdy d = Some (Some (ok, b), d') \<Longrightarrow> shown b = Some out \<Longrightarrow> run l d = Some (0, out, d')"
  by (simp add: run_eq)

end

interpretation run_cmd: daemon_command "\<lambda>l. docker_run l img command name wd env ports vols interactive tty detach"
  "''POST''" "''/containers/create''"
  "Some (run_request_body img command wd env ports vols interactive tty detach)"
  201 "\<lambda>b. Some (''Container created successfully'' @ [LF])"
  for img command name wd env ports vols interactive tty detach
  by unfold_locales (simp add: docker_run_def Let_def cong: option.case_cong if_cong)

interpretation build_cmd: daemon_command "\<lambda>l. docker_build l image_name dockerfile_path context_path" "''POST''"
  "snprintf 512 (''/build?t='' @ or_default image_name ''myimage'' @ ''&dockerfile='' @ or_default dockerfile_path ''Dockerfile'')"
  None 200 "\<lambda>b. Some (''Image built successfully'' @ [LF])"
  for image_name dockerfile_path context_path
  by unfold_locales (simp add: docker_build_def Let_def cong: option.case_cong if_cong)

interpretation images_cmd: daemon_command docker_images "''GET''" "''/images/json''" None 200 print_images_json
  by unfold_locales (simp add: docker_images_def cong: option.case_cong if_cong)

interpretation containers_cmd: daemon_command docker_containers "''GET''" "''/containers/json''" None 200 print_containers_json
  by unfold_locales (simp add: docker_containers_def cong: option.case_cong if_cong)

interpretation stop_cmd: daemon_command "\<lambda>l. docker_stop l (Some cid)" "''POST''" "snprintf 512 (''/containers/'' @ cid @ ''/stop'')"
  None 204 "\<lambda>b. Some (''Container '' @ cid @ '' stopped'' @ [LF])" for cid
  by unfold_locales (simp add: docker_stop_def cong: option.case_cong if_cong)

interpretation rm_cmd: daemon_command "\<lambda>l. docker_rm l (Some cid)" "''DELETE''" "snprintf 512 (''/containers/'' @ cid @ ''/remove'')"
  None 204 "\<lambda>b. Some (''Container '' @ cid @ '' removed'' @ [LF])" for cid
  by unfold_locales (simp add: docker_rm_def cong: option.case_cong if_cong)

interpretation rmi_cmd: daemon_command "\<lambda>l. docker_rmi l (Some name)" "''DELETE''" "snprintf 512 (''/images/'' @ name)"
  None 200 "\<lambda>b. Some (''Image '' @ name @ '' removed'' @ [LF])" for name
  by unfold_locales (simp add: docker_rmi_def cong: option.case_cong if_cong)

interpretation version_cmd: daemon_command docker_version "''GET''" "''/version''" None 200
  "\<lambda>b. Some (''Docker version information:'' @ [LF] @ b @ [LF])"
  by unfold_locales (simp add: docker_version_def cong: option.case_cong if_cong)

interpretation info_cmd: daemon_command docker_info "''GET''" "''/info''" None 200
  "\<lambda>b. Some (''Docker system information:'' @ [LF] @ b @ [LF])"
  by unfold_locales (simp add: docker_info_def cong: option.case_cong if_cong)

section \<open>The answer a command sees\<close>

lemma strstr_line:
  assumes "CR \<notin> set l" "\<not> prefix [CR, LF] r"
  shows "strstr (l @ CR # LF # r) [CR, LF, CR, LF] = strstr r [CR, LF, CR, LF]"
proof -
  have "strstr (LF # r) [CR, LF, CR, LF] = strstr r [CR, LF, CR, LF]" by simp
  moreover have "strstr (CR # LF # r) [CR, LF, CR, LF] = strstr (LF # r) [CR, LF, CR, LF]" using assms(2) by simp
  ultimately show ?thesis using assms(1) by (induction l) auto
qed

lemma strstr_end:
  "CR \<notin> set l \<Longrightarrow> strstr (l @ CR # LF # CR # LF # r) [CR, LF, CR, LF] = Some (CR # LF # CR # LF # r)"
  by (induction l) auto

lemma no_cr_dec: "CR \<notin> set (dec_int n)"
  using dec_int_chars by (fastforce simp: isdigit_def)

text \<open>An answer of the server that fits its buffer.\<close>

definition fits_wire :: "int \<Rightarrow> string \<Rightarrow> string \<Rightarrow> bool" where
  "fits_wire code msg b \<longleftrightarrow> fits_int code \<and> no_nul msg \<and> CR \<notin> set msg \<and> no_nul b \<and> length msg + length b \<le> 8000"

lemma wire_text:
  assumes "fits_wire code msg b"
  shows "wire code msg b = ''HTTP/1.1 '' @ dec_int code @ '' '' @ msg @ [CR, LF] @ header_text (int (length b)) @ [CR, LF] @ b"
    "length (wire code msg b) \<le> 8150" "no_nul (wire code msg b)"
proof -
  have "length (header_text (int (length b))) \<le> 100" "length (dec_int code) \<le> 11"
    using assms length_header_text [of b] length_dec_int by (simp_all add: fits_wire_def)
  then have l: "length (''HTTP/1.1 '' @ dec_int code @ '' '' @ msg @ [CR, LF] @ header_text (int (length b)) @ [CR, LF] @ b) \<le> 8150"
    using assms by (simp add: fits_wire_def)
  then show w: "wire code msg b = ''HTTP/1.1 '' @ dec_int code @ '' '' @ msg @ [CR, LF] @ header_text (int (length b)) @ [CR, LF] @ b"
    unfolding wire_def by (intro snprintf_id) simp
  show "length (wire code msg b) \<le> 8150" unfolding w by (rule l)
  show "no_nul (wire code msg b)"
    unfolding w using assms by (simp add: fits_wire_def no_nul_header_text)
qed

lemma parse_wire:
  assumes "fits_wire code msg b" "length bf = 8192"
  shows "\<exists>bf'. parse_http_response (wire code msg b) c bf = Some (0, code, bf') \<and> cstr bf' = Some b"
proof -
  let ?h1 = "''HTTP/1.1 '' @ dec_int code @ '' '' @ msg"
  let ?h3 = "''Content-Length: '' @ dec_int (int (length b))"
  have w: "wire code msg b = ?h1 @ CR # LF # ''Content-Type: application/json'' @ CR # LF # ?h3 @ CR # LF #
      ''Connection: close'' @ CR # LF # CR # LF # b"
    using wire_text(1) [OF assms(1)] by (simp add: header_text_def)
  have cr: "CR \<notin> set ?h1" "CR \<notin> set ?h3" "CR \<notin> set ''Content-Type: application/json''" "CR \<notin> set ''Connection: close''"
    using assms(1) no_cr_dec by (simp_all add: fits_wire_def)
  have np: "\<not> prefix [CR, LF] (''Content-Type: application/json'' @ z)" "\<not> prefix [CR, LF] (?h3 @ z)"
    "\<not> prefix [CR, LF] (''Connection: close'' @ z)" for z by simp_all
  have e: "strstr (wire code msg b) [CR, LF, CR, LF] = Some (CR # LF # CR # LF # b)"
    unfolding w strstr_line [OF cr(1) np(1)] strstr_line [OF cr(3) np(2)] strstr_line [OF cr(2) np(3)] strstr_end [OF cr(4)] ..
  have s: "strstr (wire code msg b) ''HTTP/1.1 '' = Some (wire code msg b)"
    by (rule strstr_at_start) (simp add: w)
  obtain r where r: "wire code msg b = ''HTTP/1.1 '' @ dec_int code @ CHR '' '' # r" using w by simp
  obtain d ds where d: "dec_int code = d # ds" by (cases "dec_int code") (auto simp: dec_int_def split: if_splits)
  have nd: "\<not> isspace d" using dec_int_chars [of d code] d by (auto simp: isspace_def isdigit_def)
  have i: "scan_int (dec_int code @ CHR '' '' # r) = Some (code, CHR '' '' # r)"
    by (rule scan_int_dec_int) (simp add: isdigit_def)
  have sc: "sscanf (wire code msg b) ''HTTP/1.1 %d'' = [SInt code]"
  proof -
    have "parse_fmt ''HTTP/1.1 %d'' = map Lit ''HTTP/1.1'' @ [Space, DecInt]" by (simp add: isspace_def)
    moreover have "scan (map Lit ''HTTP/1.1'' @ [Space, DecInt]) (wire code msg b) =
        scan [Space, DecInt] ('' '' @ dec_int code @ CHR '' '' # r)"
      unfolding r by (simp add: isspace_def)
    moreover have "dropWhile isspace ('' '' @ dec_int code @ CHR '' '' # r) = dec_int code @ CHR '' '' # r"
      using nd d by (simp add: isspace_def)
    ultimately show ?thesis using i by (simp add: sscanf_def)
  qed
  obtain bf' where b: "strcpy bf b = Some bf'" using assms by (simp add: strcpy_def fits_wire_def)
  have "cstr bf' = Some b" by (rule cstr_strcpy [OF b]) (use assms(1) in \<open>simp add: fits_wire_def\<close>)
  then show ?thesis
    using b s e sc assms(1) by (simp add: parse_http_response_def scan_int_into_def fits_wire_def)
qed



lemma request_is_http_bytes:
  assumes "length m \<le> 15" "length u \<le> 511"
  shows "\<exists>beyond. create_http_request m u b = http_bytes m u beyond"
proof -
  let ?l = "m @ '' '' @ u @ '' '' @ ''HTTP/1.1'' @ [CR, LF]"
  obtain r where r: "create_http_request m u b = take 4095 (?l @ r)"
    by (simp add: create_http_request_def snprintf_def Let_def)
  have "take 4095 (?l @ r) = ?l @ take (4095 - length ?l) r" using assms by (subst take_append) simp
  then have "create_http_request m u b = http_bytes m u (take (4095 - length ?l) r)"
    unfolding r by (simp add: http_bytes_def request_bytes_def)
  then show ?thesis by blast
qed

text \<open>A peer whose connection works; \<open>answers_with\<close> says what comes back.\<close>

definition connected :: "'d peer \<Rightarrow> bool" where
  "connected l \<longleftrightarrow> 0 \<le> p_socket l \<and> 0 < p_inet l \<and> 0 \<le> p_connect l \<and> 0 \<le> p_send l \<and> length (p_body l) = 8192"

lemma talk_wire:
  assumes "connected l" "fits_wire code msg b" "p_exchange l (create_http_request m u bd) d = Some (Some (wire code msg b), d')"
  shows "talk l m u bd d = Some (Some (code, b), d')"
proof -
  note w = wire_text [OF assms(2)]
  have "receive_response_from_daemon (Some (wire code msg b)) 8192 = (int (length (wire code msg b)), wire code msg b)"
    using w(2,3) takeWhile_id [of "wire code msg b" "\<lambda>c. c \<noteq> NUL"]
    by (force simp: receive_response_from_daemon_def c_line_def no_nul_def Let_def)
  moreover obtain bf' where "parse_http_response (wire code msg b) (p_status l) (p_body l) = Some (0, code, bf')" "cstr bf' = Some b"
    using parse_wire [OF assms(2)] assms(1) by (auto simp: connected_def)
  ultimately show ?thesis
    using assms(1,3) by (simp add: talk_def send_request_to_daemon_def connect_to_daemon_def connected_def Let_def)
qed

section \<open>What a listing shows\<close>

lemma strstr_join:
  "DQ \<notin> set p \<Longrightarrow> strstr (join_dq (p # q # ps)) (DQ # k) =
     (if prefix k (join_dq (q # ps)) then Some (DQ # join_dq (q # ps)) else strstr (join_dq (q # ps)) (DQ # k))"
proof -
  have "DQ \<notin> set a \<Longrightarrow> strstr (a @ DQ # r) (DQ # k) = (if prefix k r then Some (DQ # r) else strstr r (DQ # k))" for a r
    by (induction a) auto
  then show "DQ \<notin> set p \<Longrightarrow> ?thesis" by simp
qed

lemma prefix_join:
  "DQ \<notin> set k \<Longrightarrow> DQ \<notin> set b \<Longrightarrow>
   prefix (join_dq (k # k2 # ks)) (join_dq (b # b2 # bs)) \<longleftrightarrow> k = b \<and> prefix (join_dq (k2 # ks)) (join_dq (b2 # bs))"
  using prefix_split [of DQ k b] by simp

lemma upto_char_stop: "c \<notin> set a \<Longrightarrow> upto_char (a @ c # r) c = Some a"
  by (simp add: upto_char_def strchr_append)

lemma upto_char_none: "c \<notin> set a \<Longrightarrow> upto_char a c = None"
  by (simp add: upto_char_def iffD2 [OF strchr_None])

text \<open>The text of an image entry, as the server formats it, cut at the double quotes.\<close>

definition image_pieces :: "string \<Rightarrow> string \<Rightarrow> string \<Rightarrow> string \<Rightarrow> string \<Rightarrow> string \<Rightarrow> string list" where
  "image_pieces iid name tag created sz r =
     [''[{'', ''Id'', '':'', iid, '','', ''RepoTags'', '':['', name @ '':'' @ tag, ''],'', ''Created'',
      '':'' @ created @ '','', ''Size'', '':'' @ sz @ ''}'' @ r]"

lemma image_found:
  assumes "DQ \<notin> set iid" "DQ \<notin> set name" "DQ \<notin> set tag" "DQ \<notin> set created"
  shows "skip_key (join_dq (image_pieces iid name tag created sz r)) ''\"Id\":\"'' 6 =
      Some (Some (join_dq (drop 3 (image_pieces iid name tag created sz r))))"
    "skip_key (join_dq (image_pieces iid name tag created sz r)) ''\"RepoTags\":[\"'' 13 =
      Some (Some (join_dq (drop 7 (image_pieces iid name tag created sz r))))"
    "skip_key (join_dq (image_pieces iid name tag created sz r)) ''\"Created\":'' 10 =
      Some (Some (created @ '','' @ DQ # join_dq (drop 11 (image_pieces iid name tag created sz r))))"
    "skip_key (join_dq (image_pieces iid name tag created sz r)) ''\"Size\":'' 7 = Some (Some (sz @ ''}'' @ r))"
proof -
  have k: "''\"Id\":\"'' = DQ # join_dq [''Id'', '':'', []]" "''\"RepoTags\":[\"'' = DQ # join_dq [''RepoTags'', '':['', []]"
    "''\"Created\":'' = DQ # join_dq [''Created'', '':'']" "''\"Size\":'' = DQ # join_dq [''Size'', '':'']"
    by simp_all
  note st = image_pieces_def strstr_join prefix_join assms
  show "skip_key (join_dq (image_pieces iid name tag created sz r)) ''\"Id\":\"'' 6 =
      Some (Some (join_dq (drop 3 (image_pieces iid name tag created sz r))))"
    unfolding skip_key_def k(1) by (simp add: st del: join_dq.simps) (simp add: image_pieces_def)
  show "skip_key (join_dq (image_pieces iid name tag created sz r)) ''\"RepoTags\":[\"'' 13 =
      Some (Some (join_dq (drop 7 (image_pieces iid name tag created sz r))))"
    unfolding skip_key_def k(2) by (simp add: st del: join_dq.simps) (simp add: image_pieces_def)
  show "skip_key (join_dq (image_pieces iid name tag created sz r)) ''\"Created\":'' 10 =
      Some (Some (created @ '','' @ DQ # join_dq (drop 11 (image_pieces iid name tag created sz r))))"
    unfolding skip_key_def k(3) by (simp add: st del: join_dq.simps) (simp add: image_pieces_def)
  show "skip_key (join_dq (image_pieces iid name tag created sz r)) ''\"Size\":'' 7 = Some (Some (sz @ ''}'' @ r))"
    unfolding skip_key_def k(4) by (simp add: st del: join_dq.simps) (simp add: image_pieces_def)
qed

definition image_entry :: "string \<Rightarrow> string \<Rightarrow> string \<Rightarrow> string \<Rightarrow> string \<Rightarrow> string" where
  "image_entry iid name tag created sz =
     ''{\"Id\":\"'' @ iid @ ''\",\"RepoTags\":[\"'' @ name @ '':'' @ tag @ ''\"],\"Created\":'' @ created @
     '',\"Size\":'' @ sz @ ''}''"

definition row :: "string list \<Rightarrow> string" where
  "row cells = concat (map (\<lambda>c. c @ ''    '') cells)"

text \<open>
  What \<open>docker images\<close> prints for a listing: one row, for the first image only, with the
  repository, tag, identifier, creation time and size. When more images follow, the size is printed with the
  closing brace of its entry, because the search for a comma runs past it.
\<close>

theorem images_first_row:
  assumes "DQ \<notin> set iid" "DQ \<notin> set name" "CHR '':'' \<notin> set name" "DQ \<notin> set tag" "DQ \<notin> set created"
    and "CHR '','' \<notin> set created" "CHR '','' \<notin> set sz" "CHR ''}'' \<notin> set sz"
  shows "print_images_json (''['' @ image_entry iid name tag created sz @ (if others = [] then '']'' else CHR '','' # others)) =
    Some (''REPOSITORY    TAG    IMAGE ID    CREATED    SIZE'' @ [LF] @
          ''------------------------------------------------'' @ [LF] @
          row [name, tag, iid, created] @ sz @ (if others = [] then [] else ''}'') @ [LF])"
proof -
  let ?r = "if others = [] then '']'' else CHR '','' # others"
  have t: "''['' @ image_entry iid name tag created sz @ ?r = join_dq (image_pieces iid name tag created sz ?r)"
    by (simp add: image_entry_def image_pieces_def)
  note f = image_found [OF assms(1,2,4,5), of sz ?r]
  have d: "join_dq (drop 3 (image_pieces iid name tag created sz ?r)) = iid @ DQ # join_dq (drop 4 (image_pieces iid name tag created sz ?r))"
    "join_dq (drop 7 (image_pieces iid name tag created sz ?r)) =
       name @ CHR '':'' # tag @ DQ # join_dq (drop 8 (image_pieces iid name tag created sz ?r))"
    by (simp_all add: image_pieces_def)
  have "upto_char (sz @ ''}'' @ ?r) (CHR '','') = (if others = [] then None else Some (sz @ ''}''))"
    using upto_char_none [of "CHR '',''" "sz @ ''}]''"] upto_char_stop [of "CHR '',''" "sz @ ''}''" others] assms(7) by simp
  then have z: "(case upto_char (sz @ ''}'' @ ?r) (CHR '','') of Some e \<Rightarrow> Some e | None \<Rightarrow> upto_char (sz @ ''}'' @ ?r) (CHR ''}'')) =
      Some (sz @ (if others = [] then [] else ''}''))"
    using upto_char_stop [OF assms(8), of "'']''"] by simp
  have c: "upto_char (created @ '','' @ x) (CHR '','') = Some created" for x
    using upto_char_stop [OF assms(6)] by simp
  show ?thesis
    unfolding t print_images_json_def quoted_field_def number_field_def f
    by (simp add: d upto_char_stop [OF assms(1)] upto_char_stop [OF assms(3)] upto_char_stop [OF assms(4)] strchr_append [OF assms(3)]
        c z column_def row_def del: append_Cons)
qed

theorem images_first_row_witness:
  "print_images_json ''[{\"Id\":\"sha256:1\",\"RepoTags\":[\"nginx:latest\"],\"Created\":7,\"Size\":42},{}]'' =
    Some (''REPOSITORY    TAG    IMAGE ID    CREATED    SIZE'' @ [LF] @
          ''------------------------------------------------'' @ [LF] @
          ''nginx    latest    sha256:1    7    42}'' @ [LF])"
  using images_first_row [of "''sha256:1''" "''nginx''" "''latest''" "''7''" "''42''" "''{}]''"]
  by (simp add: image_entry_def row_def)

end
