(* ===== verification/Daemon.thy ===== *)
theory Daemon imports Effects begin

text \<open>
  Starting and running the daemon: \<open>core/daemon.c\<close>, which the client uses to find, launch and await
  the daemon, and \<open>core/daemon_runtime.c\<close>, the daemon's own main function and signal handler. The
  results of the socket calls, of \<open>fork\<close>, \<open>setsid\<close>, \<open>readlink\<close> and \<open>access\<close> are inputs.
\<close>

section \<open>Reaching the daemon\<close>

definition DAEMON_NAME :: string where
  "DAEMON_NAME = ''docker-clone-daemon''"

text \<open>What the calls of one connection attempt return.\<close>

record dial =
  d_socket :: int
  d_inet :: int
  d_connect :: int

definition attempt_connect :: "dial \<Rightarrow> int" where
  "attempt_connect a =
     (if d_socket a < 0 then - 1
      else if d_inet a \<le> 0 then - 1
      else if d_connect a = 0 then 0 else - 1)"

definition is_daemon_running :: "dial \<Rightarrow> bool" where
  "is_daemon_running a \<longleftrightarrow> attempt_connect a = 0"

text \<open>The retry loop; \<open>n\<close> counts the calls of \<open>usleep\<close>.\<close>

function wait_loop :: "(nat \<Rightarrow> dial) \<Rightarrow> nat \<Rightarrow> nat \<Rightarrow> nat \<Rightarrow> int \<times> nat" where
  "wait_loop dials retries i n =
     (if i < retries then
        (if attempt_connect (dials i) = 0 then (0, n)
         else wait_loop dials retries (i + 1) (n + 1))
      else (- 1, n))"
  by pat_completeness auto
termination wait_loop
  by (relation "measure (\<lambda>(dials, retries, i, n). retries - i)") auto

declare wait_loop.simps [simp del]

definition wait_for_daemon_ready :: "(nat \<Rightarrow> dial) \<Rightarrow> nat \<Rightarrow> int \<times> nat" where
  "wait_for_daemon_ready dials retries = wait_loop dials retries 0 0"

section \<open>Finding and launching the daemon\<close>

text \<open>\<open>self\<close> is the target of \<open>/proc/self/exe\<close>, \<open>None\<close> when \<open>readlink\<close> fails: the
  daemon's name in the directory of the running program, when it is executable.\<close>

definition beside_self :: "string option \<Rightarrow> (path \<Rightarrow> bool) \<Rightarrow> nat \<Rightarrow> path option" where
  "beside_self self executable len =
     (case self of
        None \<Rightarrow> None
      | Some target \<Rightarrow>
          let buffer = take (len - 1) target in
          if buffer = [] then None
          else case strrchr buffer (CHR ''/'') of
            None \<Rightarrow> None
          | Some slash \<Rightarrow>
              let dir = take (length buffer - length slash + 1) buffer;
                  candidate = dir @ take (len - length dir - 1) DAEMON_NAME
              in if executable candidate then Some candidate else None)"

text \<open>The result carries the buffer's text.\<close>

definition resolve_daemon_binary :: "string option \<Rightarrow> (path \<Rightarrow> bool) \<Rightarrow> nat \<Rightarrow> int \<times> path" where
  "resolve_daemon_binary self executable len =
     (if len = 0 then (- 1, [])
      else
        case beside_self self executable len of
          Some p \<Rightarrow> (0, p)
        | None \<Rightarrow>
            let built = ''./build/'' @ DAEMON_NAME in
            if length built < len \<and> executable (snprintf len built) then (0, snprintf len built)
            else if len \<le> length DAEMON_NAME then (- 1, snprintf len DAEMON_NAME)
            else (0, snprintf len DAEMON_NAME))"

text \<open>How each process that the double fork makes goes on: the caller, the child, the grandchild.\<close>

datatype fate = Returns int | Exits int | Execs path "string list"

record launch =
  fork1 :: int
  setsid_result :: int
  fork2 :: int
  exec_ok :: bool

definition launch_detached_program :: "launch \<Rightarrow> path \<Rightarrow> string option \<Rightarrow> string \<Rightarrow> fate list" where
  "launch_detached_program l p arg file_name =
     (if fork1 l < 0 then [Returns (- 1)]
      else Returns 0 #
        (if setsid_result l < 0 then [Exits 1]
         else if fork2 l < 0 then [Exits 1]
         else [Exits 0,
               if \<not> exec_ok l then Exits 1
               else case arg of
                 Some a \<Rightarrow> if a \<noteq> [] then Execs p [file_name, a] else Execs p [file_name]
               | None \<Rightarrow> Execs p [file_name]]))"

record starter =
  probe :: dial
  self_exe :: "string option"
  executable :: "path \<Rightarrow> bool"
  launching :: launch
  dials :: "nat \<Rightarrow> dial"

text \<open>The return value, the text on the standard output, and the processes launched.\<close>

definition start_daemon :: "starter \<Rightarrow> int \<times> string \<times> fate list" where
  "start_daemon e =
     (if is_daemon_running (probe e) then (0, ''Daemon is already running'' @ [LF], [])
      else
        let (r, daemon_path) = resolve_daemon_binary (self_exe e) (executable e) 4096 in
        if r \<noteq> 0 then (- 1, [], [])
        else
          let fates = launch_detached_program (launching e) daemon_path None DAEMON_NAME in
          if hd fates \<noteq> Returns 0 then (- 1, [], fates)
          else if fst (wait_for_daemon_ready (dials e) 50) \<noteq> 0 then (- 1, [], fates)
          else (0, ''Daemon started successfully'' @ [LF], fates))"

definition stop_daemon :: "os \<Rightarrow> world \<Rightarrow> int \<times> string \<times> world" where
  "stop_daemon os w =
     (let (r, w1) = system os (snprintf 256 (''pkill -f '' @ DAEMON_NAME)) w in
      if r = 0 then (0, ''Daemon stopped'' @ [LF], w1)
      else (- 1, ''Daemon not running or failed to stop'' @ [LF], w1))"

section \<open>Looking for a process by name\<close>

text \<open>\<open>fgets\<close> with 255 and the cut at the first line end; \<open>None\<close> for an unreadable or empty file.\<close>

definition comm_of :: "os \<Rightarrow> world \<Rightarrow> string \<Rightarrow> string option" where
  "comm_of os w e =
     (case read_file os (snprintf 256 (''/proc/'' @ e @ ''/comm'')) w of
        None \<Rightarrow> None
      | Some s \<Rightarrow>
          (case fgets_lines 255 s of
             [] \<Rightarrow> None
           | l # ls \<Rightarrow> Some (takeWhile (\<lambda>c. c \<noteq> LF) (c_line l))))"

fun scan_processes :: "os \<Rightarrow> string \<Rightarrow> world \<Rightarrow> string list \<Rightarrow> int" where
  "scan_processes os name w [] = 0"
| "scan_processes os name w (e # es) =
     (if list_all isdigit e then
        (case comm_of os w e of
           None \<Rightarrow> scan_processes os name w es
         | Some comm_name \<Rightarrow> if comm_name = name then 1 else scan_processes os name w es)
      else scan_processes os name w es)"

definition is_process_running :: "os \<Rightarrow> string \<Rightarrow> world \<Rightarrow> int" where
  "is_process_running os name w =
     (case read_dir os ''/proc'' w of None \<Rightarrow> 0 | Some names \<Rightarrow> scan_processes os name w names)"

section \<open>The daemon process\<close>

text \<open>The result is \<open>None\<close> while the server is still serving.\<close>

definition run_daemon_foreground ::
  "os \<Rightarrow> network \<Rightarrow> connection list \<Rightarrow> world \<Rightarrow> (int option \<times> string option list \<times> world) option" where
  "run_daemon_foreground os net cs w =
     (let (r1, w1) = init_image_system os w in
      if r1 \<noteq> 0 then Some (Some (- 1), [], w1)
      else
        let (r2, w2) = init_container_system os w1 in
        if r2 \<noteq> 0 then Some (Some (- 1), [], snd (cleanup_image_system os w2))
        else do {
          (res, ts, w3) \<leftarrow> start_http_server os net cs w2;
          (case res of
             None \<Rightarrow> Some (None, ts, w3)
           | Some r \<Rightarrow>
               Some (Some r, ts, snd (cleanup_container_system os (snd (cleanup_image_system os w3)))))
        })"

definition daemon_main ::
  "os \<Rightarrow> network \<Rightarrow> connection list \<Rightarrow> world \<Rightarrow> (int option \<times> string option list \<times> world) option" where
  "daemon_main os net cs w = run_daemon_foreground os net cs w"

text \<open>The exit status and the world the process leaves behind.\<close>

definition daemon_signal_handler :: "os \<Rightarrow> world \<Rightarrow> int \<times> world" where
  "daemon_signal_handler os w =
     (0, snd (cleanup_container_system os (snd (cleanup_image_system os w))))"

section \<open>Waiting\<close>

lemma wait_loop_result:
  "i \<le> retries \<Longrightarrow>
   (\<exists>k. i \<le> k \<and> k < retries \<and> attempt_connect (ds k) = 0 \<and> (\<forall>j. i \<le> j \<and> j < k \<longrightarrow> attempt_connect (ds j) \<noteq> 0) \<and>
        wait_loop ds retries i n = (0, n + (k - i))) \<or>
   (\<forall>j. i \<le> j \<and> j < retries \<longrightarrow> attempt_connect (ds j) \<noteq> 0) \<and> wait_loop ds retries i n = (- 1, n + (retries - i))"
proof (induction "retries - i" arbitrary: i n)
  case 0
  then have "\<not> i < retries" "retries - i = 0" by simp_all
  then show ?case using wait_loop.simps [of ds retries i n] by simp
next
  case (Suc d)
  then have i: "i < retries" "d = retries - (i + 1)" "i + 1 \<le> retries" by simp_all
  show ?case
  proof (cases "attempt_connect (ds i) = 0")
    case True
    then show ?thesis using i by (auto simp: wait_loop.simps [of ds retries i n] intro!: exI [of _ i])
  next
    case False
    have l: "wait_loop ds retries i n = wait_loop ds retries (i + 1) (n + 1)"
      using False i by (simp add: wait_loop.simps [of ds retries i n])
    have c: "(\<forall>j. i \<le> j \<and> j < m \<longrightarrow> attempt_connect (ds j) \<noteq> 0)" if "\<forall>j. i + 1 \<le> j \<and> j < m \<longrightarrow> attempt_connect (ds j) \<noteq> 0" for m
      using that False by (metis Suc_eq_plus1 Suc_leI le_neq_implies_less)
    from Suc.hyps(1) [OF i(2,3), of "n + 1"] show ?thesis
    proof (elim disjE exE conjE)
      fix k
      assume k: "i + 1 \<le> k" "k < retries" "attempt_connect (ds k) = 0"
        "\<forall>j. i + 1 \<le> j \<and> j < k \<longrightarrow> attempt_connect (ds j) \<noteq> 0" "wait_loop ds retries (i + 1) (n + 1) = (0, n + 1 + (k - (i + 1)))"
      then have "wait_loop ds retries i n = (0, n + (k - i))" "i \<le> k" unfolding l by simp_all
      then show ?thesis using k c by blast
    next
      assume k: "\<forall>j. i + 1 \<le> j \<and> j < retries \<longrightarrow> attempt_connect (ds j) \<noteq> 0"
        "wait_loop ds retries (i + 1) (n + 1) = (- 1, n + 1 + (retries - (i + 1)))"
      then have "wait_loop ds retries i n = (- 1, n + (retries - i))" unfolding l using i(1) by simp
      then show ?thesis using k(1) c by blast
    qed
  qed
qed

text \<open>
  C32. Waiting for the daemon: the loop always ends, after at most \<open>retries\<close> attempts. It returns 0
  exactly when one of them connects, having slept once for each failed attempt before the first success;
  otherwise it returns \<open>- 1\<close> after sleeping after every attempt.
\<close>

theorem wait_for_daemon_ready_result:
  "if \<exists>k < retries. attempt_connect (ds k) = 0
   then wait_for_daemon_ready ds retries = (0, LEAST k. attempt_connect (ds k) = 0)
   else wait_for_daemon_ready ds retries = (- 1, retries)"
proof -
  consider k where "k < retries" "attempt_connect (ds k) = 0" "\<forall>j < k. attempt_connect (ds j) \<noteq> 0"
      "wait_for_daemon_ready ds retries = (0, k)"
    | "\<forall>j < retries. attempt_connect (ds j) \<noteq> 0" "wait_for_daemon_ready ds retries = (- 1, retries)"
    using wait_loop_result [of 0 retries ds 0] by (auto simp: wait_for_daemon_ready_def)
  then show ?thesis
  proof cases
    case (1 k)
    then have "(LEAST k. attempt_connect (ds k) = 0) = k" by (intro Least_equality) (auto simp: not_less [symmetric])
    then show ?thesis using 1 by auto
  qed auto
qed

section \<open>Finding the binary\<close>

lemma beside_self_fits:
  assumes "beside_self slf ex len = Some p" "0 < len"
  shows "ex p \<and> length p < len"
proof -
  obtain target k where p: "p = take k (take (len - 1) target) @ take (len - length (take k (take (len - 1) target)) - 1) DAEMON_NAME" "ex p"
    using assms(1) unfolding beside_self_def Let_def by (auto split: option.split_asm if_split_asm simp del: take_take length_take)
  obtain d where d: "d = take k (take (len - 1) target)" by blast
  have "length d \<le> len - 1" by (simp add: d)
  moreover have "length (take (len - length d - 1) DAEMON_NAME) \<le> len - length d - 1" by simp
  moreover have "length p = length d + length (take (len - length d - 1) DAEMON_NAME)" by (simp only: p(1) d length_append)
  ultimately have "length p \<le> len - 1" using assms(2) by linarith
  then show ?thesis using p(2) assms(2) by simp
qed

text \<open>
  With the caller's buffer of \<open>PATH_MAX\<close> bytes the daemon binary is always resolved: beside the
  running program when it is executable there, else in \<open>./build\<close>, else the bare name, which is never
  checked. The path never exceeds the buffer.
\<close>

theorem resolve_daemon_binary_result:
  "\<exists>p. resolve_daemon_binary slf ex 4096 = (0, p) \<and> length p < 4096 \<and>
     (ex p \<or> p = DAEMON_NAME)"
proof (cases "beside_self slf ex 4096")
  case None
  then show ?thesis by (cases "ex (''./build/'' @ DAEMON_NAME)") (simp_all add: resolve_daemon_binary_def DAEMON_NAME_def snprintf_def Let_def)
next
  case (Some p)
  then show ?thesis using beside_self_fits [OF Some] by (simp add: resolve_daemon_binary_def)
qed

section \<open>Starting\<close>

lemma start_daemon_status:
  "(fst (start_daemon e) = 0 \<longleftrightarrow>
      attempt_connect (probe e) = 0 \<or> 0 \<le> fork1 (launching e) \<and> (\<exists>k < 50. attempt_connect (dials e k) = 0)) \<and>
   (attempt_connect (probe e) = 0 \<longrightarrow> snd (snd (start_daemon e)) = []) \<and>
   (fst (start_daemon e) = 0 \<or> fst (start_daemon e) = - 1)"
proof -
  have w: "fst (wait_for_daemon_ready (dials e) 50) = (if \<exists>k < 50. attempt_connect (dials e k) = 0 then 0 else - 1)"
    using wait_loop_result [of 0 50 "dials e" 0] by (auto simp: wait_for_daemon_ready_def)
  have r: "fst (resolve_daemon_binary (self_exe e) (executable e) 4096) = 0"
    by (simp add: resolve_daemon_binary_def DAEMON_NAME_def Let_def split: option.split)
  have l: "hd (launch_detached_program (launching e) p None DAEMON_NAME) = Returns 0 \<longleftrightarrow> 0 \<le> fork1 (launching e)" for p
    by (simp add: launch_detached_program_def)
  show ?thesis
    using r by (auto simp: start_daemon_def is_daemon_running_def w l Let_def case_prod_unfold)
qed

text \<open>
  Starting the daemon: the result is 0 exactly when a daemon already answers, or the first fork
  worked and one of the 50 attempts to connect succeeds. A failed second fork or \<open>exec\<close> is invisible to
  the caller except through the attempts. No process is launched when one already answers, at most three
  fates are recorded otherwise.
\<close>

theorem start_daemon_result:
  "(fst (start_daemon e) = 0 \<longleftrightarrow>
      attempt_connect (probe e) = 0 \<or> 0 \<le> fork1 (launching e) \<and> (\<exists>k < 50. attempt_connect (dials e k) = 0)) \<and>
   (attempt_connect (probe e) = 0 \<longrightarrow> snd (snd (start_daemon e)) = []) \<and>
   (fst (start_daemon e) = 0 \<or> fst (start_daemon e) = - 1)"
  by (rule start_daemon_status)

section \<open>Finding a process\<close>

lemma scan_processes_result:
  "scan_processes os name w es = (if \<exists>e \<in> set es. list_all isdigit e \<and> comm_of os w e = Some name then 1 else 0)"
  by (induction es) (auto split: option.split)

text \<open>
  \<open>is_process_running\<close> answers 1 exactly when some entry of \<open>/proc\<close> made of digits has a
  readable command name equal to the one asked for, and 0 otherwise, also when \<open>/proc\<close> cannot be read.
\<close>

theorem is_process_running_result:
  "is_process_running os name w =
    (if \<exists>names e. read_dir os ''/proc'' w = Some names \<and> e \<in> set names \<and> list_all isdigit e \<and> comm_of os w e = Some name
     then 1 else 0)"
  by (auto simp: is_process_running_def scan_processes_result split: option.split)

text \<open>The kernel keeps at most 15 characters of a command name, and a line end after them.\<close>

definition kernel_comm :: "os \<Rightarrow> world \<Rightarrow> bool" where
  "kernel_comm os w \<longleftrightarrow>
     (\<forall>e s. read_file os (snprintf 256 (''/proc/'' @ e @ ''/comm'')) w = Some s \<longrightarrow> length s \<le> 16)"

lemma comm_of_short:
  assumes "kernel_comm os w" "comm_of os w e = Some c"
  shows "length c \<le> 16"
proof -
  obtain s l ls where s: "read_file os (snprintf 256 (''/proc/'' @ e @ ''/comm'')) w = Some s" "fgets_lines 255 s = l # ls"
    "c = takeWhile (\<lambda>c. c \<noteq> LF) (c_line l)"
    using assms(2) by (auto simp: comm_of_def split: option.splits list.splits)
  have "length s \<le> 16" using s(1) assms(1) by (simp add: kernel_comm_def)
  moreover have "length l \<le> length s"
    using arg_cong [OF fgets_lines_concat [of 255 s], of length] s(2) by simp
  moreover have "length c \<le> length l"
    using length_takeWhile_le le_trans unfolding s(3) c_line_def by blast
  ultimately show ?thesis by linarith
qed

text \<open>
  On a kernel that cuts command names to 15 characters the daemon is never found by its name,
  which has 19, whether it runs or not.
\<close>

theorem daemon_never_found:
  assumes "kernel_comm os w"
  shows "is_process_running os DAEMON_NAME w = 0"
proof -
  have "comm_of os w e \<noteq> Some DAEMON_NAME" for e
    using comm_of_short [OF assms, of e DAEMON_NAME] by (auto simp: DAEMON_NAME_def)
  then show ?thesis by (auto simp: is_process_running_def scan_processes_result split: option.split)
qed

theorem daemon_never_found_witness:
  "\<exists>w. lookup w ''/proc/7/comm'' = Some (File (''docker-clone-da'' @ [LF])) \<and> is_process_running calm_os DAEMON_NAME w = 0"
proof -
  let ?w = "put ''/proc/7/comm'' (File (''docker-clone-da'' @ [LF])) empty_world"
  have "kernel_comm calm_os ?w"
    unfolding kernel_comm_def
  proof (intro allI impI)
    fix e s assume a: "read_file calm_os (snprintf 256 (''/proc/'' @ e @ ''/comm'')) ?w = Some s"
    have n: "snprintf 256 (''/proc/'' @ e @ ''/comm'') \<noteq> ''/tmp''" by (simp add: snprintf_def)
    have l: "lookup empty_world q = (if q = ''/tmp'' then Some Dir else None)" for q
      by (simp add: lookup_def empty_world_def)
    show "length s \<le> 16"
      using a n by (auto simp: read_file_def fs_simps l split: if_split_asm)
  qed
  then have "is_process_running calm_os DAEMON_NAME ?w = 0" by (rule daemon_never_found)
  then show ?thesis by (intro exI [of _ ?w]) (simp add: fs_simps)
qed

section \<open>Shutting down\<close>

lemma cleanup_images:
  assumes "rm_rf (shell os)"
  shows "lookup (snd (cleanup_image_system os w)) q =
    (if under IMAGE_STORAGE_DIR q \<or> under LAYER_STORAGE_DIR q \<or> under METADATA_DIR q then None else lookup w q)"
proof -
  let ?ds = "[IMAGE_STORAGE_DIR, LAYER_STORAGE_DIR, METADATA_DIR]"
  have pl: "\<forall>p \<in> set ?ds. plain_path p"
    by (simp add: IMAGE_STORAGE_DIR_def LAYER_STORAGE_DIR_def METADATA_DIR_def plain_path_def word_char_def contains_def)
  obtain w1 where w1: "system os (''rm -rf '' @ unwords ?ds) w = (0, w1)"
    "\<And>q. lookup w1 q = (if list_ex (\<lambda>p. under p q) ?ds then None else lookup w q)"
    using system_rm [OF assms(1) _ pl, of w] by auto
  have "length (''rm -rf '' @ unwords ?ds) < 1024"
    by (simp add: IMAGE_STORAGE_DIR_def LAYER_STORAGE_DIR_def METADATA_DIR_def)
  then have "cleanup_image_system os w = (0, w1)"
    using w1(1) by (simp add: cleanup_image_system_def snprintf_id)
  then show ?thesis using w1(2) by simp
qed

lemma clean_state:
  assumes "rm_rf (shell os)"
  shows "length cid < 400 \<Longrightarrow> \<not> container_exists cid (snd (cleanup_container_system os (snd (cleanup_image_system os w))))"
    "\<not> image_exists name tag (snd (cleanup_container_system os (snd (cleanup_image_system os w))))"
proof -
  let ?v = "snd (cleanup_image_system os w)"
  obtain r w' where c: "cleanup_container_system os ?v = (r, w')" by fastforce
  note cc = cleanup_containers [OF assms c]
  show "length cid < 400 \<Longrightarrow> \<not> container_exists cid (snd (cleanup_container_system os ?v))" using cc c by simp
  let ?k = "snprintf 322 (get_image_full_name name tag)"
  have "length ?k < 400" using length_snprintf [of 322 "get_image_full_name name tag"] by simp
  then have "under METADATA_DIR (image_metadata_path ?k)" by (rule ik.path_under)
  then have "lookup ?v (image_metadata_path ?k) = None" using cleanup_images [OF assms] by simp
  then have "lookup w' (image_metadata_path ?k) = None" using cc by simp
  then show "\<not> image_exists name tag (snd (cleanup_container_system os ?v))"
    using c by (simp add: image_exists_def access_ok_def)
qed

text \<open>
  C21. Stopping the daemon with a signal deletes every container and every image, yet leaves the
  processes it started alone: nothing is signalled or reaped, so running containers outlive their records.
\<close>

theorem shutdown_wipes:
  assumes "rm_rf (shell os)" "daemon_signal_handler os w = (r, w')"
  shows "r = 0 \<and> children w' = children w \<and> signals w' = signals w \<and>
    (\<forall>cid. length cid < 400 \<longrightarrow> \<not> container_exists cid w') \<and> (\<forall>name tag. \<not> image_exists name tag w')"
proof -
  have w': "w' = snd (cleanup_container_system os (snd (cleanup_image_system os w)))" "r = 0"
    using assms(2) by (auto simp: daemon_signal_handler_def)
  have "same_processes w w'"
    unfolding w' by (intro quiet.cleanup_R) (simp add: same_processes_def)
  then show ?thesis using w' clean_state [OF assms(1)] by (simp add: same_processes_def)
qed

lemma calm_rm: "rm_rf (shell calm_os)"
  by (simp add: calm_os_def rm_rf_rm_shell)

theorem shutdown_wipes_witness:
  "\<exists>w w'. container_exists web w \<and> children w = [100] \<and> daemon_signal_handler calm_os w = (0, w') \<and>
     \<not> container_exists web w' \<and> children w' = [100]"
proof -
  let ?w = "put (container_metadata_path web) (File []) (fresh_world\<lparr>children := [100]\<rparr>)"
  obtain r w' where w': "daemon_signal_handler calm_os ?w = (r, w')" by fastforce
  have "container_exists web ?w" "children ?w = [100]"
    by (simp_all add: container_exists_def access_ok_def fs_simps frame_simps)
  moreover have "length web < 400" using id_props(1) [of 0] by (simp add: web_def)
  ultimately show ?thesis using shutdown_wipes [OF calm_rm w'] w' by metis
qed

section \<open>The life of the daemon\<close>














text \<open>
  C20. Starting a second daemon while one is running destroys the first one's data: when the
  directories are there and the port is taken, the process ends with \<open>- 1\<close>, and its exit path deletes every
  container and every image of the store they share, without touching the processes.
\<close>

theorem second_daemon_wipes:
  assumes "rm_rf (shell os)" "init_image_system os w = (0, w1)" "init_container_system os w1 = (0, w2)" "bind_result net < 0"
  shows "\<exists>w'. daemon_main os net cs w = Some (Some (- 1), [], w') \<and> children w' = children w \<and> signals w' = signals w \<and>
    (\<forall>cid. length cid < 400 \<longrightarrow> \<not> container_exists cid w') \<and> (\<forall>name tag. \<not> image_exists name tag w')"
proof -
  let ?w = "snd (cleanup_container_system os (snd (cleanup_image_system os w2)))"
  have "daemon_main os net cs w = Some (Some (- 1), [], ?w)"
    using assms(2-4) by (simp add: daemon_main_def run_daemon_foreground_def start_http_server_def)
  moreover have "same_processes w w1" "same_processes w w2"
    using quiet.init_R [of w _ os] quiet.R_refl [of w] assms(2,3) by (metis snd_conv)+
  then have "same_processes w ?w" by (intro quiet.cleanup_R)
  ultimately show ?thesis using clean_state [OF assms(1)] by (auto simp: same_processes_def)
qed

theorem second_daemon_wipes_witness:
  "\<exists>w w'. container_exists web w \<and> daemon_main calm_os \<lparr>socket_fd = 3, setsockopt_result = 0, bind_result = - 1, listen_result = 0\<rparr> [] w
     = Some (Some (- 1), [], w') \<and> \<not> container_exists web w'"
proof -
  let ?net = "\<lparr>socket_fd = 3, setsockopt_result = 0, bind_result = - 1, listen_result = 0\<rparr>"
  let ?w = "\<lparr>files = [(''/tmp'', Dir), (IMAGE_STORAGE_DIR, Dir), (METADATA_DIR, Dir), (CONTAINER_STORAGE_DIR, Dir),
     (CONTAINER_METADATA_DIR, Dir), (CONTAINER_LOG_DIR, Dir), (container_metadata_path web, File [])],
     children = [], signals = [], ticks = 0, allocs = 0, clones = 0\<rparr>"
  have d: "lookup ?w IMAGE_STORAGE_DIR = Some Dir" "lookup ?w METADATA_DIR = Some Dir" "lookup ?w CONTAINER_STORAGE_DIR = Some Dir"
    "lookup ?w CONTAINER_METADATA_DIR = Some Dir" "lookup ?w CONTAINER_LOG_DIR = Some Dir" "lookup ?w (container_metadata_path web) \<noteq> None"
    by (auto simp: lookup_def IMAGE_STORAGE_DIR_def METADATA_DIR_def CONTAINER_STORAGE_DIR_def CONTAINER_METADATA_DIR_def CONTAINER_LOG_DIR_def)
  have again: "lookup v q = Some Dir \<Longrightarrow> mkdir os q v = (Some EEXIST, v)" for v q os by (simp add: mkdir_def)
  have i: "init_image_system calm_os ?w = (0, ?w)"
    using again [OF d(1)] again [OF d(2)]
    by (simp add: init_image_system_def create_directory_structure_def image_dirs_loop.simps)
  have c: "init_container_system calm_os ?w = (0, ?w)"
    using again [OF d(3)] again [OF d(4)] again [OF d(5)]
    by (simp add: init_container_system_def create_container_directories_def container_dirs_loop.simps)
  have "bind_result ?net < 0" by simp
  then obtain w' where "daemon_main calm_os ?net [] ?w = Some (Some (- 1), [], w')" "\<forall>cid. length cid < 400 \<longrightarrow> \<not> container_exists cid w'"
    using second_daemon_wipes [OF calm_rm i c, of ?net "[]"] by blast
  moreover have "container_exists web ?w" using d(6) by (simp add: container_exists_def access_ok_def)
  moreover have "length web < 400" using id_props(1) [of 0] by (simp add: web_def)
  ultimately show ?thesis by blast
qed

end
