(* ===== verification/Program.thy ===== *)
theory Program imports CliParser Client Daemon begin

text \<open>
  The client program, \<open>main.c\<close>, and the connection of its model to the model of the daemon: the peer
  whose exchange is one connection of the server.
\<close>

section \<open>The client's main function\<close>

text \<open>The switch over the commands. Every field is passed as a pointer into the parsed record, so no
  argument is ever null.\<close>

definition run_switch :: "'d peer \<Rightarrow> parsed_command \<Rightarrow> 'd \<Rightarrow> (int \<times> string \<times> 'd) option" where
  "run_switch l cmd d = do {
     img \<leftarrow> cstr (image_name cmd);
     name \<leftarrow> cstr (container_name cmd);
     file \<leftarrow> cstr (dockerfile_path cmd);
     wd \<leftarrow> cstr (parsed_command.working_dir cmd);
     command \<leftarrow> cstr (command cmd);
     ports \<leftarrow> cstr (port_mapping cmd);
     vols \<leftarrow> cstr (volume_mapping cmd);
     env \<leftarrow> cstr (parsed_command.env_vars cmd);
     (case ctype cmd of
        CMD_RUN \<Rightarrow> docker_run l (Some img) (Some command) (Some name) (Some wd) (Some env) (Some ports) (Some vols)
                     (interactive cmd) (tty cmd) (detach cmd) d
      | CMD_BUILD \<Rightarrow> docker_build l (Some img) (Some file) (Some wd) d
      | CMD_IMAGES \<Rightarrow> docker_images l d
      | CMD_CONTAINERS \<Rightarrow> docker_containers l d
      | CMD_PS \<Rightarrow> docker_containers l d
      | CMD_STOP \<Rightarrow> docker_stop l (Some name) d
      | CMD_RM \<Rightarrow> docker_rm l (Some name) d
      | CMD_RMI \<Rightarrow> docker_rmi l (Some img) d
      | CMD_LOGS \<Rightarrow> (let (r, out) = docker_logs (Some name) in Some (r, out, d))
      | CMD_EXEC \<Rightarrow> (let (r, out) = docker_exec (Some name) (Some command) in Some (r, out, d))
      | CMD_COMMIT \<Rightarrow> (let (r, out) = docker_commit (Some name) (Some img) (Some command) in Some (r, out, d))
      | _ \<Rightarrow> Some (- 1, [], d))
   }"

text \<open>\<open>is_daemon_running\<close> connects and closes; a daemon that is there sees a connection without a request.\<close>

definition ping :: "'d peer \<Rightarrow> dial \<Rightarrow> 'd \<Rightarrow> (bool \<times> 'd) option" where
  "ping l a d =
     (if is_daemon_running a then p_exchange l [] d \<bind> (\<lambda>(_, d1). Some (True, d1)) else Some (False, d))"

text \<open>The exit status, the standard output, the client's own world and the daemon's state.\<close>

definition main ::
  "os \<Rightarrow> 'd peer \<Rightarrow> dial \<Rightarrow> starter \<Rightarrow> string list \<Rightarrow> world \<Rightarrow> 'd \<Rightarrow> (int \<times> string \<times> world \<times> 'd) option" where
  "main os l a st argv w d = do {
     (c, w1) \<leftarrow> parse_arguments os argv w;
     (case c of
        None \<Rightarrow> parse_output argv \<bind> (\<lambda>out. Some (1, out, w1, d))
      | Some cmd \<Rightarrow> do {
          valid \<leftarrow> validate_command cmd;
          (if valid = 0 then Some (1, [], w1, d)
           else do {
             (up, d1) \<leftarrow> ping l a d;
             (if ctype cmd = CMD_DAEMON then
                (if up then Some (0, ''Daemon is already running'' @ [LF], w1, d1)
                 else let (r, out, fates) = start_daemon st in
                   Some (if r \<noteq> 0 then 1 else 0, ''Starting daemon...'' @ [LF] @ out, w1, d1))
              else if \<not> up then Some (1, [], w1, d1)
              else do {
                (result, out, d2) \<leftarrow> run_switch l cmd d1;
                Some (if result = 0 then 0 else 1, out, w1, d2)
              })
           })
        })
   }"

lemma main_usage: "main os l a st [prog] w d = Some (1, print_usage prog, w, d)"
  by (simp add: main_def parse_arguments_def parse_output_def)

section \<open>The daemon at the other end\<close>

text \<open>One connection of the server, whole text in one \<open>recv\<close>; a connection that gets no answer is
  closed, so that the client receives nothing.\<close>

definition serve_one :: "os \<Rightarrow> garbage \<Rightarrow> string \<Rightarrow> world \<Rightarrow> (string option \<times> world) option" where
  "serve_one os g s w =
     serve os [Connected g True s] w \<bind> (\<lambda>(ts, w1). Some (case ts of [Some t] \<Rightarrow> Some t | _ \<Rightarrow> Some [], w1))"

text \<open>A working connection to a daemon whose memory is of the declared sizes and never runs out.\<close>

definition linked :: "world peer \<Rightarrow> os \<Rightarrow> garbage \<Rightarrow> bool" where
  "linked l os g \<longleftrightarrow> connected l \<and> p_exchange l = serve_one os g \<and> sized_garbage g \<and> (\<forall>n. alloc os n)"

abbreviation after :: "nat \<Rightarrow> world \<Rightarrow> world" where
  "after n w \<equiv> w\<lparr>allocs := allocs w + n\<rparr>"

lemma serve_one_answer:
  assumes "linked l os g" "handle_client os g True s (after 1 w) = Some (Some t, w')"
  shows "serve_one os g s w = Some (Some t, w')"
  using assms by (simp add: serve_one_def linked_def malloc_def)

lemma exchange_answer:
  assumes "linked l os g" "length m \<le> 15" "length u \<le> 511" "fits_wire code msg b"
    and "\<And>beyond. handle_client os g True (http_bytes m u beyond) (after 1 w) = Some (Some (wire code msg b), w')"
  shows "talk l m u bd w = Some (Some (code, b), w')"
proof -
  obtain beyond where r: "create_http_request m u bd = http_bytes m u beyond"
    using request_is_http_bytes [OF assms(2,3)] by blast
  show ?thesis
    by (rule talk_wire [OF _ assms(4)])
      (use assms(1) serve_one_answer [OF assms(1) assms(5)] in \<open>auto simp: linked_def r\<close>)
qed

lemma refused:
  assumes "linked l os g" "good_words m u" "length m \<le> 15" "\<not> routed m u"
  shows "talk l m u bd w = Some (Some (404, not_found_text u), after 2 w)"
proof (rule exchange_answer [OF assms(1,3)])
  show "length u \<le> 511" using assms(2) by (simp add: good_words_def)
  show "fits_wire 404 ''Not Found'' (not_found_text u)"
    by (simp add: fits_wire_def fits_int_def not_found_text_def)
  fix beyond
  have g: "sized_garbage g" "alloc os (allocs (after 1 w))" using assms(1) by (simp_all add: linked_def)
  show "handle_client os g True (http_bytes m u beyond) (after 1 w) = Some (Some (wire 404 ''Not Found'' (not_found_text u)), after 2 w)"
    using serve_reply [OF assms(2) g api_not_found [OF _ assms(4)], of True beyond]
    by (simp add: not_found_text_def)
qed

section \<open>What each command achieves\<close>

lemma create_talk:
  assumes "linked l os g" "good_words ''POST'' u" "contains u ''/containers/create''"
  shows "talk l ''POST'' u bd w = Some (Some (400, ''{\"error\": \"Image name required\"}''), after 2 w)"
proof (rule exchange_answer [OF assms(1)])
  show "length u \<le> 511" using assms(2) by (simp add: good_words_def)
  show "fits_wire 400 ''Bad Request'' ''{\"error\": \"Image name required\"}''" by (simp add: fits_wire_def fits_int_def)
  fix beyond
  have "sublist ''/containers'' ''/containers/create''" by (simp add: sublist_code)
  then have c: "contains u ''/containers''"
    using assms(3) unfolding contains_sublist by (rule sublist_order.order_trans)
  have g: "sized_garbage g" "alloc os (allocs (after 1 w))" using assms(1) by (simp_all add: linked_def)
  have h: "handle_api_request os g req r v = reply r 400 ''Bad Request'' ''{\"error\": \"Image name required\"}'' v"
    if "asks req ''POST'' u" for req r v
    using that c assms(3) create_needs_image [OF that]
    by (simp add: handle_api_request_def handle_containers_api_def asks_def Let_def)
  show "handle_client os g True (http_bytes ''POST'' u beyond) (after 1 w) =
      Some (Some (wire 400 ''Bad Request'' ''{\"error\": \"Image name required\"}''), after 2 w)"
    using serve_reply [OF assms(2) g h, of True beyond] by simp
qed simp

lemma docker_run_result:
  assumes "linked l os g"
  shows "docker_run l img cmd name wd env ports vols i t d w = Some (- 1, [], after 2 w)"
proof -
  have g: "good_words ''POST'' ''/containers/create''" by (simp add: good_words_def token_def)
  have c: "contains ''/containers/create'' ''/containers/create''" by (simp add: contains_sublist)
  show ?thesis by (rule run_cmd.other_status [OF create_talk [OF assms g c]]) simp
qed

lemma containers_url:
  assumes "plain_id i" "a \<in> {''stop'', ''remove''}"
  shows "snprintf 512 (''/containers/'' @ i @ ''/'' @ a) = container_url i a"
    "m = ''POST'' \<or> m = ''DELETE'' \<Longrightarrow> good_words m (container_url i a)"
proof -
  have l: "length i < 256" "length a \<le> 6" using assms by (auto simp: plain_id_def)
  then have "length (''/containers/'' @ i @ ''/'' @ a) < 512" by simp
  then show "snprintf 512 (''/containers/'' @ i @ ''/'' @ a) = container_url i a"
    by (simp add: snprintf_id container_url_def)
  show "m = ''POST'' \<or> m = ''DELETE'' \<Longrightarrow> good_words m (container_url i a)"
    using assms by (auto simp: good_words_def token_def plain_id_def container_url_def)
qed

lemma container_commands_result:
  assumes "linked l os g" "plain_id i"
  shows "docker_stop l (Some i) w = Some (- 1, [], after 2 w)" "docker_rm l (Some i) w = Some (- 1, [], after 2 w)"
    "docker_containers l w = Some (- 1, [], after 2 w)"
proof -
  note s = containers_url [OF assms(2), of "''stop''", simplified] and r = containers_url [OF assms(2), of "''remove''", simplified]
  have c: "contains (container_url i ''stop'') ''/containers''" "contains (container_url i ''remove'') ''/containers''"
    using container_url_contains(1) [OF assms(2)] by simp_all
  show "docker_stop l (Some i) w = Some (- 1, [], after 2 w)"
  proof (cases "contains (container_url i ''stop'') ''/containers/create''")
    case True
    show ?thesis
      by (rule stop_cmd.other_status [of l i w 400]) (use create_talk [OF assms(1) s(2) True] s(1) in auto)
  next
    case False
    then have n: "\<not> routed ''POST'' (container_url i ''stop'')" using c by (simp add: routed_def)
    show ?thesis
      by (rule stop_cmd.other_status [of l i w 404]) (use refused [OF assms(1) s(2) _ n] s(1) in auto)
  qed
  have n: "\<not> routed ''DELETE'' (container_url i ''remove'')" using c by (simp add: routed_def)
  show "docker_rm l (Some i) w = Some (- 1, [], after 2 w)"
    by (rule rm_cmd.other_status [of l i w 404]) (use refused [OF assms(1) r(2) _ n] r(1) in auto)
  have j: "good_words ''GET'' ''/containers/json''" by (simp add: good_words_def token_def)
  have "contains ''/containers/json'' ''/containers''" "contains ''/containers/json'' ''/containers/json''"
    by (simp_all add: contains_sublist sublist_code)
  then have n: "\<not> routed ''GET'' ''/containers/json''" by (simp add: routed_def)
  show "docker_containers l w = Some (- 1, [], after 2 w)"
    by (rule containers_cmd.other_status [OF refused [OF assms(1) j _ n]]) simp_all
qed

lemma other_gets:
  assumes "linked l os g"
  shows "docker_version l w = Some (- 1, [], after 2 w)" "docker_info l w = Some (- 1, [], after 2 w)"
proof -
  have g: "good_words ''GET'' ''/version''" "good_words ''GET'' ''/info''" by (simp_all add: good_words_def token_def)
  have n: "\<not> routed ''GET'' ''/version''" "\<not> routed ''GET'' ''/info''" by (simp_all add: routed_def contains_def)
  show "docker_version l w = Some (- 1, [], after 2 w)"
    by (rule version_cmd.other_status [OF refused [OF assms g(1) _ n(1)]]) simp_all
  show "docker_info l w = Some (- 1, [], after 2 w)"
    by (rule info_cmd.other_status [OF refused [OF assms g(2) _ n(2)]]) simp_all
qed

lemma empty_listing:
  "print_images_json ''[]'' = Some (''REPOSITORY    TAG    IMAGE ID    CREATED    SIZE'' @ [LF] @
     ''------------------------------------------------'' @ [LF])"
  by (simp add: print_images_json_def skip_key_def quoted_field_def number_field_def column_def)

lemma docker_images_result:
  assumes "linked l os g" "lookup w METADATA_DIR = Some Dir" "\<not> deny_read os METADATA_DIR"
    and "\<forall>q. prefix (METADATA_DIR @ ''//tmp'') q \<longrightarrow> lookup w q = None"
  shows "\<exists>k. docker_images l w = Some (0, ''REPOSITORY    TAG    IMAGE ID    CREATED    SIZE'' @ [LF] @
     ''------------------------------------------------'' @ [LF], w\<lparr>allocs := k\<rparr>)"
proof -
  have g: "sized_garbage g" "\<forall>n. alloc os n" using assms(1) by (simp_all add: linked_def)
  have e: "\<forall>q. prefix (METADATA_DIR @ ''//tmp'') q \<longrightarrow> lookup (after 1 w) q = None" "lookup (after 1 w) METADATA_DIR = Some Dir"
    using assms(2,4) by (simp_all add: fs_simps)
  obtain beyond where r: "create_http_request ''GET'' ''/images/json'' None = http_bytes ''GET'' ''/images/json'' beyond"
    using request_is_http_bytes [of "''GET''" "''/images/json''" None] by auto
  obtain k where "handle_client os g True (http_bytes ''GET'' ''/images/json'' beyond) (after 1 w) =
      Some (Some (wire 200 ''OK'' ''[]''), after 1 w\<lparr>allocs := k\<rparr>)"
    using images_list_run [OF g e(2) assms(3) e(1)] by blast
  then have "p_exchange l (create_http_request ''GET'' ''/images/json'' None) w = Some (Some (wire 200 ''OK'' ''[]''), w\<lparr>allocs := k\<rparr>)"
    using serve_one_answer [OF assms(1)] assms(1) by (simp add: linked_def r)
  moreover have "fits_wire 200 ''OK'' ''[]''" by (simp add: fits_wire_def fits_int_def)
  ultimately have "talk l ''GET'' ''/images/json'' None w = Some (Some (200, ''[]''), w\<lparr>allocs := k\<rparr>)"
    using talk_wire [of l 200 "''OK''" "''[]''"] assms(1) by (simp add: linked_def)
  from images_cmd.accepted [OF this empty_listing] show ?thesis by blast
qed

lemma docker_rmi_result:
  assumes "linked l os g" "image_word i" "remove_image os i (after 2 w) = (e, w')"
  shows "docker_rmi l (Some i) w =
    (if e = 0 then Some (0, ''Image '' @ i @ '' removed'' @ [LF], w') else Some (- 1, [], w'))"
proof -
  have g: "sized_garbage g" "alloc os (allocs (after 1 w))" using assms(1) by (simp_all add: linked_def)
  have l: "length i < 256" using assms(2) by (simp add: image_word_def)
  have u: "snprintf 512 (''/images/'' @ i) = ''/images/'' @ i" using l by (simp add: snprintf_id)
  have e: "remove_image os i ((after 1 w)\<lparr>allocs := Suc (allocs (after 1 w))\<rparr>) = (e, w')" using assms(3) by simp
  have "talk l ''DELETE'' (''/images/'' @ i) None w =
      (if e = 0 then Some (Some (200, ''{\"message\": \"Image removed successfully\"}''), w')
       else Some (Some (500, ''{\"error\": \"Failed to remove image\"}''), w'))"
  proof (cases "e = 0")
    case True
    have "talk l ''DELETE'' (''/images/'' @ i) None w = Some (Some (200, ''{\"message\": \"Image removed successfully\"}''), w')"
      by (rule exchange_answer [OF assms(1), of _ _ _ "''OK''"])
        (use l image_remove_run [OF assms(2) g e] True in \<open>simp_all add: fits_wire_def fits_int_def\<close>)
    then show ?thesis using True by simp
  next
    case False
    have "talk l ''DELETE'' (''/images/'' @ i) None w = Some (Some (500, ''{\"error\": \"Failed to remove image\"}''), w')"
      by (rule exchange_answer [OF assms(1), of _ _ _ "''Internal Server Error''"])
        (use l image_remove_run [OF assms(2) g e] False in \<open>simp_all add: fits_wire_def fits_int_def\<close>)
    then show ?thesis using False by simp
  qed
  then show ?thesis
    using rmi_cmd.accepted [of l i w "''{\"message\": \"Image removed successfully\"}''" w'] rmi_cmd.other_status [of l i w 500 _ w']
    unfolding u by (auto split: if_split_asm)
qed

lemma docker_build_result:
  assumes "linked l os g" "u = snprintf 512 (''/build?t='' @ i @ ''&dockerfile='' @ f)" "good_words ''POST'' u"
    and "\<not> contains u ''/images''" "\<not> contains u ''/containers''"
  shows "docker_build l (Some i) (Some f) ctx w = Some (- 1, [], after 2 w)"
proof -
  have n: "\<not> routed ''POST'' u" using assms(4,5) by (simp add: routed_def)
  show ?thesis
    by (rule build_cmd.other_status [of l "Some i" "Some f" w 404])
      (use refused [OF assms(1,3) _ n] in \<open>simp_all add: assms(2) or_default_def\<close>)
qed

section \<open>The main function\<close>

lemma serve_one_nothing: "serve_one os g [] w = Some (Some [], after 1 w)"
  by (simp add: serve_one_def handle_client_def malloc_def)

lemma ping_up: "linked l os g \<Longrightarrow> ping l a w = Some (if attempt_connect a = 0 then (True, after 1 w) else (False, w))"
  by (simp add: ping_def is_daemon_running_def linked_def serve_one_nothing)

lemma rmi_main:
  assumes "linked l os g" "\<forall>b \<in> set args. no_nul b" "no_nul prog" "lookup d (image_metadata_path []) = None"
  shows "\<exists>w1 d1. main os' l a st (prog # ''rmi'' # args) w d = Some (1, [], w1, d1) \<and> (\<forall>q. lookup d1 q = lookup d q)"
proof -
  have nn: "\<forall>b \<in> set (prog # ''rmi'' # args). no_nul b" using assms(2,3) by simp
  obtain c w1 where p: "parse_arguments os' (prog # ''rmi'' # args) w = Some (c, w1)"
    by (cases "parse_arguments os' (prog # ''rmi'' # args) w")
      (auto simp: parse_arguments_def parse_options_def get_command_type_def Let_def case_prod_unfold split: if_split_asm)
  show ?thesis
  proof (cases c)
    case None
    then show ?thesis using p by (simp add: main_def parse_output_def)
  next
    case (Some cmd)
    note r = rmi_parse [OF nn refl p [unfolded Some]]
    have wf: "wf_command cmd" using parse_arguments_fields [OF nn p [unfolded Some]] by simp
    have f: "cstr (container_name cmd) \<noteq> None" "cstr (dockerfile_path cmd) \<noteq> None" "cstr (parsed_command.working_dir cmd) \<noteq> None"
      "cstr (command cmd) \<noteq> None" "cstr (port_mapping cmd) \<noteq> None" "cstr (volume_mapping cmd) \<noteq> None"
      "cstr (parsed_command.env_vars cmd) \<noteq> None"
      using wf by (auto simp: wf_command_def dest!: zterm_cstr)
    have sw: "run_switch l cmd v = docker_rmi l (Some []) v" for v
      using f r(1,3) by (auto simp: run_switch_def)
    have iw: "image_word []" by (simp add: image_word_def)
    have "lookup (after 2 (after 1 d)) (image_metadata_path []) = None" using assms(4) by (simp add: fs_simps)
    then have "remove_image os [] (after 2 (after 1 d)) = (- 1, after 2 (after 1 d))"
      by (simp add: remove_image_def unlink_def)
    then have "docker_rmi l (Some []) (after 1 d) = Some (- 1, [], after 2 (after 1 d))"
      using docker_rmi_result [OF assms(1) iw] by simp
    then show ?thesis
      using p Some r ping_up [OF assms(1), of a d] by (cases "attempt_connect a = 0") (simp_all add: main_def sw fs_simps)
  qed
qed

section \<open>Sessions\<close>

lemma talk_quiet:
  assumes "talk l m u b w = Some (r, w')"
    and "\<And>s t v. s = [] \<or> s = create_http_request m u b \<Longrightarrow> p_exchange l s w = Some (t, v) \<Longrightarrow> same_processes w v"
  shows "same_processes w w'"
proof (cases "connect_to_daemon l < 0")
  case True
  then show ?thesis using assms(1) quiet.R_refl by (simp add: talk_def)
next
  case False
  then obtain s answer v where sr: "send_request_to_daemon l m u b w = Some (s, answer, v)"
    using assms(1) by (auto simp: talk_def bind_Some_iff)
  have "w' = v"
    using assms(1) False by (auto simp: talk_def sr bind_Some_iff Let_def split: if_split_asm prod.splits)
  moreover have "same_processes w v"
    using sr by (auto simp: send_request_to_daemon_def Let_def bind_Some_iff split: if_split_asm intro: assms(2))
  ultimately show ?thesis by simp
qed

lemma serve_one_quiet:
  assumes "serve_one os g s w = Some (t, w')"
    and "\<And>t v v'. handle_client os g True s v = Some (t, v') \<Longrightarrow> same_processes v v'"
  shows "same_processes w w'"
proof -
  have "same_processes w (snd (malloc os w))" using quiet.calls_snd(7) [OF quiet.R_refl] .
  then show ?thesis
    using assms(1) assms(2) quiet.R_trans
    by (auto simp: serve_one_def malloc_def bind_Some_iff split: if_split_asm)
qed

lemma nothing_quiet: "serve_one os g [] w = Some (t, v) \<Longrightarrow> same_processes w v"
  by (auto simp: serve_one_nothing same_processes_def)

lemma write_talk_quiet:
  assumes "linked l os g" "talk l m u b w = Some (r, w')" "m = ''POST'' \<or> m = ''DELETE''"
  shows "same_processes w w'"
proof (rule talk_quiet [OF assms(2)])
  fix s t v
  assume s: "s = [] \<or> s = create_http_request m u b" and e: "p_exchange l s w = Some (t, v)"
  have m: "token m" "length m < 15" "m \<noteq> ''GET''" using assms(3) by (auto simp: token_def)
  have g: "length (rmethod (g_request g)) = 16" using assms(1) by (simp add: linked_def sized_garbage_def sized_request_def)
  obtain x where x: "create_http_request m u b = m @ CHR '' '' # x"
    using m(2) by (simp add: create_http_request_def snprintf_def Let_def take_Cons')
  show "same_processes w v"
  proof (cases "s = []")
    case True
    then show ?thesis using e assms(1) nothing_quiet by (simp add: linked_def)
  next
    case False
    then have "serve_one os g (m @ CHR '' '' # x) w = Some (t, v)" using s e assms(1) x by (simp add: linked_def)
    then show ?thesis using other_methods_quiet [OF _ m g] by (rule serve_one_quiet)
  qed
qed

lemma get_talk_quiet:
  assumes "linked l os g" "talk l ''GET'' u b w = Some (r, w')" "good_words ''GET'' u"
    and "\<not> contains u ''/containers/'' \<or> \<not> routed ''GET'' u"
  shows "same_processes w w'"
proof (rule talk_quiet [OF assms(2)])
  fix s t v
  assume s: "s = [] \<or> s = create_http_request ''GET'' u b" and e: "p_exchange l s w = Some (t, v)"
  obtain beyond where x: "create_http_request ''GET'' u b = http_bytes ''GET'' u beyond"
    using request_is_http_bytes [of "''GET''" u b] assms(3) by (auto simp: good_words_def)
  have g: "sized_garbage g" "\<And>n. alloc os n" using assms(1) by (simp_all add: linked_def)
  have q: "same_processes v v'" if h: "handle_client os g True (http_bytes ''GET'' u beyond) v = Some (t, v')" for t v v'
  proof -
    obtain req where req: "asks req ''GET'' u" and run: "handle_client os g True (http_bytes ''GET'' u beyond) v =
         handle_api_request os g req (g_response g) (v\<lparr>allocs := Suc (allocs v)\<rparr>) \<bind> (\<lambda>(h, r, w2).
           (if h \<noteq> 0 then create_http_response r 500 ''Internal Server Error'' (Some ''Failed to handle request'') else Some r) \<bind>
           (\<lambda>r1. log_response r1 \<bind> (\<lambda>_. response_text r1 \<bind> (\<lambda>t. Some (Some t, w2)))))"
      by (rule handle_client_request [OF assms(3) g])
    have v: "same_processes v (v\<lparr>allocs := Suc (allocs v)\<rparr>)" by (simp add: same_processes_def)
    have "run_ok (handle_api_request os g req (g_response g) (v\<lparr>allocs := Suc (allocs v)\<rparr>)) (\<lambda>p. same_processes v (snd (snd p)))"
    proof (cases "routed ''GET'' u")
      case False
      then show ?thesis using api_not_found [OF req False] quiet.run_reply [OF v] by simp
    next
      case True
      then show ?thesis using assms(4) req by (intro quiet.quiet_api_R [OF v]) (auto simp: asks_def)
    qed
    then show ?thesis using h unfolding run by (auto simp: bind_Some_iff run_ok_def)
  qed
  show "same_processes w v"
  proof (cases "s = []")
    case True
    then show ?thesis using e assms(1) nothing_quiet by (simp add: linked_def)
  next
    case False
    then have "serve_one os g (http_bytes ''GET'' u beyond) w = Some (t, v)" using s e assms(1) x by (simp add: linked_def)
    then show ?thesis using q by (rule serve_one_quiet)
  qed
qed

lemma commands_quiet:
  assumes "linked l os g"
  shows "docker_run l im cm nm wd en po vo i t dt w = Some (r, out, w') \<Longrightarrow> same_processes w w'"
    "docker_build l im fi cx w = Some (r, out, w') \<Longrightarrow> same_processes w w'"
    "docker_images l w = Some (r, out, w') \<Longrightarrow> same_processes w w'"
    "docker_containers l w = Some (r, out, w') \<Longrightarrow> same_processes w w'"
    "docker_stop l (Some c) w = Some (r, out, w') \<Longrightarrow> same_processes w w'"
    "docker_rm l (Some c) w = Some (r, out, w') \<Longrightarrow> same_processes w w'"
    "docker_rmi l (Some c) w = Some (r, out, w') \<Longrightarrow> same_processes w w'"
proof -
  note wt = write_talk_quiet [OF assms] and gt = get_talk_quiet [OF assms]
  show "docker_run l im cm nm wd en po vo i t dt w = Some (r, out, w') \<Longrightarrow> same_processes w w'"
    by (drule run_cmd.run_talk, erule exE, rule wt, assumption, simp)
  show "docker_build l im fi cx w = Some (r, out, w') \<Longrightarrow> same_processes w w'"
    by (drule build_cmd.run_talk, erule exE, rule wt, assumption, simp)
  have gw: "good_words ''GET'' ''/images/json''" "good_words ''GET'' ''/containers/json''" by (simp_all add: good_words_def token_def)
  have "\<not> contains ''/images/json'' ''/containers/''" by (simp add: contains_def)
  then show "docker_images l w = Some (r, out, w') \<Longrightarrow> same_processes w w'"
    using gt [OF _ gw(1)] by (metis images_cmd.run_talk)
  have "contains ''/containers/json'' ''/containers''" "contains ''/containers/json'' ''/containers/json''"
    by (simp_all add: contains_sublist sublist_code)
  then have "\<not> routed ''GET'' ''/containers/json''" by (simp add: routed_def)
  then show "docker_containers l w = Some (r, out, w') \<Longrightarrow> same_processes w w'"
    using gt [OF _ gw(2)] by (metis containers_cmd.run_talk)
  show "docker_stop l (Some c) w = Some (r, out, w') \<Longrightarrow> same_processes w w'"
    by (drule stop_cmd.run_talk, erule exE, rule wt, assumption, simp)
  show "docker_rm l (Some c) w = Some (r, out, w') \<Longrightarrow> same_processes w w'"
    by (drule rm_cmd.run_talk, erule exE, rule wt, assumption, simp)
  show "docker_rmi l (Some c) w = Some (r, out, w') \<Longrightarrow> same_processes w w'"
    by (drule rmi_cmd.run_talk, erule exE, rule wt, assumption, simp)
qed

lemma switch_quiet:
  assumes "linked l os g" "run_switch l cmd w = Some (r, out, w')"
  shows "same_processes w w'"
  using assms(2) commands_quiet [OF assms(1)]
  by (cases "ctype cmd") (auto simp: run_switch_def bind_Some_iff Let_def quiet.R_refl case_prod_unfold)

lemma ping_quiet: "linked l os g \<Longrightarrow> ping l a w = Some (up, w') \<Longrightarrow> same_processes w w'"
  by (auto simp: ping_up same_processes_def split: if_split_asm)

lemma main_quiet:
  assumes "linked l os g" "main os' l a st argv w d = Some (r, out, w', d')"
  shows "same_processes d d'"
proof -
  have "run_ok (main os' l a st argv w d) (\<lambda>(r, out, w', d'). same_processes d d')"
    unfolding main_def Let_def run_simps
    using ping_quiet [OF assms(1)] switch_quiet [OF assms(1)] quiet.R_trans [of d] quiet.R_refl [of d]
    by blast
  then show ?thesis using assms(2) by (simp add: run_ok_def)
qed

text \<open>A daemon's world while client programs, and nobody else, talk to it.\<close>

inductive session :: "os \<Rightarrow> world \<Rightarrow> world \<Rightarrow> bool" for os d where
  quiet_start: "session os d d"
| client: "session os d d1 \<Longrightarrow> linked l os g \<Longrightarrow> main os' l a st argv w d1 = Some (r, out, w', d2) \<Longrightarrow> session os d d2"

lemma session_quiet: "session os d d' \<Longrightarrow> same_processes d d'"
  by (induction rule: session.induct) (auto intro: quiet.R_refl quiet.R_trans main_quiet)

text \<open>A linked peer, for the concrete instances.\<close>

definition calm_peer :: "world peer" where
  "calm_peer = \<lparr>p_socket = 4, p_inet = 1, p_connect = 0, p_send = 100, p_exchange = serve_one calm_os zero_garbage,
     p_status = 0, p_body = zbuf 8192\<rparr>"

definition up_dial :: dial where
  "up_dial = \<lparr>d_socket = 4, d_inet = 1, d_connect = 0\<rparr>"

definition calm_starter :: starter where
  "calm_starter = \<lparr>probe = up_dial, self_exe = Some ''/usr/bin/docker-clone'', executable = (\<lambda>p. True),
     launching = \<lparr>fork1 = 7, setsid_result = 7, fork2 = 8, exec_ok = True\<rparr>, dials = (\<lambda>n. up_dial)\<rparr>"

lemma calm_linked: "linked calm_peer calm_os zero_garbage"
  by (simp add: linked_def connected_def calm_peer_def)

lemma up_answers: "attempt_connect up_dial = 0"
  by (simp add: attempt_connect_def up_dial_def)

end
