(* ===== verification/Demos.thy ===== *)
theory Demos imports OS begin

text \<open>
  The two stand-alone demonstrations of kernel features, \<open>eg/cgroups.c\<close> and \<open>eg/namespaces.c\<close>. Both are
  straight sequences of system calls that stop at the first failure. What the kernel answers is a parameter: a
  function of the calls made so far and the new call, so that it may remember.
\<close>

section \<open>System calls\<close>

datatype call =
    Open path | Write path string | Close path | Mkdir path | Rmdir path
  | Set_hostname string nat | Mount_private path | Mount_tmpfs path | Mkdirat path | Pivot_root path path
  | Change_dir path | Umount_detach path | Exec "string list" | Malloc nat | Release | Clone | Waitpid int

datatype answer = Works int | Fails errno

type_synonym kernel = "call list \<Rightarrow> call \<Rightarrow> answer"

record run =
  made :: "call list"
  printed :: string

datatype ending = Exit int | Becomes "string list"

definition begin_run :: run where
  "begin_run = \<lparr>made = [], printed = []\<rparr>"

definition record_call :: "call \<Rightarrow> run \<Rightarrow> run" where
  "record_call c r = r\<lparr>made := made r @ [c]\<rparr>"

text \<open>
  The statements, each with the rest of the program: \<open>printf\<close>, a call whose result is used, a call whose
  failure ends the process by \<open>die\<close>, a call whose result is ignored.
\<close>

definition say :: "string \<Rightarrow> (run \<Rightarrow> ending \<times> run) \<Rightarrow> run \<Rightarrow> ending \<times> run" where
  "say s rest r = rest (r\<lparr>printed := printed r @ s\<rparr>)"

definition ask :: "kernel \<Rightarrow> call \<Rightarrow> (answer \<Rightarrow> run \<Rightarrow> ending \<times> run) \<Rightarrow> run \<Rightarrow> ending \<times> run" where
  "ask k c rest r = rest (k (made r) c) (record_call c r)"

definition die :: "run \<Rightarrow> ending \<times> run" where
  "die r = (Exit 1, r)"

definition must :: "kernel \<Rightarrow> call \<Rightarrow> (run \<Rightarrow> ending \<times> run) \<Rightarrow> run \<Rightarrow> ending \<times> run" where
  "must k c rest = ask k c (\<lambda>a. case a of Works v \<Rightarrow> rest | Fails e \<Rightarrow> die)"

definition must_or_exist :: "kernel \<Rightarrow> call \<Rightarrow> (run \<Rightarrow> ending \<times> run) \<Rightarrow> run \<Rightarrow> ending \<times> run" where
  "must_or_exist k c rest = ask k c (\<lambda>a. case a of Works v \<Rightarrow> rest | Fails e \<Rightarrow> if e = EEXIST then rest else die)"

definition ignoring :: "kernel \<Rightarrow> call \<Rightarrow> (run \<Rightarrow> ending \<times> run) \<Rightarrow> run \<Rightarrow> ending \<times> run" where
  "ignoring k c rest = ask k c (\<lambda>a. rest)"

section \<open>\<open>cgroups.c\<close>\<close>

definition CGROUP_BASE_PATH :: path where "CGROUP_BASE_PATH = ''/sys/fs/cgroup''"
definition CGROUP_NAME :: string where "CGROUP_NAME = ''my_cgroup_example''"
definition MEMORY_LIMIT_BYTES :: string where "MEMORY_LIMIT_BYTES = ''10000000''"

definition cgroup_path :: path where
  "cgroup_path = snprintf 256 (CGROUP_BASE_PATH @ ''/'' @ CGROUP_NAME)"
definition subtree_control_path :: path where
  "subtree_control_path = snprintf 256 (CGROUP_BASE_PATH @ ''/cgroup.subtree_control'')"
definition procs_path :: path where
  "procs_path = snprintf 256 (cgroup_path @ ''/cgroup.procs'')"
definition limit_path :: path where
  "limit_path = snprintf 256 (cgroup_path @ ''/memory.max'')"

text \<open>Open a control file, write one string, close it; a failed write closes the file before it dies.\<close>

definition write_control :: "kernel \<Rightarrow> path \<Rightarrow> string \<Rightarrow> (run \<Rightarrow> ending \<times> run) \<Rightarrow> run \<Rightarrow> ending \<times> run" where
  "write_control k p s rest =
     must k (Open p)
       (ask k (Write p s) (\<lambda>a.
          case a of Fails e \<Rightarrow> ignoring k (Close p) die | Works n \<Rightarrow> ignoring k (Close p) rest))"

definition cgroups_main :: "kernel \<Rightarrow> int \<Rightarrow> run \<Rightarrow> ending \<times> run" where
  "cgroups_main k pid =
     say (''1. Enabling '' @ [CHR 0x27] @ ''memory'' @ [CHR 0x27] @ '' controller for the root cgroup...'' @ [LF]) (
     write_control k subtree_control_path ''+memory'' (
     say (''2. Creating cgroup directory at: '' @ cgroup_path @ [LF]) (
     must_or_exist k (Mkdir cgroup_path) (
     say (''3. Setting memory limit to '' @ MEMORY_LIMIT_BYTES @ '' bytes...'' @ [LF]) (
     write_control k limit_path MEMORY_LIMIT_BYTES (
     say (''4. Adding current PID to the new cgroup...'' @ [LF]) (
     write_control k procs_path (snprintf 32 (dec_int pid)) (
     say (''5. This process is now limited to '' @ MEMORY_LIMIT_BYTES @ '' bytes of memory.'' @ [LF]) (
     say (''Attempting to allocate more than the limit...'' @ [LF]) (
     ask k (Malloc (50 * 1024 * 1024)) (\<lambda>big_chunk.
       (case big_chunk of
          Fails e \<Rightarrow> say (''Failed to allocate memory as expected, process likely killed by OOM killer.'' @ [LF])
        | Works p \<Rightarrow> \<lambda>rest. say (''Memory allocation succeeded (this should not happen if the limit is enforced).'' @ [LF])
                        (ignoring k Release rest)) (
     ignoring k (Rmdir cgroup_path) (
     Pair (Exit 0))))))))))))))"

section \<open>\<open>namespaces.c\<close>\<close>

definition new_root :: path where "new_root = ''/tmp/new-root''"

definition demo_child_main :: "kernel \<Rightarrow> int \<Rightarrow> run \<Rightarrow> ending \<times> run" where
  "demo_child_main k pid =
     say (''Child process PID (inside new namespace): '' @ dec_int pid @ [LF]) (
     must k (Set_hostname ''my-container-host'' 17) (
     say (''New hostname is: my-container-host'' @ [LF]) (
     say (''2. Creating a private mount namespace '' @ [LF]) (
     must k (Mount_private ''/'') (
     must_or_exist k (Mkdir new_root) (
     say (''3. Pivoting root to a temporary directory...'' @ [LF]) (
     must k (Mount_tmpfs new_root) (
     must k (Mkdirat ''/tmp/new-root/old-root'') (
     must k (Pivot_root new_root ''/tmp/new-root/old-root'') (
     must k (Change_dir ''/'') (
     must k (Umount_detach ''/old-root'') (
     must k (Rmdir ''/old-root'') (
     say (''4. Executing /bin/bash...'' @ [LF]) (
     ask k (Exec [''/bin/bash'', ''bash'']) (\<lambda>a.
       case a of Works v \<Rightarrow> Pair (Becomes [''/bin/bash'', ''bash'']) | Fails e \<Rightarrow> die)))))))))))))))"

definition STACK_SIZE :: nat where "STACK_SIZE = 1024 * 1024"

text \<open>The parent; \<open>clone\<close> answers with the identifier of the child.\<close>

definition demo_main :: "kernel \<Rightarrow> int \<Rightarrow> run \<Rightarrow> ending \<times> run" where
  "demo_main k pid =
     must k (Malloc STACK_SIZE) (
     say (''Parent process PID: '' @ dec_int pid @ [LF]) (
     say (''Creating new namespaces for child process...'' @ [LF]) (
     ask k Clone (\<lambda>a. case a of
       Fails e \<Rightarrow> ignoring k Release die
     | Works child_pid \<Rightarrow>
         must k (Waitpid child_pid) (
         say (''Child process with PID '' @ dec_int child_pid @ '' exited. Parent is cleaning up.'' @ [LF]) (
         ignoring k Release (
         Pair (Exit 0))))))))"

section \<open>What the demonstrations guarantee\<close>

lemmas demo_simps = say_def ask_def die_def must_def must_or_exist_def ignoring_def write_control_def record_call_def

text \<open>The calls of a complete run of \<open>cgroups.c\<close> up to the moment the process joins the group.\<close>

definition before_joining :: "call list" where
  "before_joining =
     [Open subtree_control_path, Write subtree_control_path ''+memory'', Close subtree_control_path, Mkdir cgroup_path,
      Open limit_path, Write limit_path MEMORY_LIMIT_BYTES, Close limit_path]"

lemma demo_paths: "procs_path \<noteq> limit_path" "procs_path \<noteq> subtree_control_path" "limit_path \<noteq> subtree_control_path"
  by (simp_all add: procs_path_def limit_path_def subtree_control_path_def cgroup_path_def snprintf_id
      CGROUP_BASE_PATH_def CGROUP_NAME_def)

text \<open>
  C40. \<open>cgroups.c\<close>: the process joins the group only after its memory limit was accepted, so it never runs in
  the group without a limit, and it exits with 0 exactly when it got as far as removing the directory.
\<close>

theorem cgroups_limit_first:
  assumes "cgroups_main k pid begin_run = (e, r)"
  shows "(e = Exit 0 \<or> e = Exit 1) \<and> (e = Exit 0 \<longleftrightarrow> Rmdir cgroup_path \<in> set (made r)) \<and>
    ((\<exists>s. Write procs_path s \<in> set (made r)) \<longrightarrow>
       prefix before_joining (made r) \<and> (\<exists>n. k (take 5 before_joining) (Write limit_path MEMORY_LIMIT_BYTES) = Works n))"
  using assms demo_paths
  by (auto simp: cgroups_main_def demo_simps begin_run_def before_joining_def split: answer.splits if_split_asm)

text \<open>
  \<open>namespaces.c\<close>: unlike the container runtime, the demonstration's child runs its command only when every
  call before it worked, \<open>pivot_root\<close> included; otherwise it exits with 1.
\<close>

theorem demo_child_confined:
  assumes "demo_child_main k pid begin_run = (e, r)"
  shows "(e = Exit 1 \<or> e = Becomes [''/bin/bash'', ''bash'']) \<and>
    (Exec c \<in> set (made r) \<longrightarrow>
       c = [''/bin/bash'', ''bash''] \<and> (\<exists>v. k (take 5 (made r)) (Pivot_root new_root ''/tmp/new-root/old-root'') = Works v))"
  using assms
  by (auto simp: demo_child_main_def demo_simps begin_run_def split: answer.splits if_split_asm)

theorem cgroups_limit_first_witness:
  "\<exists>r. cgroups_main (\<lambda>h c. Works 0) 42 begin_run = (Exit 0, r) \<and> Rmdir cgroup_path \<in> set (made r) \<and>
     prefix before_joining (made r)"
proof -
  let ?k = "\<lambda>h c. Works 0"
  obtain r where r: "cgroups_main ?k 42 begin_run = (Exit 0, r)"
    by (simp add: cgroups_main_def demo_simps begin_run_def)
  then have "\<exists>s. Write procs_path s \<in> set (made r)"
    by (auto simp: cgroups_main_def demo_simps begin_run_def)
  then show ?thesis using cgroups_limit_first [OF r] r by blast
qed

theorem demo_child_confined_witness:
  "\<exists>r. demo_child_main (\<lambda>h c. if c = Pivot_root new_root ''/tmp/new-root/old-root'' then Fails EACCES else Works 0) 1 begin_run =
     (Exit 1, r) \<and> (\<forall>c. Exec c \<notin> set (made r))"
proof -
  let ?k = "\<lambda>h c. if c = Pivot_root new_root ''/tmp/new-root/old-root'' then Fails EACCES else Works 0"
  obtain r where r: "demo_child_main ?k 1 begin_run = (Exit 1, r)"
    by (simp add: demo_child_main_def demo_simps begin_run_def)
  show ?thesis using demo_child_confined [OF r] r by auto
qed

end
