(* ===== verification/Spec2Isabelle.thy ===== *)
theory Spec2Isabelle imports CliParser Container Image Dockerfile Http Effects Threads Client Daemon Program Demos begin

text \<open>
  A model of docker-clone: a command line client (\<open>src/main.c\<close>, \<open>core/client.c\<close>,
  \<open>core/cli-parser.c\<close>, \<open>core/daemon.c\<close>) that talks HTTP over one TCP connection per command to a
  daemon (\<open>src/daemon.c\<close>, \<open>core/daemon_runtime.c\<close>, \<open>core/http.c\<close>), which keeps containers
  (\<open>core/container.c\<close>), images (\<open>core/image.c\<close>) and builds from Dockerfiles
  (\<open>core/dockerfile.c\<close>) as files below \<open>/tmp\<close>.

  Conventions. A C function is a HOL function of the same name. A result type \<open>'a option\<close> marks
  functions that can run into undefined behaviour: \<open>None\<close> means a write outside an array, a read of an array
  without terminator, or a number outside the range of \<open>int\<close>; the program's own error codes and null pointers
  are ordinary values. Char arrays are lists of their declared size (\<open>CString.buf\<close>), strings are the bytes
  before the terminator; the functions of the C library that the program uses (\<open>strncpy\<close>, \<open>strcat\<close>,
  \<open>snprintf\<close>, \<open>strstr\<close>, \<open>strtok\<close>, \<open>sscanf\<close>, \<open>fgets\<close>) are defined in \<open>CString\<close>. Variables
  that the code leaves uninitialised are parameters. Loops are structural recursion or carry a measure; there
  is no fuel.

  Theories.
  \<^item> \<open>Prelude\<close>: fact collections, the predicate \<open>run_ok\<close> that pushes a property through a program in the
    option monad, list lemmas.
  \<^item> \<open>CString\<close>: arrays, strings, decimal and hexadecimal numbers, scanning, line splitting; the locale
    \<open>keyed_reader\<close> for the metadata readers.
  \<^item> \<open>OS\<close>: the record \<open>os\<close> (what kernel, shell and clock answer) and the record \<open>world\<close> (files,
    children, signals, counters), the system calls; the locale \<open>keyed_files\<close> for metadata directories; the
    documented behaviour \<open>rm_rf\<close> of \<open>rm -rf\<close>, with a shell that has it.
  \<^item> \<open>CliParser\<close>: \<open>parsed_command_t\<close>, the option loops, validation. A string-level specification of the
    \<open>run\<close> options is refined, overflow included; parsed records are well formed.
  \<^item> \<open>Container\<close>: identifiers, metadata files, create, start, stop, remove, list, the child's call
    sequence, initialisation and cleanup. Round trip of the metadata; what each operation does to files,
    processes and signals, path by path.
  \<^item> \<open>Image\<close>: layers, image metadata, create, list, remove, tag, initialisation and cleanup.
  \<^item> \<open>Dockerfile\<close>: parser, validation and builder, with a buffer-free specification on logical lines that
    the parser implements; the arrays of every parsed file are terminated.
  \<^item> \<open>Http\<close>: request parsing, responses, handlers, routing, connections. The locale
    \<open>container_endpoint\<close> is the contract between the three handlers of a container action and the
    operations of \<open>Container\<close>.
  \<^item> \<open>Effects\<close>: the locales \<open>file_steps\<close> and \<open>process_steps\<close> carry a relation between worlds from the
    system calls to every operation and to the whole server; their interpretations say what leaves processes
    alone, what never shrinks, and where children come from.
  \<^item> \<open>Threads\<close>: one thread per connection, with the position of \<open>strtok\<close> that they share. A schedule
    names who takes the next step; \<open>serve\<close> is one schedule, the invariants hold for all, every schedule ends,
    and some mix two requests.
  \<^item> \<open>Client\<close>: the socket exchange, the answer parser, one function per command, the listings. The locale
    \<open>daemon_command\<close> is the contract of a command, interpreted for all nine.
  \<^item> \<open>Daemon\<close>: finding, launching and awaiting the daemon; its main function and signal handler; the step
    relation \<open>daemon_step\<close> of one daemon's life and its reachable states.
  \<^item> \<open>Program\<close>: \<open>main\<close>, and the peer that connects the client's model to the server's; what each command
    achieves against a running daemon; sessions of client programs.
  \<^item> \<open>Demos\<close>: the two stand-alone programs under \<open>src/eg\<close>, as sequences of system calls.
  This theory states the properties that span client and daemon.

  How the parts meet. The client builds \<open>create_http_request\<close>; the peer of \<open>linked\<close> hands the text to
  \<open>serve\<close>, one connection of the server, and returns what \<open>send\<close> was given; \<open>parse_http_response\<close>
  reads it. Both directions assume that one \<open>recv\<close> delivers a whole message. A \<open>connect\<close> without a request,
  as \<open>is_daemon_running\<close> makes, is an empty connection of the server.

  Bounds. Every buffer has its declared size; the theorems name the lengths up to which an operation is exact
  and, where the code overflows beyond them, that it is undefined there. Paths shorter than 400 characters
  are not cut by the 512-byte path buffers; a response whose status message and body have 8000 characters
  or fewer fits the 8192-byte response buffer.

  Not modelled: the \<open>free_\<close> functions (release of memory only, except that a thread's copy of its request is
  tracked); the text on the standard error output and the daemon's own standard output; interleaving within a
  handler or within one call of \<open>strtok\<close>; \<open>kill\<close> and \<open>waitpid\<close> on process groups (a recorded pid of 0 or
  less), which give no result; symbolic links and relative path components; \<open>prctl\<close> and the registration of
  signal handlers; the Makefile and the scripts.
\<close>

section \<open>Properties of the program as a whole\<close>

text \<open>
  C1. \<open>docker run\<close> never creates a container, whatever image, command and options are given: against
  a running daemon with memory to spare it always ends in the error result, and the daemon's world is as before
  except for two allocations. The server never sees the request body that names the image.
\<close>

theorem run_never_creates:
  assumes "linked l os g"
  shows "docker_run l img cmd name wd env ports vols i t d w = Some (- 1, [], w\<lparr>allocs := allocs w + 2\<rparr>)"
  using assms by (rule docker_run_result)

theorem run_never_creates_witness:
  "docker_run calm_peer (Some ''nginx'') (Some ''sh'') (Some []) (Some []) (Some []) (Some []) (Some []) 0 0 1 empty_world =
     Some (- 1, [], empty_world\<lparr>allocs := 2\<rparr>)"
  using run_never_creates [OF calm_linked, of "Some ''nginx''" "Some ''sh''" "Some []" "Some []" "Some []" "Some []" "Some []" 0 0 1 empty_world]
  by (simp add: empty_world_def)

text \<open>
  C2. \<open>docker stop\<close>, \<open>docker rm\<close>, \<open>docker ps\<close> and \<open>docker containers\<close> always fail: the
  methods and URLs the client uses are not among those the server routes to those operations. No container is
  touched.
\<close>

theorem container_commands_fail:
  assumes "linked l os g" "plain_id i"
  shows "docker_stop l (Some i) w = Some (- 1, [], w\<lparr>allocs := allocs w + 2\<rparr>) \<and>
    docker_rm l (Some i) w = Some (- 1, [], w\<lparr>allocs := allocs w + 2\<rparr>) \<and>
    docker_containers l w = Some (- 1, [], w\<lparr>allocs := allocs w + 2\<rparr>)"
  using container_commands_result [OF assms] by blast

theorem container_commands_fail_witness:
  "docker_stop calm_peer (Some web) empty_world = Some (- 1, [], empty_world\<lparr>allocs := 2\<rparr>)"
  using container_commands_fail [OF calm_linked, of web empty_world] plain_container_id [of 0]
  by (simp add: web_def empty_world_def)

text \<open>
  C30. \<open>docker images\<close> succeeds and prints the two header lines, whatever images the store holds.
\<close>

theorem images_shows_nothing:
  assumes "linked l os g" "lookup w METADATA_DIR = Some Dir" "\<not> deny_read os METADATA_DIR"
    and "\<forall>q. prefix (METADATA_DIR @ ''//tmp'') q \<longrightarrow> lookup w q = None"
  shows "\<exists>k. docker_images l w = Some (0, ''REPOSITORY    TAG    IMAGE ID    CREATED    SIZE'' @ [LF] @
     ''------------------------------------------------'' @ [LF], w\<lparr>allocs := k\<rparr>)"
  using assms by (rule docker_images_result)

theorem images_shows_nothing_witness:
  "\<exists>w w'. image_exists ''nginx'' None w \<and>
     docker_images calm_peer w = Some (0, ''REPOSITORY    TAG    IMAGE ID    CREATED    SIZE'' @ [LF] @
     ''------------------------------------------------'' @ [LF], w')"
proof -
  let ?w = "put (image_metadata_path ''nginx:latest'') (File []) store_world"
  have "image_exists ''nginx'' None ?w"
    by (simp add: image_exists_def access_ok_def fs_simps get_image_full_name_def snprintf_def)
  moreover have m: "lookup ?w METADATA_DIR = Some Dir" "\<not> deny_read calm_os METADATA_DIR"
    by (auto simp: fs_simps lookup_store_world image_paths METADATA_DIR_def calm_os_def)
  moreover have p: "\<forall>q. prefix (METADATA_DIR @ ''//tmp'') q \<longrightarrow> lookup ?w q = None"
    by (auto simp: fs_simps lookup_store_world image_paths METADATA_DIR_def LAYER_STORAGE_DIR_def prefix_def)
  ultimately show ?thesis using images_shows_nothing [OF calm_linked m p] by blast
qed

text \<open>
  C3. \<open>docker_rmi\<close> over the wire is \<open>remove_image\<close> in the daemon: for every image word the
  client reports success exactly when the daemon's operation returned 0, and the daemon's world is the one that
  operation left.
\<close>

theorem rmi_is_remove_image:
  assumes "linked l os g" "image_word i" "remove_image os i (w\<lparr>allocs := allocs w + 2\<rparr>) = (e, w')"
  shows "docker_rmi l (Some i) w =
    (if e = 0 then Some (0, ''Image '' @ i @ '' removed'' @ [LF], w') else Some (- 1, [], w'))"
  using assms by (rule docker_rmi_result)

theorem rmi_is_remove_image_witness:
  "docker_rmi calm_peer (Some ''nginx:latest'') empty_world = Some (- 1, [], empty_world\<lparr>allocs := 2\<rparr>)"
proof -
  have i: "image_word ''nginx:latest''" by (simp add: image_word_def)
  have "lookup empty_world (image_metadata_path ''nginx:latest'') = None"
    by (simp add: lookup_def empty_world_def image_paths METADATA_DIR_def)
  then have "remove_image calm_os ''nginx:latest'' (empty_world\<lparr>allocs := allocs empty_world + 2\<rparr>) = (- 1, empty_world\<lparr>allocs := 2\<rparr>)"
    by (simp add: remove_image_def unlink_def fs_simps) (simp add: empty_world_def)
  then show ?thesis using rmi_is_remove_image [OF calm_linked i] by simp
qed

text \<open>
  C22. \<open>docker rmi\<close> on the command line never removes the image it names: the parser stores the name
  in another field than the one \<open>main\<close> passes on, so the daemon is asked to remove the empty name. The
  program exits 1 and no file changes, whether the daemon runs or not, unless a file called \<open>.json\<close> exists.
\<close>

theorem rmi_removes_nothing:
  assumes "linked l os g" "\<forall>b \<in> set args. no_nul b" "no_nul prog" "lookup d (image_metadata_path []) = None"
  shows "\<exists>w1 d1. main os' l a st (prog # ''rmi'' # args) w d = Some (1, [], w1, d1) \<and> (\<forall>q. lookup d1 q = lookup d q)"
  using assms by (rule rmi_main)

theorem rmi_removes_nothing_witness:
  "\<exists>d w1 d1. image_exists ''nginx'' None d \<and>
     main calm_os calm_peer up_dial calm_starter [''docker'', ''rmi'', ''nginx:latest''] empty_world d = Some (1, [], w1, d1) \<and>
     image_exists ''nginx'' None d1"
proof -
  let ?d = "put (image_metadata_path ''nginx:latest'') (File []) store_world"
  have ex: "image_exists ''nginx'' None v \<longleftrightarrow> lookup v (image_metadata_path ''nginx:latest'') \<noteq> None" for v
    by (simp add: image_exists_def access_ok_def get_image_full_name_def snprintf_def)
  have e: "image_exists ''nginx'' None ?d" by (simp add: ex fs_simps)
  have n: "\<forall>b \<in> set [''nginx:latest'']. no_nul b" "no_nul ''docker''" by simp_all
  have "lookup ?d (image_metadata_path []) = None"
    by (auto simp: fs_simps lookup_store_world image_paths METADATA_DIR_def LAYER_STORAGE_DIR_def)
  then obtain w1 d1 where "main calm_os calm_peer up_dial calm_starter [''docker'', ''rmi'', ''nginx:latest''] empty_world ?d = Some (1, [], w1, d1)"
    "\<forall>q. lookup d1 q = lookup ?d q"
    using rmi_removes_nothing [OF calm_linked n] by blast
  then show ?thesis using e ex by metis
qed

text \<open>
  C8. However many client programs run, with whatever arguments, they never make the daemon start,
  signal or reap a process: the closed system of this client and this server runs no container.
\<close>

theorem clients_run_nothing:
  assumes "session os d d'"
  shows "children d' = children d \<and> signals d' = signals d \<and> clones d' = clones d"
  using session_quiet [OF assms] by (simp add: same_processes_def)

theorem clients_run_nothing_witness:
  "\<exists>w' d'. main calm_os calm_peer up_dial calm_starter [''docker'', ''stop'', ''web''] empty_world empty_world = Some (1, [], w', d') \<and>
     clones d' = 0"
proof -
  let ?argv = "[''docker'', ''stop'', ''web'']"
  obtain w1 where p: "parse_arguments calm_os ?argv empty_world =
      Some (Some (zero_command\<lparr>ctype := CMD_STOP, cargs := [Some ''docker'', Some ''stop'', Some ''web''], cargc := 3,
        container_name := strncpy_sz (zbuf 512) ''web''\<rparr>), w1)"
    by (simp add: parse_arguments_def malloc_def calm_os_def parse_options_def get_command_type_def not_dash_def zero_command_def)
  have c: "cstr (strncpy_sz (zbuf 512) ''web'') = Some ''web''" by (rule cstr_strncpy_short) simp_all
  have i: "plain_id ''web''" by (simp add: plain_id_def token_def)
  have m: "main calm_os calm_peer up_dial calm_starter ?argv empty_world empty_world = Some (1, [], w1, after 2 (after 1 empty_world))"
    using container_commands_result(1) [OF calm_linked i, of "after 1 empty_world"] ping_up [OF calm_linked, of up_dial empty_world] up_answers c
    by (simp add: main_def p validate_command_def is_empty_field_def run_switch_def zero_command_def cstr_zbuf)
  have "session calm_os empty_world (after 2 (after 1 empty_world))"
    by (rule session.client [OF session.quiet_start calm_linked m])
  then show ?thesis using clients_run_nothing m by (simp add: empty_world_def)
qed

text \<open>
  Without a daemon every command but \<open>daemon\<close> exits 1, prints nothing and leaves the daemon's
  state alone, provided the arguments parse and pass validation.
\<close>

theorem main_without_daemon:
  assumes "attempt_connect a \<noteq> 0" "parse_arguments os argv w = Some (Some c, w1)" "validate_command c = Some v" "ctype c \<noteq> CMD_DAEMON"
  shows "main os l a st argv w d = Some (1, [], w1, d)"
  using assms by (simp add: main_def ping_def is_daemon_running_def)

theorem main_without_daemon_witness:
  "\<exists>w1. main calm_os calm_peer (up_dial\<lparr>d_connect := - 1\<rparr>) calm_starter [''docker'', ''ps''] empty_world empty_world =
     Some (1, [], w1, empty_world)"
proof -
  have a: "attempt_connect (up_dial\<lparr>d_connect := - 1\<rparr>) \<noteq> 0" by (simp add: attempt_connect_def up_dial_def)
  obtain c w1 where p: "parse_arguments calm_os [''docker'', ''ps''] empty_world = Some (Some c, w1)" "ctype c = CMD_PS"
    by (simp add: parse_arguments_def malloc_def calm_os_def parse_options_def get_command_type_def)
  then have v: "validate_command c = Some 1" "ctype c \<noteq> CMD_DAEMON" by (simp_all add: validate_command_def)
  show ?thesis by (rule exI, rule main_without_daemon [OF a p(1) v])
qed





end
